theory Spec2Isabelle
  imports Complex_Main "HOL-Library.AList"
begin

section \<open>Parameter schedulers of \<^verbatim>\<open>ignite/handlers/param_scheduler.py\<close>\<close>

text \<open>
  The module holds a base class \<^verbatim>\<open>ParamScheduler\<close>, the class \<^verbatim>\<open>CyclicalScheduler\<close>
  with three waveform subclasses, and \<^verbatim>\<open>ConcatScheduler\<close>.  Python numbers are modelled
  in exact arithmetic: \<^verbatim>\<open>event_index\<close>, \<^verbatim>\<open>cycle\<close> and event durations are
  \<^typ>\<open>int\<close>; \<^verbatim>\<open>start_value\<close>, \<^verbatim>\<open>end_value\<close>, \<^verbatim>\<open>cycle_size\<close>, \<^verbatim>\<open>cycle_mult\<close> and the
  values written into the optimizer are \<^typ>\<open>real\<close> (the rounding of Python floats is
  not modelled).  The module starts with \<^verbatim>\<open>from __future__ import division\<close>, so
  \<^verbatim>\<open>/\<close> is true division.
\<close>

subsection \<open>Exceptions and outcomes\<close>

datatype error =
    NotImplementedError
  | ZeroDivisionError
  | TypeError
  | IndexError
  | KeyError
  | AttributeError

text \<open>
  A method that mutates its object either returns or raises; in both cases the mutations
  made so far stay, so both outcomes carry the state.
\<close>

datatype 'a outcome = Raise error 'a | Done 'a

fun outcome_state :: "'a outcome \<Rightarrow> 'a" where
  "outcome_state (Raise e x) = x"
| "outcome_state (Done x) = x"

fun raised :: "'a outcome \<Rightarrow> error option" where
  "raised (Raise e x) = Some e"
| "raised (Done x) = None"

subsection \<open>Arithmetic of Python numbers\<close>

definition py_truediv :: "real \<Rightarrow> real \<Rightarrow> error + real" where
  "py_truediv a b = (if b = 0 then Inl ZeroDivisionError else Inr (a / b))"

definition py_mod :: "real \<Rightarrow> real \<Rightarrow> error + real" where
  \<comment> \<open>\<^verbatim>\<open>a % b\<close>: the remainder of floor division, with the sign of \<^verbatim>\<open>b\<close>.\<close>
  "py_mod a b =
     (if b = 0 then Inl ZeroDivisionError else Inr (a - b * of_int \<lfloor>a / b\<rfloor>))"

subsection \<open>The optimizer and the engine\<close>

text \<open>
  An optimizer is an object shared between the caller and every scheduler that was given
  it, so it is kept in a store and schedulers hold a reference.  \<^verbatim>\<open>optimizer.param_groups\<close>
  is a list of dictionaries from option names to values.  \<^verbatim>\<open>engine.state\<close> may or may
  not have the attribute \<^verbatim>\<open>param_history\<close>.
\<close>

type_synonym ref = nat

type_synonym param_group = "string \<rightharpoonup> real"

record world =
  param_groups :: "ref \<Rightarrow> param_group list"
  param_history :: "(string \<rightharpoonup> real list list) option"

subsection \<open>\<^verbatim>\<open>ParamScheduler\<close>\<close>

record param_scheduler =
  optimizer :: ref
  param_name :: string
  save_history :: bool
  event_index :: int

definition ParamScheduler_init :: "ref \<Rightarrow> string \<Rightarrow> bool \<Rightarrow> param_scheduler" where
  "ParamScheduler_init opt name hist =
     \<lparr>optimizer = opt, param_name = name, save_history = hist, event_index = 0\<rparr>"

definition ParamScheduler_get_param :: "'a param_scheduler_scheme \<Rightarrow> error + real" where
  "ParamScheduler_get_param self = Inl NotImplementedError"

fun lookup_all :: "string \<Rightarrow> param_group list \<Rightarrow> error + real list" where
  \<comment> \<open>\<^verbatim>\<open>[pg[name] for pg in param_groups]\<close>\<close>
  "lookup_all name [] = Inr []"
| "lookup_all name (pg # pgs) =
     (case pg name of
        None \<Rightarrow> Inl KeyError
      | Some v \<Rightarrow> (case lookup_all name pgs of Inl e \<Rightarrow> Inl e | Inr vs \<Rightarrow> Inr (v # vs)))"

definition history_setdefault ::
  "string \<Rightarrow> (string \<rightharpoonup> real list list) option \<Rightarrow> (string \<rightharpoonup> real list list)" where
  \<comment> \<open>lines 22-24: create \<^verbatim>\<open>param_history\<close> if absent, then \<^verbatim>\<open>setdefault(name, [])\<close>\<close>
  "history_setdefault name h =
     (let d = (case h of None \<Rightarrow> Map.empty | Some d \<Rightarrow> d)
      in case d name of None \<Rightarrow> d(name \<mapsto> []) | Some _ \<Rightarrow> d)"

definition history_append ::
  "string \<Rightarrow> real list \<Rightarrow> (string \<rightharpoonup> real list list) \<Rightarrow> error + (string \<rightharpoonup> real list list)" where
  \<comment> \<open>\<^verbatim>\<open>param_history[name].append(values)\<close>\<close>
  "history_append name vs d =
     (case d name of None \<Rightarrow> Inl KeyError | Some l \<Rightarrow> Inr (d(name \<mapsto> l @ [vs])))"

text \<open>
  \<^verbatim>\<open>ParamScheduler.__call__\<close>.  The method \<^verbatim>\<open>get_param\<close> is resolved on the class of
  \<^verbatim>\<open>self\<close>, so it is a parameter here; the function works on every record that extends
  \<^typ>\<open>param_scheduler\<close>, as the method works on every subclass.
\<close>

definition ParamScheduler_call ::
  "('a param_scheduler_scheme \<Rightarrow> error + real) \<Rightarrow> 'a param_scheduler_scheme \<Rightarrow> world
     \<Rightarrow> ('a param_scheduler_scheme \<times> world) outcome" where
  "ParamScheduler_call get_param self w =
     (case get_param self of
        Inl e \<Rightarrow> Raise e (self, w)
      | Inr v \<Rightarrow>
          let groups = map (\<lambda>pg. pg(param_name self \<mapsto> v)) (param_groups w (optimizer self));
              w1 = w\<lparr>param_groups := (param_groups w)(optimizer self := groups)\<rparr>
          in if save_history self then
               let d = history_setdefault (param_name self) (param_history w1);
                   w2 = w1\<lparr>param_history := Some d\<rparr>
               in (case lookup_all (param_name self) (param_groups w2 (optimizer self)) of
                     Inl e \<Rightarrow> Raise e (self, w2)
                   | Inr vs \<Rightarrow>
                       (case history_append (param_name self) vs d of
                          Inl e \<Rightarrow> Raise e (self, w2)
                        | Inr d' \<Rightarrow>
                            Done (self\<lparr>event_index := event_index self + 1\<rparr>,
                                  w2\<lparr>param_history := Some d'\<rparr>)))
             else Done (self\<lparr>event_index := event_index self + 1\<rparr>, w1))"

subsection \<open>\<^verbatim>\<open>CyclicalScheduler\<close> and the waveforms\<close>

record cyclical_scheduler = param_scheduler +
  start_value :: real
  end_value :: real
  cycle_size :: real
  cycle_mult :: real
  cycle :: int

definition CyclicalScheduler_init ::
  "ref \<Rightarrow> string \<Rightarrow> real \<Rightarrow> real \<Rightarrow> real \<Rightarrow> real \<Rightarrow> bool \<Rightarrow> cyclical_scheduler" where
  "CyclicalScheduler_init opt name sv ev csize cmult hist =
     param_scheduler.extend (ParamScheduler_init opt name hist)
       (cyclical_scheduler.fields sv ev csize cmult 0)"

definition CyclicalScheduler_boundary ::
  "'a cyclical_scheduler_scheme \<Rightarrow> error + 'a cyclical_scheduler_scheme" where
  \<comment> \<open>lines 57-60; \<^verbatim>\<open>and\<close> does not evaluate the modulo when \<^verbatim>\<open>event_index\<close> is 0\<close>
  "CyclicalScheduler_boundary self =
     (if event_index self \<noteq> 0 then
        (case py_mod (of_int (event_index self)) (cycle_size self) of
           Inl e \<Rightarrow> Inl e
         | Inr r \<Rightarrow>
             if r = 0 then
               Inr (self\<lparr>event_index := 0,
                         cycle_size := cycle_size self * cycle_mult self,
                         cycle := cycle self + 1\<rparr>)
             else Inr self)
      else Inr self)"

definition CyclicalScheduler_call ::
  "('a cyclical_scheduler_scheme \<Rightarrow> error + real) \<Rightarrow> 'a cyclical_scheduler_scheme \<Rightarrow> world
     \<Rightarrow> ('a cyclical_scheduler_scheme \<times> world) outcome" where
  "CyclicalScheduler_call get_param self w =
     (case CyclicalScheduler_boundary self of
        Inl e \<Rightarrow> Raise e (self, w)
      | Inr self' \<Rightarrow> ParamScheduler_call get_param self' w)"

definition LinearScheduler_get_param :: "'a cyclical_scheduler_scheme \<Rightarrow> error + real" where
  "LinearScheduler_get_param self =
     (case py_truediv (of_int (event_index self)) (cycle_size self) of
        Inl e \<Rightarrow> Inl e
      | Inr cycle_progress \<Rightarrow>
          Inr (end_value self
               + (start_value self - end_value self) * \<bar>cycle_progress - 0.5\<bar> * 2))"

definition CosineAnnealingScheduler_get_param ::
  "'a cyclical_scheduler_scheme \<Rightarrow> error + real" where
  "CosineAnnealingScheduler_get_param self =
     (case py_truediv (of_int (event_index self)) (cycle_size self) of
        Inl e \<Rightarrow> Inl e
      | Inr cycle_progress \<Rightarrow>
          Inr (start_value self
               + ((end_value self - start_value self) / 2) * (1 - cos (pi * cycle_progress))))"

definition CosineScheduler_get_param :: "'a cyclical_scheduler_scheme \<Rightarrow> error + real" where
  "CosineScheduler_get_param self =
     (case py_truediv (of_int (event_index self)) (cycle_size self) of
        Inl e \<Rightarrow> Inl e
      | Inr cycle_progress \<Rightarrow>
          Inr (start_value self
               + ((end_value self - start_value self) / 2)
                 * (1 - cos (2 * pi * cycle_progress))))"

subsection \<open>Objects and method resolution\<close>

text \<open>
  An object is its attributes together with its class.  \<^verbatim>\<open>obj(engine)\<close> runs the
  \<^verbatim>\<open>__call__\<close> of the class: \<^verbatim>\<open>ParamScheduler.__call__\<close> for a \<^verbatim>\<open>ParamScheduler\<close>, and
  \<^verbatim>\<open>CyclicalScheduler.__call__\<close> for \<^verbatim>\<open>CyclicalScheduler\<close> and its three subclasses, where
  \<^verbatim>\<open>get_param\<close> is the subclass's, or the raising one of \<^verbatim>\<open>ParamScheduler\<close> for
  \<^verbatim>\<open>CyclicalScheduler\<close> itself, which does not define it.
\<close>

datatype cls =
    CyclicalScheduler
  | LinearScheduler
  | CosineAnnealingScheduler
  | CosineScheduler

datatype obj =
    ParamSchedulerObj param_scheduler
  | CyclicalObj cls cyclical_scheduler

fun get_param :: "cls \<Rightarrow> cyclical_scheduler \<Rightarrow> error + real" where
  "get_param CyclicalScheduler = ParamScheduler_get_param"
| "get_param LinearScheduler = LinearScheduler_get_param"
| "get_param CosineAnnealingScheduler = CosineAnnealingScheduler_get_param"
| "get_param CosineScheduler = CosineScheduler_get_param"

fun in_class :: "('a \<Rightarrow> 'b) \<Rightarrow> ('a \<times> world) outcome \<Rightarrow> ('b \<times> world) outcome" where
  "in_class C (Raise e (self, w)) = Raise e (C self, w)"
| "in_class C (Done (self, w)) = Done (C self, w)"

fun call :: "obj \<Rightarrow> world \<Rightarrow> (obj \<times> world) outcome" where
  "call (ParamSchedulerObj self) w =
     in_class ParamSchedulerObj (ParamScheduler_call ParamScheduler_get_param self w)"
| "call (CyclicalObj c self) w =
     in_class (CyclicalObj c) (CyclicalScheduler_call (get_param c) self w)"

subsection \<open>Repeated invocation\<close>

text \<open>
  The engine invokes a scheduler once per event; an exception that leaves the handler
  ends the run.
\<close>

fun invoke ::
  "('s \<Rightarrow> world \<Rightarrow> ('s \<times> world) outcome) \<Rightarrow> nat \<Rightarrow> 's \<Rightarrow> world \<Rightarrow> ('s \<times> world) outcome" where
  "invoke f 0 self w = Done (self, w)"
| "invoke f (Suc n) self w =
     (case f self w of
        Raise e x \<Rightarrow> Raise e x
      | Done (self', w') \<Rightarrow> invoke f n self' w')"

subsection \<open>Construction from keyword arguments\<close>

text \<open>
  \<^verbatim>\<open>ConcatScheduler\<close> builds its sub-schedulers with \<^verbatim>\<open>scheduler_cls(**kwds)\<close>.  A keyword
  dictionary is an association list read with \<^const>\<open>map_of\<close>; its values are Python
  values.  Python binds the keywords to the parameters of \<^verbatim>\<open>__init__\<close> and raises
  \<^verbatim>\<open>TypeError\<close> for a keyword that is no parameter and for a parameter without default
  that is missing.  The attributes of the model are typed, so a value of another type than
  the attribute's is refused with \<^verbatim>\<open>TypeError\<close> as well (Python itself would store it
  and fail when it is used).
\<close>

datatype pyval = PyObj ref | PyStr string | PyBool bool | PyNum real

type_synonym kwds = "(string \<times> pyval) list"

definition unexpected_keyword :: "string list \<Rightarrow> kwds \<Rightarrow> bool" where
  "unexpected_keyword params kw = list_ex (\<lambda>(k, v). k \<notin> set params) kw"

definition arg_obj :: "kwds \<Rightarrow> string \<Rightarrow> error + ref" where
  "arg_obj kw k = (case map_of kw k of Some (PyObj r) \<Rightarrow> Inr r | _ \<Rightarrow> Inl TypeError)"

definition arg_str :: "kwds \<Rightarrow> string \<Rightarrow> error + string" where
  "arg_str kw k = (case map_of kw k of Some (PyStr s) \<Rightarrow> Inr s | _ \<Rightarrow> Inl TypeError)"

definition arg_num :: "kwds \<Rightarrow> string \<Rightarrow> error + real" where
  "arg_num kw k = (case map_of kw k of Some (PyNum x) \<Rightarrow> Inr x | _ \<Rightarrow> Inl TypeError)"

definition arg_num_default :: "kwds \<Rightarrow> string \<Rightarrow> real \<Rightarrow> error + real" where
  "arg_num_default kw k d =
     (case map_of kw k of None \<Rightarrow> Inr d | Some (PyNum x) \<Rightarrow> Inr x | Some _ \<Rightarrow> Inl TypeError)"

definition arg_bool_default :: "kwds \<Rightarrow> string \<Rightarrow> bool \<Rightarrow> error + bool" where
  "arg_bool_default kw k d =
     (case map_of kw k of None \<Rightarrow> Inr d | Some (PyBool b) \<Rightarrow> Inr b | Some _ \<Rightarrow> Inl TypeError)"

definition and_then :: "error + 'a \<Rightarrow> ('a \<Rightarrow> error + 'b) \<Rightarrow> error + 'b" where
  "and_then r f = (case r of Inl e \<Rightarrow> Inl e | Inr x \<Rightarrow> f x)"

definition ParamScheduler_new :: "kwds \<Rightarrow> error + obj" where
  \<comment> \<open>\<^verbatim>\<open>ParamScheduler(**kw)\<close>, parameters \<^verbatim>\<open>optimizer, param_name, save_history=False\<close>\<close>
  "ParamScheduler_new kw =
     (if unexpected_keyword [''optimizer'', ''param_name'', ''save_history''] kw
      then Inl TypeError
      else
        and_then (arg_obj kw ''optimizer'') (\<lambda>opt.
        and_then (arg_str kw ''param_name'') (\<lambda>name.
        and_then (arg_bool_default kw ''save_history'' False) (\<lambda>hist.
          Inr (ParamSchedulerObj (ParamScheduler_init opt name hist))))))"

definition CyclicalScheduler_new :: "cls \<Rightarrow> kwds \<Rightarrow> error + obj" where
  \<comment> \<open>\<^verbatim>\<open>c(**kw)\<close> for \<^verbatim>\<open>CyclicalScheduler\<close> and its subclasses, which all use its
      \<^verbatim>\<open>__init__\<close> (\<^verbatim>\<open>LinearScheduler.__init__\<close> passes its arguments on unchanged)\<close>
  "CyclicalScheduler_new c kw =
     (if unexpected_keyword [''optimizer'', ''param_name'', ''start_value'', ''end_value'',
            ''cycle_size'', ''cycle_mult'', ''save_history''] kw
      then Inl TypeError
      else
        and_then (arg_obj kw ''optimizer'') (\<lambda>opt.
        and_then (arg_str kw ''param_name'') (\<lambda>name.
        and_then (arg_num kw ''start_value'') (\<lambda>sv.
        and_then (arg_num kw ''end_value'') (\<lambda>ev.
        and_then (arg_num kw ''cycle_size'') (\<lambda>csize.
        and_then (arg_num_default kw ''cycle_mult'' 1) (\<lambda>cmult.
        and_then (arg_bool_default kw ''save_history'' False) (\<lambda>hist.
          Inr (CyclicalObj c (CyclicalScheduler_init opt name sv ev csize cmult hist))))))))))"

subsection \<open>\<^verbatim>\<open>ConcatScheduler\<close>\<close>

text \<open>
  An entry of \<^verbatim>\<open>_schedulers_list\<close> is a triple of a callable that builds a scheduler from
  keyword arguments, the entry's keyword dictionary, and a duration (\<^verbatim>\<open>None\<close> for no
  further switch).  The class of the sub-schedulers is not fixed by the code, so their type
  \<^typ>\<open>'s\<close> and their \<^verbatim>\<open>__call__\<close> are parameters.
\<close>

type_synonym 's entry = "(kwds \<Rightarrow> error + 's) \<times> kwds \<times> int option"

record 's concat_scheduler = param_scheduler +
  schedulers_list :: "'s entry list"
  schedulers_index :: int
  next_scheduler_switch :: "int option"
  scheduler :: "'s option"

definition ConcatScheduler_init ::
  "ref \<Rightarrow> string \<Rightarrow> 's entry list \<Rightarrow> bool \<Rightarrow> 's concat_scheduler" where
  \<comment> \<open>the attribute \<^verbatim>\<open>_scheduler\<close> does not exist before the first switch\<close>
  "ConcatScheduler_init opt name entries hist =
     param_scheduler.extend (ParamScheduler_init opt name hist)
       (concat_scheduler.fields entries 0 (Some 0) None)"

definition py_index :: "'a list \<Rightarrow> int \<Rightarrow> error + 'a" where
  \<comment> \<open>\<^verbatim>\<open>xs[i]\<close>: a negative index counts from the end\<close>
  "py_index xs i =
     (let n = int (length xs); j = (if i < 0 then n + i else i)
      in if 0 \<le> j \<and> j < n then Inr (xs ! nat j) else Inl IndexError)"

definition shared_kwds :: "'a param_scheduler_scheme \<Rightarrow> kwds \<Rightarrow> kwds" where
  \<comment> \<open>lines 155-162: the copy of the entry's dictionary, updated with the shared values\<close>
  "shared_kwds self scheduler_kwds =
     AList.update ''save_history'' (PyBool (save_history self))
       (AList.update ''param_name'' (PyStr (param_name self))
          (AList.update ''optimizer'' (PyObj (optimizer self)) scheduler_kwds))"

definition ConcatScheduler_next_scheduler ::
  "'s concat_scheduler \<Rightarrow> 's concat_scheduler outcome" where
  "ConcatScheduler_next_scheduler self =
     (case py_index (schedulers_list self) (schedulers_index self) of
        Inl e \<Rightarrow> Raise e self
      | Inr (scheduler_cls, scheduler_kwds, switch) \<Rightarrow>
          let self1 = self\<lparr>next_scheduler_switch := switch\<rparr>
          in (case scheduler_cls (shared_kwds self1 scheduler_kwds) of
                Inl e \<Rightarrow> Raise e self1
              | Inr s \<Rightarrow>
                  let self2 = self1\<lparr>scheduler := Some s\<rparr>
                  in if length (schedulers_list self2) = 0
                     then Raise ZeroDivisionError self2
                     else Done (self2\<lparr>schedulers_index :=
                            (schedulers_index self2 + 1)
                              mod int (length (schedulers_list self2))\<rparr>)))"

definition ConcatScheduler_delegate ::
  "('s \<Rightarrow> world \<Rightarrow> ('s \<times> world) outcome) \<Rightarrow> 's concat_scheduler \<Rightarrow> world
     \<Rightarrow> ('s concat_scheduler \<times> world) outcome" where
  \<comment> \<open>line 173: \<^verbatim>\<open>self._scheduler(engine)\<close>; the sub-scheduler changes in place\<close>
  "ConcatScheduler_delegate sub_call self w =
     (case scheduler self of
        None \<Rightarrow> Raise AttributeError (self, w)
      | Some sub \<Rightarrow>
          (case sub_call sub w of
             Raise e (sub', w') \<Rightarrow> Raise e (self\<lparr>scheduler := Some sub'\<rparr>, w')
           | Done (sub', w') \<Rightarrow> Done (self\<lparr>scheduler := Some sub'\<rparr>, w')))"

definition ConcatScheduler_call ::
  "('s \<Rightarrow> world \<Rightarrow> ('s \<times> world) outcome) \<Rightarrow> 's concat_scheduler \<Rightarrow> world
     \<Rightarrow> ('s concat_scheduler \<times> world) outcome" where
  "ConcatScheduler_call sub_call self w =
     (case next_scheduler_switch self of
        None \<Rightarrow> ConcatScheduler_delegate sub_call self w
      | Some n \<Rightarrow>
          let self1 = self\<lparr>next_scheduler_switch := Some (n - 1)\<rparr>
          in if n - 1 < 0 then
               (case ConcatScheduler_next_scheduler self1 of
                  Raise e self2 \<Rightarrow> Raise e (self2, w)
                | Done self2 \<Rightarrow> ConcatScheduler_delegate sub_call self2 w)
             else ConcatScheduler_delegate sub_call self1 w)"

section \<open>Notions of the specification and example data\<close>

text \<open>
  The waveform table of the specification (section 4.2), as functions of the start value,
  the end value and the progress \<open>p\<close>.
\<close>

definition Linear_waveform :: "real \<Rightarrow> real \<Rightarrow> real \<Rightarrow> real" where
  "Linear_waveform start end p = end + (start - end) * \<bar>p - 0.5\<bar> * 2"

definition CosineAnnealing_waveform :: "real \<Rightarrow> real \<Rightarrow> real \<Rightarrow> real" where
  "CosineAnnealing_waveform start end p = start + (end - start) / 2 * (1 - cos (pi * p))"

definition Cosine_waveform :: "real \<Rightarrow> real \<Rightarrow> real \<Rightarrow> real" where
  "Cosine_waveform start end p = start + (end - start) / 2 * (1 - cos (2 * pi * p))"

definition cycle_progress :: "'a cyclical_scheduler_scheme \<Rightarrow> real" where
  "cycle_progress self = of_int (event_index self) / cycle_size self"

text \<open>The snapshots logged under a name; none when the log or the name is absent.\<close>

definition history_log :: "world \<Rightarrow> string \<Rightarrow> real list list" where
  "history_log w name =
     (case param_history w of
        None \<Rightarrow> []
      | Some d \<Rightarrow> (case d name of None \<Rightarrow> [] | Some l \<Rightarrow> l))"

text \<open>
  The end-to-end example of the specification: optimizer 0 has the single parameter group
  \<^verbatim>\<open>{"lr": 0.1}\<close>, and the schedule is \<^verbatim>\<open>LinearScheduler(optimizer, "lr", 0.1, 0.01, 10)\<close>.
\<close>

definition example_world :: world where
  "example_world =
     \<lparr>param_groups = (\<lambda>r. if r = 0 then [ [''lr'' \<mapsto> 0.1] ] else []), param_history = None\<rparr>"

definition example_cyclical :: cyclical_scheduler where
  "example_cyclical = CyclicalScheduler_init 0 ''lr'' 0.1 0.01 10 1 False"

definition example_linear :: obj where
  "example_linear = CyclicalObj LinearScheduler example_cyclical"

definition example_lr :: "nat \<Rightarrow> real option list" where
  \<comment> \<open>the \<^verbatim>\<open>lr\<close> options of optimizer 0 after \<open>n\<close> invocations\<close>
  "example_lr n =
     map (\<lambda>pg. pg ''lr'')
       (param_groups (snd (outcome_state (invoke call n example_linear example_world))) 0)"

text \<open>
  A cycle of one event, a cycle of two and a half events, and the scheduler state after
  \<open>n\<close> invocations of a Linear schedule in the example world.
\<close>

definition unit_cycle :: cyclical_scheduler where
  "unit_cycle = CyclicalScheduler_init 0 ''lr'' 0.1 0.01 1 1 False"

definition fractional_cycle :: cyclical_scheduler where
  "fractional_cycle = CyclicalScheduler_init 0 ''lr'' 0.1 0.01 2.5 1 False"

definition after :: "nat \<Rightarrow> cyclical_scheduler \<Rightarrow> cyclical_scheduler" where
  "after n self =
     fst (outcome_state (invoke (CyclicalScheduler_call LinearScheduler_get_param) n self
       example_world))"


definition doubling_cycle :: cyclical_scheduler where
  "doubling_cycle = CyclicalScheduler_init 0 ''lr'' 0.1 0.01 2 2 False"


text \<open>
  A \<^verbatim>\<open>ConcatScheduler\<close> on optimizer 0 and option \<^verbatim>\<open>lr\<close> with two entries: a
  \<^verbatim>\<open>LinearScheduler\<close> with duration 1 and a \<^verbatim>\<open>CosineAnnealingScheduler\<close> with duration 0.
\<close>

definition example_kwds_A :: kwds where
  "example_kwds_A =
     [(''start_value'', PyNum 0.1), (''end_value'', PyNum 0.01), (''cycle_size'', PyNum 10)]"

definition example_kwds_B :: kwds where
  "example_kwds_B =
     [(''start_value'', PyNum 0.01), (''end_value'', PyNum 0.001), (''cycle_size'', PyNum 4)]"

definition example_concat :: "obj concat_scheduler" where
  "example_concat =
     ConcatScheduler_init 0 ''lr''
       [(CyclicalScheduler_new LinearScheduler, example_kwds_A, Some 1),
        (CyclicalScheduler_new CosineAnnealingScheduler, example_kwds_B, Some 0)] False"

definition example_annealing :: obj where
  "example_annealing =
     CyclicalObj CosineAnnealingScheduler (CyclicalScheduler_init 0 ''lr'' 0.01 0.001 4 1 False)"

definition concat_lr :: "nat \<Rightarrow> real option list" where
  "concat_lr n =
     map (\<lambda>pg. pg ''lr'')
       (param_groups
          (snd (outcome_state (invoke (ConcatScheduler_call call) n example_concat
             example_world))) 0)"

text \<open>
  The attributes every scheduler object has, and the relation that the sub-scheduler writes
  where the \<^verbatim>\<open>ConcatScheduler\<close> is configured to write.  \<open>in_source\<close> holds for the
  classes of the module that a sequence entry can name in this model.
\<close>

fun base :: "obj \<Rightarrow> param_scheduler" where
  "base (ParamSchedulerObj self) = self"
| "base (CyclicalObj c self) = param_scheduler.truncate self"

definition targets :: "obj \<Rightarrow> 'a param_scheduler_scheme \<Rightarrow> bool" where
  "targets sub self \<longleftrightarrow>
     optimizer (base sub) = optimizer self \<and> param_name (base sub) = param_name self
     \<and> save_history (base sub) = save_history self"

definition in_source :: "(kwds \<Rightarrow> error + obj) \<Rightarrow> bool" where
  "in_source F \<longleftrightarrow> F = ParamScheduler_new \<or> (\<exists>c. F = CyclicalScheduler_new c)"

text \<open>
  What a \<^verbatim>\<open>ConcatScheduler\<close> keeps while it runs: its shared attributes, its sequence of
  entries, and an active sub-scheduler that shares its optimizer, parameter name and
  history flag.
\<close>

definition concat_inv :: "obj concat_scheduler \<Rightarrow> obj concat_scheduler \<Rightarrow> bool" where
  "concat_inv self self' \<longleftrightarrow>
     optimizer self' = optimizer self \<and> param_name self' = param_name self
     \<and> save_history self' = save_history self
     \<and> schedulers_list self' = schedulers_list self
     \<and> (\<forall>sub. scheduler self' = Some sub \<longrightarrow> targets sub self)"

text \<open>
  An entry whose own keywords name another optimizer, another option and another history
  flag than the \<^verbatim>\<open>ConcatScheduler\<close> it belongs to.
\<close>

definition example_kwds_override :: kwds where
  "example_kwds_override =
     [(''param_name'', PyStr ''momentum''), (''optimizer'', PyObj 7),
      (''save_history'', PyBool True), (''start_value'', PyNum 0.1),
      (''end_value'', PyNum 0.01), (''cycle_size'', PyNum 10)]"

definition overriding_concat :: "obj concat_scheduler" where
  "overriding_concat =
     ConcatScheduler_init 0 ''lr''
       [(CyclicalScheduler_new LinearScheduler, example_kwds_override, Some 1)] False"

text \<open>
  Schedulers whose \<^verbatim>\<open>get_param\<close> or factory raises: a cycle with multiplier 0 (the cycle
  size is 0 after the first reset), an instance of \<^verbatim>\<open>CyclicalScheduler\<close> itself (its
  \<^verbatim>\<open>get_param\<close> is the one of \<^verbatim>\<open>ParamScheduler\<close>), a \<^verbatim>\<open>ConcatScheduler\<close> over such an
  instance, and one whose entry lacks required keywords.
\<close>

definition zero_mult_cycle :: cyclical_scheduler where
  "zero_mult_cycle = CyclicalScheduler_init 0 ''lr'' 0.1 0.01 10 0 False"

definition abstract_obj :: obj where
  "abstract_obj = CyclicalObj CyclicalScheduler example_cyclical"

definition abstract_concat :: "obj concat_scheduler" where
  "abstract_concat =
     ConcatScheduler_init 0 ''lr''
       [(CyclicalScheduler_new CyclicalScheduler, example_kwds_A, Some 1)] False"

definition failing_concat :: "obj concat_scheduler" where
  "failing_concat =
     ConcatScheduler_init 0 ''lr''
       [(CyclicalScheduler_new LinearScheduler, [(''start_value'', PyNum 0.1)], Some 3)] False"

text \<open>
  The two steps of \<^verbatim>\<open>ConcatScheduler.__call__\<close> that precede the delegated call (lines
  168-170): the countdown after its decrement, and whether the decrement made a switch due.
\<close>

definition switch_due :: "'s concat_scheduler \<Rightarrow> bool" where
  \<comment> \<open>lines 168-170: the countdown is not \<^verbatim>\<open>None\<close> and negative after the decrement\<close>
  "switch_due self =
     (case next_scheduler_switch self of None \<Rightarrow> False | Some n \<Rightarrow> n - 1 < 0)"

definition decremented :: "'s concat_scheduler \<Rightarrow> 's concat_scheduler" where
  \<comment> \<open>lines 168-169: the scheduler after the decrement of the countdown\<close>
  "decremented self =
     (case next_scheduler_switch self of
        None \<Rightarrow> self
      | Some n \<Rightarrow> self\<lparr>next_scheduler_switch := Some (n - 1)\<rparr>)"

text \<open>
  More schedulers that raise: a subclass whose \<^verbatim>\<open>get_param\<close> raises from the second cycle
  on, over a cycle of size 2 with multiplier 1; a cycle of size 0; and a
  \<^verbatim>\<open>ConcatScheduler\<close> without entries.
\<close>

definition failing_waveform :: "cyclical_scheduler \<Rightarrow> error + real" where
  \<comment> \<open>the \<^verbatim>\<open>get_param\<close> of a subclass: linear in the first cycle, raising afterwards\<close>
  "failing_waveform self =
     (if cycle self = 0 then LinearScheduler_get_param self else Inl NotImplementedError)"

definition two_cycle :: cyclical_scheduler where
  "two_cycle = CyclicalScheduler_init 0 ''lr'' 0.1 0.01 2 1 False"

definition failing_after :: "nat \<Rightarrow> cyclical_scheduler" where
  "failing_after n =
     fst (outcome_state (invoke (CyclicalScheduler_call failing_waveform) n two_cycle
       example_world))"

definition zero_size_cycle :: cyclical_scheduler where
  "zero_size_cycle = CyclicalScheduler_init 0 ''lr'' 0.1 0.01 0 1 False"

definition empty_concat :: "obj concat_scheduler" where
  "empty_concat = ConcatScheduler_init 0 ''lr'' [] False"

text \<open>
  Every parameter group of an optimizer holds the value \<open>v\<close> under a name; and a second
  world, with other groups, other values and a history, to run the same schedule in.
\<close>

definition holds_value :: "ref \<Rightarrow> string \<Rightarrow> real \<Rightarrow> world \<Rightarrow> bool" where
  "holds_value opt name v w \<longleftrightarrow> (\<forall>pg\<in>set (param_groups w opt). pg name = Some v)"

definition other_world :: world where
  "other_world =
     \<lparr>param_groups = (\<lambda>r. [ [''lr'' \<mapsto> 5, ''momentum'' \<mapsto> 0.9], Map.empty]),
      param_history = Some [''lr'' \<mapsto> [ [1] ] ]\<rparr>"

section \<open>Properties\<close>

subsection \<open>Evaluation of the examples\<close>

lemma example_cyclical_fields:
  "optimizer example_cyclical = 0" "param_name example_cyclical = ''lr''"
  "save_history example_cyclical = False" "event_index example_cyclical = 0"
  "start_value example_cyclical = 0.1" "end_value example_cyclical = 0.01"
  "cycle_size example_cyclical = 10" "cycle_mult example_cyclical = 1"
  "cycle example_cyclical = 0"
  by (simp_all add: example_cyclical_def CyclicalScheduler_init_def ParamScheduler_init_def
      param_scheduler.extend_def cyclical_scheduler.fields_def)

lemmas example_run =
  example_lr_def example_linear_def example_cyclical_def example_world_def
  CyclicalScheduler_init_def ParamScheduler_init_def
  param_scheduler.extend_def cyclical_scheduler.fields_def
  CyclicalScheduler_call_def CyclicalScheduler_boundary_def ParamScheduler_call_def
  LinearScheduler_get_param_def py_mod_def py_truediv_def numeral_eq_Suc

subsection \<open>The waveforms\<close>

text \<open>
  C4. Whenever the progress \<open>p = event_index / cycle_size\<close> exists (the cycle size is not
  zero), the three \<^verbatim>\<open>get_param\<close> methods return exactly the values of the formulas of the
  specification at \<open>p\<close>: Linear \<open>end + (start - end) * |p - 0.5| * 2\<close>, CosineAnnealing
  \<open>start + (end - start)/2 * (1 - cos (pi * p))\<close>, Cosine
  \<open>start + (end - start)/2 * (1 - cos (2 * pi * p))\<close>.
\<close>

theorem waveform_formulas:
  assumes "cycle_size self \<noteq> 0"
  shows "LinearScheduler_get_param self
           = Inr (Linear_waveform (start_value self) (end_value self) (cycle_progress self))
       \<and> CosineAnnealingScheduler_get_param self
           = Inr (CosineAnnealing_waveform (start_value self) (end_value self)
                    (cycle_progress self))
       \<and> CosineScheduler_get_param self
           = Inr (Cosine_waveform (start_value self) (end_value self) (cycle_progress self))"
  using assms
  by (simp add: LinearScheduler_get_param_def CosineAnnealingScheduler_get_param_def
      CosineScheduler_get_param_def py_truediv_def Linear_waveform_def
      CosineAnnealing_waveform_def Cosine_waveform_def cycle_progress_def)

theorem waveform_formulas_witness:
  "cycle_size (example_cyclical\<lparr>event_index := 5\<rparr>) \<noteq> 0
   \<and> LinearScheduler_get_param (example_cyclical\<lparr>event_index := 5\<rparr>) = Inr 0.01
   \<and> CosineAnnealingScheduler_get_param (example_cyclical\<lparr>event_index := 5\<rparr>) = Inr 0.055
   \<and> CosineScheduler_get_param (example_cyclical\<lparr>event_index := 5\<rparr>) = Inr 0.01"
  using waveform_formulas [of "example_cyclical\<lparr>event_index := 5\<rparr>"]
  by (simp add: example_cyclical_fields Linear_waveform_def CosineAnnealing_waveform_def
      Cosine_waveform_def cycle_progress_def)

subsection \<open>The end-to-end example\<close>

text \<open>
  C1, as stated, fails: an invocation writes the value for the index it finds and then
  increments the index, so the fifth invocation writes the value for \<^verbatim>\<open>event_index\<close> 4,
  which is 0.028 and not 0.01; the tenth writes 0.082 and not 0.1, the fifteenth 0.028.
\<close>

theorem example_after_5_counterexample:
  "example_lr 5 = [Some 0.028] \<and> example_lr 5 \<noteq> [Some 0.01]
   \<and> example_lr 10 = [Some 0.082] \<and> example_lr 10 \<noteq> [Some 0.1]
   \<and> example_lr 15 = [Some 0.028] \<and> example_lr 15 \<noteq> [Some 0.01]"
  by (simp add: example_run)

text \<open>
  C1, amended: in the example the \<^verbatim>\<open>lr\<close> option of the group equals 0.01 after 6
  invocations, 0.1 after 11 invocations and 0.01 again after 16 invocations.
\<close>

theorem example_after_6_11_16:
  "example_lr 6 = [Some 0.01] \<and> example_lr 11 = [Some 0.1] \<and> example_lr 16 = [Some 0.01]"
  by (simp add: example_run)

subsection \<open>The base \<^verbatim>\<open>__call__\<close>\<close>

lemma lookup_all_written:
  "lookup_all name (map (\<lambda>pg. pg(name \<mapsto> v)) pgs) = Inr (replicate (length pgs) v)"
  by (induction pgs) simp_all

lemma history_append_setdefault:
  "history_append name vs (history_setdefault name (param_history w))
     = Inr ((history_setdefault name (param_history w))(name \<mapsto> history_log w name @ [vs]))"
  by (auto simp: history_append_def history_setdefault_def history_log_def Let_def
      split: option.splits)

lemma history_setdefault_other:
  "k \<noteq> name \<Longrightarrow> history_setdefault name h k = (case h of None \<Rightarrow> None | Some d \<Rightarrow> d k)"
  by (auto simp: history_setdefault_def Let_def split: option.splits)

lemma ParamScheduler_call_Inl:
  "gp self = Inl e \<Longrightarrow> ParamScheduler_call gp self w = Raise e (self, w)"
  by (simp add: ParamScheduler_call_def)

lemma ParamScheduler_call_Inr:
  assumes "gp self = Inr v"
  shows "ParamScheduler_call gp self w =
     Done (self\<lparr>event_index := event_index self + 1\<rparr>,
       w\<lparr>param_groups := (param_groups w)(optimizer self :=
            map (\<lambda>pg. pg(param_name self \<mapsto> v)) (param_groups w (optimizer self))),
        param_history :=
          (if save_history self
           then Some ((history_setdefault (param_name self) (param_history w))
                  (param_name self \<mapsto>
                     history_log w (param_name self)
                       @ [replicate (length (param_groups w (optimizer self))) v]))
           else param_history w)\<rparr>)"
  using assms
  by (simp add: ParamScheduler_call_def Let_def lookup_all_written history_append_setdefault)

text \<open>
  C5. When \<^verbatim>\<open>get_param\<close> returns the value \<open>v\<close>, the base \<^verbatim>\<open>__call__\<close> returns, having
  increased \<^verbatim>\<open>event_index\<close> by exactly 1 and changed nothing else of the scheduler; every
  parameter group of the scheduler's optimizer has \<open>v\<close> under \<^verbatim>\<open>param_name\<close> and is
  otherwise as before, other optimizers are untouched, and with no parameter group nothing
  is written.  If \<^verbatim>\<open>save_history\<close> holds, exactly one snapshot is appended to the log
  under \<^verbatim>\<open>param_name\<close>, with one value per parameter group, all equal to \<open>v\<close>, and the
  logs under other names stay; otherwise \<^verbatim>\<open>param_history\<close> is unchanged.
\<close>

theorem ParamScheduler_call_effect:
  assumes "gp self = Inr v"
  shows "\<exists>w'. ParamScheduler_call gp self w
                 = Done (self\<lparr>event_index := event_index self + 1\<rparr>, w')
     \<and> param_groups w' (optimizer self)
         = map (\<lambda>pg. pg(param_name self \<mapsto> v)) (param_groups w (optimizer self))
     \<and> (\<forall>r. r \<noteq> optimizer self \<longrightarrow> param_groups w' r = param_groups w r)
     \<and> (param_groups w (optimizer self) = [] \<longrightarrow> param_groups w' = param_groups w)
     \<and> (save_history self \<longrightarrow>
          history_log w' (param_name self)
            = history_log w (param_name self)
              @ [replicate (length (param_groups w (optimizer self))) v]
          \<and> (\<forall>k. k \<noteq> param_name self \<longrightarrow> history_log w' k = history_log w k))
     \<and> (\<not> save_history self \<longrightarrow> param_history w' = param_history w)"
  unfolding ParamScheduler_call_Inr [of gp self v w, OF assms]
  by (auto simp: history_log_def history_setdefault_other split: option.splits)

theorem ParamScheduler_call_effect_witness:
  "LinearScheduler_get_param (example_cyclical\<lparr>save_history := True\<rparr>) = Inr 0.1
   \<and> save_history (example_cyclical\<lparr>save_history := True\<rparr>)
   \<and> (\<exists>w'. ParamScheduler_call LinearScheduler_get_param
               (example_cyclical\<lparr>save_history := True\<rparr>) example_world
             = Done (example_cyclical\<lparr>save_history := True, event_index := 1\<rparr>, w')
          \<and> param_groups w' 0 = [ [''lr'' \<mapsto> 0.1] ]
          \<and> param_groups w' 1 = param_groups example_world 1
          \<and> history_log w' ''lr'' = [ [0.1] ]
          \<and> history_log w' ''momentum'' = [])
   \<and> LinearScheduler_get_param (example_cyclical\<lparr>optimizer := 1\<rparr>) = Inr 0.1
   \<and> \<not> save_history (example_cyclical\<lparr>optimizer := 1\<rparr>)
   \<and> param_groups example_world (optimizer (example_cyclical\<lparr>optimizer := 1\<rparr>)) = []
   \<and> (\<exists>w'. ParamScheduler_call LinearScheduler_get_param
               (example_cyclical\<lparr>optimizer := 1\<rparr>) example_world
             = Done (example_cyclical\<lparr>optimizer := 1, event_index := 1\<rparr>, w')
          \<and> param_groups w' = param_groups example_world
          \<and> param_history w' = param_history example_world)"
proof -
  have a: "LinearScheduler_get_param (example_cyclical\<lparr>save_history := True\<rparr>) = Inr 0.1"
    and b: "LinearScheduler_get_param (example_cyclical\<lparr>optimizer := 1\<rparr>) = Inr 0.1"
    by (simp_all add: LinearScheduler_get_param_def py_truediv_def example_cyclical_fields)
  have g: "param_groups example_world 0 = [ [''lr'' \<mapsto> 0.1] ]" "param_groups example_world 1 = []"
    "param_groups example_world (Suc 0) = []"
    by (simp_all add: example_world_def)
  have h: "history_log example_world ''lr'' = []" "history_log example_world ''momentum'' = []"
    by (simp_all add: example_world_def history_log_def)
  have "\<exists>w'. ParamScheduler_call LinearScheduler_get_param
               (example_cyclical\<lparr>save_history := True\<rparr>) example_world
             = Done (example_cyclical\<lparr>save_history := True, event_index := 1\<rparr>, w')
          \<and> param_groups w' 0 = [ [''lr'' \<mapsto> 0.1] ]
          \<and> param_groups w' 1 = param_groups example_world 1
          \<and> history_log w' ''lr'' = [ [0.1] ]
          \<and> history_log w' ''momentum'' = []"
    using ParamScheduler_call_effect [of LinearScheduler_get_param
        "example_cyclical\<lparr>save_history := True\<rparr>" "0.1" example_world, OF a]
    by (auto simp: g h example_cyclical_fields)
  moreover have "\<exists>w'. ParamScheduler_call LinearScheduler_get_param
               (example_cyclical\<lparr>optimizer := 1\<rparr>) example_world
             = Done (example_cyclical\<lparr>optimizer := 1, event_index := 1\<rparr>, w')
          \<and> param_groups w' = param_groups example_world
          \<and> param_history w' = param_history example_world"
    using ParamScheduler_call_effect [of LinearScheduler_get_param
        "example_cyclical\<lparr>optimizer := 1\<rparr>" "0.1" example_world, OF b]
    by (auto simp: g example_cyclical_fields)
  ultimately show ?thesis
    using a b g(2) by (simp add: example_cyclical_fields)
qed

subsection \<open>The event index of a cyclical scheduler\<close>

lemma py_mod_of_int:
  "k \<noteq> 0 \<Longrightarrow> py_mod (of_int i) (of_int k) = Inr (of_int (i mod k))"
proof -
  assume k: "k \<noteq> 0"
  have "(of_int i :: real) - of_int k * of_int \<lfloor>(of_int i :: real) / of_int k\<rfloor>
        = of_int (i - k * (i div k))"
    by (simp add: floor_divide_of_int_eq)
  also have "i - k * (i div k) = i mod k"
    by (simp add: minus_mult_div_eq_mod)
  finally show ?thesis using k by (simp add: py_mod_def)
qed

lemma boundary_of_int:
  assumes "cycle_size self = of_int k" "k \<noteq> 0"
  shows "CyclicalScheduler_boundary self =
     Inr (if event_index self \<noteq> 0 \<and> event_index self mod k = 0
          then self\<lparr>event_index := 0, cycle_size := cycle_size self * cycle_mult self,
                    cycle := cycle self + 1\<rparr>
          else self)"
  using assms by (simp add: CyclicalScheduler_boundary_def py_mod_of_int)

lemma boundary_nonzero:
  assumes "cycle_size self \<noteq> 0"
  shows "\<exists>self'. CyclicalScheduler_boundary self = Inr self'
           \<and> (self' = self \<or> self' = self\<lparr>event_index := 0,
                  cycle_size := cycle_size self * cycle_mult self, cycle := cycle self + 1\<rparr>)"
  using assms by (simp add: CyclicalScheduler_boundary_def py_mod_def)

lemma get_param_returns:
  assumes "c \<noteq> CyclicalScheduler" "cycle_size self \<noteq> 0"
  shows "\<exists>v. get_param c self = Inr v"
  using assms
  by (cases c) (simp_all add: LinearScheduler_get_param_def
      CosineAnnealingScheduler_get_param_def CosineScheduler_get_param_def py_truediv_def)

lemma CyclicalScheduler_call_Done:
  assumes "CyclicalScheduler_boundary self = Inr self'" "gp self' = Inr v"
  shows "\<exists>w'. CyclicalScheduler_call gp self w
            = Done (self'\<lparr>event_index := event_index self' + 1\<rparr>, w')"
  using assms ParamScheduler_call_Inr [of gp self' v w]
  by (simp add: CyclicalScheduler_call_def)

lemma cyclical_step_int:
  assumes "cycle_size self = of_int k" "cycle_mult self = of_int m" "0 < k" "1 \<le> m"
    "0 \<le> event_index self" "event_index self \<le> k" "c \<noteq> CyclicalScheduler"
  shows "\<exists>self' w' k'. CyclicalScheduler_call (get_param c) self w = Done (self', w')
     \<and> cycle_size self' = of_int k' \<and> cycle_mult self' = of_int m \<and> 0 < k'
     \<and> 0 < event_index self' \<and> event_index self' \<le> k'"
proof (cases "event_index self \<noteq> 0 \<and> event_index self mod k = 0")
  case True
  let ?s = "self\<lparr>event_index := 0, cycle_size := cycle_size self * cycle_mult self,
                    cycle := cycle self + 1\<rparr>"
  have b: "CyclicalScheduler_boundary self = Inr ?s"
    using True assms(1,3) by (simp add: boundary_of_int)
  have km: "0 < k * m" using assms(3,4) by simp
  have sz: "cycle_size ?s = of_int (k * m)" using assms(1,2) by simp
  have "k * m \<noteq> 0" using km by linarith
  then have "real_of_int (k * m) \<noteq> 0" by (simp only: of_int_eq_0_iff not_False_eq_True)
  then have "cycle_size ?s \<noteq> 0" unfolding sz .
  then obtain v where "get_param c ?s = Inr v"
    using get_param_returns [OF assms(7)] by blast
  from CyclicalScheduler_call_Done [where gp = "get_param c" and w = w, OF b this]
  obtain w' where 1: "CyclicalScheduler_call (get_param c) self w
      = Done (?s\<lparr>event_index := event_index ?s + 1\<rparr>, w')" by blast
  have 2: "cycle_size (?s\<lparr>event_index := event_index ?s + 1\<rparr>) = of_int (k * m)"
    "cycle_mult (?s\<lparr>event_index := event_index ?s + 1\<rparr>) = of_int m"
    "0 < event_index (?s\<lparr>event_index := event_index ?s + 1\<rparr>)"
    "event_index (?s\<lparr>event_index := event_index ?s + 1\<rparr>) \<le> k * m"
    using assms(1,2) km by simp_all
  from 1 2 km show ?thesis by blast
next
  case False
  have b: "CyclicalScheduler_boundary self = Inr self"
    using False assms(1,3) by (auto simp: boundary_of_int)
  have "event_index self \<noteq> k" using False assms(3) by auto
  then have lt: "event_index self < k" using assms(6) by simp
  have "cycle_size self \<noteq> 0" using assms(1,3) by simp
  then obtain v where "get_param c self = Inr v"
    using get_param_returns [OF assms(7)] by blast
  from CyclicalScheduler_call_Done [where gp = "get_param c" and w = w, OF b this]
  obtain w' where 1: "CyclicalScheduler_call (get_param c) self w
      = Done (self\<lparr>event_index := event_index self + 1\<rparr>, w')" by blast
  have 2: "cycle_size (self\<lparr>event_index := event_index self + 1\<rparr>) = of_int k"
    "cycle_mult (self\<lparr>event_index := event_index self + 1\<rparr>) = of_int m"
    "0 < event_index (self\<lparr>event_index := event_index self + 1\<rparr>)"
    "event_index (self\<lparr>event_index := event_index self + 1\<rparr>) \<le> k"
    using assms(1,2,5) lt by simp_all
  from 1 2 assms(3) show ?thesis by blast
qed

lemma cyclical_invoke_int:
  assumes "c \<noteq> CyclicalScheduler" "1 \<le> m"
  shows "cycle_size self = of_int k \<Longrightarrow> cycle_mult self = of_int m \<Longrightarrow> 0 < k
     \<Longrightarrow> 0 \<le> event_index self \<Longrightarrow> event_index self \<le> k
     \<Longrightarrow> \<exists>self' w' k'. invoke (CyclicalScheduler_call (get_param c)) n self w = Done (self', w')
     \<and> cycle_size self' = of_int k' \<and> cycle_mult self' = of_int m \<and> 0 < k'
     \<and> 0 \<le> event_index self' \<and> (0 < n \<longrightarrow> 0 < event_index self') \<and> event_index self' \<le> k'"
proof (induction n arbitrary: self w k)
  case 0
  then show ?case by auto
next
  case (Suc n)
  from cyclical_step_int [OF Suc.prems(1,2,3) assms(2) Suc.prems(4,5) assms(1), of w]
  obtain s1 w1 k1 where s1: "CyclicalScheduler_call (get_param c) self w = Done (s1, w1)"
    "cycle_size s1 = of_int k1" "cycle_mult s1 = of_int m" "0 < k1"
    "0 < event_index s1" "event_index s1 \<le> k1" by blast
  from Suc.IH [OF s1(2,3,4) _ s1(6), of w1] s1(5)
  obtain s2 w2 k2 where s2: "invoke (CyclicalScheduler_call (get_param c)) n s1 w1 = Done (s2, w2)"
    "cycle_size s2 = of_int k2" "cycle_mult s2 = of_int m" "0 < k2"
    "0 \<le> event_index s2" "0 < n \<longrightarrow> 0 < event_index s2" "event_index s2 \<le> k2" by auto
  have "0 < event_index s2"
  proof (cases n)
    case 0
    then show ?thesis using s2(1) s1(5) by simp
  next
    case (Suc n')
    then show ?thesis using s2(6) by simp
  qed
  then show ?case using s1(1) s2 by auto
qed


lemma init_fields:
  "optimizer (CyclicalScheduler_init opt name sv ev csize cmult hist) = opt"
  "param_name (CyclicalScheduler_init opt name sv ev csize cmult hist) = name"
  "save_history (CyclicalScheduler_init opt name sv ev csize cmult hist) = hist"
  "event_index (CyclicalScheduler_init opt name sv ev csize cmult hist) = 0"
  "start_value (CyclicalScheduler_init opt name sv ev csize cmult hist) = sv"
  "end_value (CyclicalScheduler_init opt name sv ev csize cmult hist) = ev"
  "cycle_size (CyclicalScheduler_init opt name sv ev csize cmult hist) = csize"
  "cycle_mult (CyclicalScheduler_init opt name sv ev csize cmult hist) = cmult"
  "cycle (CyclicalScheduler_init opt name sv ev csize cmult hist) = 0"
  by (simp_all add: CyclicalScheduler_init_def ParamScheduler_init_def
      param_scheduler.extend_def cyclical_scheduler.fields_def)

lemma boundary_progress:
  assumes "cycle_size self = of_int k" "cycle_mult self = of_int m" "0 < k" "1 \<le> m"
    "0 \<le> event_index self" "event_index self \<le> k"
  shows "\<exists>self'. CyclicalScheduler_boundary self = Inr self'
          \<and> 0 \<le> event_index self' \<and> of_int (event_index self') < cycle_size self'"
proof (cases "event_index self \<noteq> 0 \<and> event_index self mod k = 0")
  case True
  have "0 < k * m" using assms(3,4) by simp
  then have "(0::real) < of_int (k * m)" by (simp only: of_int_0_less_iff)
  then show ?thesis using True assms(1,2,3) by (simp add: boundary_of_int)
next
  case False
  have "event_index self \<noteq> k" using False assms(3) by auto
  then have "event_index self < k" using assms(6) by simp
  then show ?thesis using False assms(1,3,5) by (auto simp: boundary_of_int)
qed

text \<open>
  C2, amended: for a waveform scheduler freshly constructed with an integer cycle size
  \<open>k > 0\<close> and an integer multiplier \<open>m \<ge> 1\<close>, every run of \<open>n\<close> invocations returns, and
  in the state after it \<open>0 \<le> event_index \<le> cycle_size\<close>, with \<open>0 < event_index\<close> once an
  invocation has completed.  The next invocation evaluates the waveform in the state left
  by the boundary check, where \<open>0 \<le> event_index < cycle_size\<close>, so the progress lies in
  \<open>[0, 1)\<close>.
\<close>

theorem cyclical_index_bounds:
  assumes "0 < k" "1 \<le> m" "c \<noteq> CyclicalScheduler"
  shows "\<exists>self w'.
       invoke (CyclicalScheduler_call (get_param c)) n
         (CyclicalScheduler_init opt name sv ev (of_int k) (of_int m) hist) w = Done (self, w')
     \<and> 0 \<le> event_index self \<and> (0 < n \<longrightarrow> 0 < event_index self)
     \<and> of_int (event_index self) \<le> cycle_size self
     \<and> (\<exists>self'. CyclicalScheduler_boundary self = Inr self'
          \<and> CyclicalScheduler_call (get_param c) self w'
              = ParamScheduler_call (get_param c) self' w'
          \<and> 0 \<le> event_index self' \<and> of_int (event_index self') < cycle_size self'
          \<and> 0 \<le> cycle_progress self' \<and> cycle_progress self' < 1)"
proof -
  let ?init = "CyclicalScheduler_init opt name sv ev (of_int k) (of_int m) hist"
  from cyclical_invoke_int [OF assms(3,2), of ?init k n w] assms(1)
  obtain self w' k' where r:
    "invoke (CyclicalScheduler_call (get_param c)) n ?init w = Done (self, w')"
    "cycle_size self = of_int k'" "cycle_mult self = of_int m" "0 < k'"
    "0 \<le> event_index self" "0 < n \<longrightarrow> 0 < event_index self" "event_index self \<le> k'"
    by (auto simp: init_fields)
  from boundary_progress [OF r(2,3,4) assms(2) r(5,7)]
  obtain self' where b: "CyclicalScheduler_boundary self = Inr self'"
    "0 \<le> event_index self'" "of_int (event_index self') < cycle_size self'" by blast
  have pos: "0 < cycle_size self'" using b(2,3) by (smt (verit) of_int_nonneg)
  have p: "0 \<le> cycle_progress self'" "cycle_progress self' < 1"
    using b(2,3) pos by (simp_all add: cycle_progress_def)
  have c: "CyclicalScheduler_call (get_param c) self w'
              = ParamScheduler_call (get_param c) self' w'"
    using b(1) by (simp add: CyclicalScheduler_call_def)
  have le: "real_of_int (event_index self) \<le> cycle_size self"
    using r(2,7) by simp
  from r(1,5,6) le b c p show ?thesis by blast
qed


lemmas cyclical_run =
  after_def unit_cycle_def fractional_cycle_def example_cyclical_def example_world_def
  CyclicalScheduler_init_def ParamScheduler_init_def
  param_scheduler.extend_def cyclical_scheduler.fields_def
  CyclicalScheduler_call_def CyclicalScheduler_boundary_def ParamScheduler_call_def
  LinearScheduler_get_param_def py_mod_def py_truediv_def numeral_eq_Suc

text \<open>
  C2, as stated, fails.  After the only invocation of a cycle of size 1 the index equals
  the cycle size: the index is reset by the next invocation, not by the one that completes
  the cycle.  And with the cycle size 2.5 the index passes the cycle size without being a
  multiple of it, so the fourth invocation evaluates the waveform at progress 1.2.
\<close>

theorem index_below_cycle_size_counterexample:
  "0 < cycle_size unit_cycle \<and> 1 \<le> cycle_mult unit_cycle
   \<and> raised (invoke (CyclicalScheduler_call LinearScheduler_get_param) 1 unit_cycle
        example_world) = None
   \<and> event_index (after 1 unit_cycle) = 1 \<and> cycle_size (after 1 unit_cycle) = 1
   \<and> \<not> real_of_int (event_index (after 1 unit_cycle)) < cycle_size (after 1 unit_cycle)
   \<and> 0 < cycle_size fractional_cycle \<and> 1 \<le> cycle_mult fractional_cycle
   \<and> CyclicalScheduler_boundary (after 3 fractional_cycle) = Inr (after 3 fractional_cycle)
   \<and> cycle_progress (after 3 fractional_cycle) = 1.2
   \<and> \<not> cycle_progress (after 3 fractional_cycle) < 1"
  by (simp add: cyclical_run cycle_progress_def)

theorem cyclical_index_bounds_witness:
  "(0::int) < 10 \<and> (1::int) \<le> 1 \<and> LinearScheduler \<noteq> CyclicalScheduler
   \<and> event_index (after 10 example_cyclical) = 10
   \<and> cycle_size (after 10 example_cyclical) = 10
   \<and> (\<exists>self'. CyclicalScheduler_boundary (after 10 example_cyclical) = Inr self'
          \<and> 0 \<le> event_index self' \<and> of_int (event_index self') < cycle_size self'
          \<and> 0 \<le> cycle_progress self' \<and> cycle_progress self' < 1)"
proof -
  have r: "\<exists>w'. invoke (CyclicalScheduler_call (get_param LinearScheduler)) 10
           (CyclicalScheduler_init 0 ''lr'' 0.1 0.01 (of_int 10) (of_int 1) False) example_world
         = Done (after 10 example_cyclical, w')
       \<and> event_index (after 10 example_cyclical) = 10
       \<and> cycle_size (after 10 example_cyclical) = 10"
    by (simp add: cyclical_run)
  show ?thesis
    using r cyclical_index_bounds [of 10 1 LinearScheduler 10 0 "''lr''" "0.1" "0.01" False
        example_world]
    by auto
qed

subsection \<open>Growth of the cycle size\<close>

lemma invoke_add:
  "invoke f (a + b) self w =
     (case invoke f a self w of
        Raise e x \<Rightarrow> Raise e x
      | Done (self', w') \<Rightarrow> invoke f b self' w')"
  by (induction a arbitrary: self w) (auto split: outcome.splits)

lemma cyclical_step_real:
  assumes "0 < cycle_size self" "1 \<le> cycle_mult self" "c \<noteq> CyclicalScheduler"
  shows "\<exists>self' w'. CyclicalScheduler_call (get_param c) self w = Done (self', w')
     \<and> cycle_mult self' = cycle_mult self
     \<and> (cycle self' = cycle self \<and> cycle_size self' = cycle_size self
        \<or> cycle self' = cycle self + 1 \<and> cycle_size self' = cycle_size self * cycle_mult self)"
proof -
  from boundary_nonzero [of self] assms(1)
  obtain s1 where b: "CyclicalScheduler_boundary self = Inr s1"
    "s1 = self \<or> s1 = self\<lparr>event_index := 0,
        cycle_size := cycle_size self * cycle_mult self, cycle := cycle self + 1\<rparr>"
    by auto
  have "0 < cycle_size self * cycle_mult self" using assms(1,2) by simp
  then have "cycle_size s1 \<noteq> 0" using b(2) assms(1) by auto
  then obtain v where "get_param c s1 = Inr v"
    using get_param_returns [OF assms(3)] by blast
  from CyclicalScheduler_call_Done [where gp = "get_param c" and w = w, OF b(1) this]
  obtain w' where "CyclicalScheduler_call (get_param c) self w
      = Done (s1\<lparr>event_index := event_index s1 + 1\<rparr>, w')" by blast
  then show ?thesis using b(2) by auto
qed

lemma cyclical_invoke_real:
  assumes "c \<noteq> CyclicalScheduler"
  shows "0 < cycle_size self \<Longrightarrow> 1 \<le> cycle_mult self
     \<Longrightarrow> \<exists>self' w'. invoke (CyclicalScheduler_call (get_param c)) n self w = Done (self', w')
        \<and> cycle_mult self' = cycle_mult self \<and> cycle self \<le> cycle self'
        \<and> cycle_size self' = cycle_size self * cycle_mult self ^ nat (cycle self' - cycle self)"
proof (induction n arbitrary: self w)
  case 0
  then show ?case by simp
next
  case (Suc n)
  from cyclical_step_real [OF Suc.prems assms, of w]
  obtain s1 w1 where s1: "CyclicalScheduler_call (get_param c) self w = Done (s1, w1)"
    "cycle_mult s1 = cycle_mult self"
    "cycle s1 = cycle self \<and> cycle_size s1 = cycle_size self
        \<or> cycle s1 = cycle self + 1 \<and> cycle_size s1 = cycle_size self * cycle_mult self"
    by blast
  have pos: "0 < cycle_size s1" using s1(3) Suc.prems by auto
  from Suc.IH [OF pos, of w1] s1(2) Suc.prems(2)
  obtain s2 w2 where s2: "invoke (CyclicalScheduler_call (get_param c)) n s1 w1 = Done (s2, w2)"
    "cycle_mult s2 = cycle_mult self" "cycle s1 \<le> cycle s2"
    "cycle_size s2 = cycle_size s1 * cycle_mult self ^ nat (cycle s2 - cycle s1)"
    by auto
  have "cycle_size s2 = cycle_size self * cycle_mult self ^ nat (cycle s2 - cycle self)"
  proof (cases "cycle s1 = cycle self")
    case True
    then show ?thesis using s1(3) s2(4) by simp
  next
    case False
    then have e: "cycle s1 = cycle self + 1" "cycle_size s1 = cycle_size self * cycle_mult self"
      using s1(3) by auto
    have "nat (cycle s2 - cycle self) = Suc (nat (cycle s2 - cycle s1))"
      using e(1) s2(3) by simp
    then show ?thesis using s2(4) e(2) by simp
  qed
  moreover have "cycle self \<le> cycle s2" using s1(3) s2(3) by auto
  ultimately show ?case using s1(1) s2(1,2) by simp
qed

lemma within_cycle:
  assumes "c \<noteq> CyclicalScheduler" "cycle_size self = of_int k"
  shows "0 < event_index self \<Longrightarrow> event_index self + int d \<le> k
     \<Longrightarrow> \<exists>w'. invoke (CyclicalScheduler_call (get_param c)) d self w
            = Done (self\<lparr>event_index := event_index self + int d\<rparr>, w')"
  using assms(2)
proof (induction d arbitrary: self w)
  case 0
  then show ?case by simp
next
  case (Suc d)
  have k: "0 < k" "event_index self < k" using Suc.prems(1,2) by simp_all
  then have "event_index self mod k \<noteq> 0" using Suc.prems(1) by simp
  then have b: "CyclicalScheduler_boundary self = Inr self"
    using Suc.prems(3) k(1) by (simp add: boundary_of_int)
  have "cycle_size self \<noteq> 0" using Suc.prems(3) k(1) by simp
  then obtain v where "get_param c self = Inr v"
    using get_param_returns [OF assms(1)] by blast
  from CyclicalScheduler_call_Done [where gp = "get_param c" and w = w, OF b this]
  obtain w1 where 1: "CyclicalScheduler_call (get_param c) self w
      = Done (self\<lparr>event_index := event_index self + 1\<rparr>, w1)" by blast
  from Suc.IH [of "self\<lparr>event_index := event_index self + 1\<rparr>" w1] Suc.prems
  obtain w2 where "invoke (CyclicalScheduler_call (get_param c)) d
      (self\<lparr>event_index := event_index self + 1\<rparr>) w1
      = Done (self\<lparr>event_index := event_index self + 1 + int d\<rparr>, w2)" by auto
  then show ?case using 1 by (simp add: add.assoc)
qed

lemma cycle_turn:
  assumes "c \<noteq> CyclicalScheduler" "cycle_size self = of_int k" "cycle_mult self = of_int m"
    "0 < k" "1 \<le> m" "event_index self = k"
  shows "\<exists>w'. CyclicalScheduler_call (get_param c) self w
            = Done (self\<lparr>event_index := 1, cycle_size := of_int (k * m),
                          cycle := cycle self + 1\<rparr>, w')"
proof -
  let ?s = "self\<lparr>event_index := 0, cycle_size := cycle_size self * cycle_mult self,
                    cycle := cycle self + 1\<rparr>"
  have b: "CyclicalScheduler_boundary self = Inr ?s"
    using assms(2,4,6) by (simp add: boundary_of_int)
  have "k * m \<noteq> 0" using assms(4,5) by simp
  then have "real_of_int (k * m) \<noteq> 0" by (simp only: of_int_eq_0_iff not_False_eq_True)
  then have "cycle_size ?s \<noteq> 0" using assms(2,3) by simp
  then obtain v where "get_param c ?s = Inr v"
    using get_param_returns [OF assms(1)] by blast
  from CyclicalScheduler_call_Done [where gp = "get_param c" and w = w, OF b this]
  obtain w' where 1: "CyclicalScheduler_call (get_param c) self w
      = Done (?s\<lparr>event_index := event_index ?s + 1\<rparr>, w')" by blast
  have e: "?s\<lparr>event_index := event_index ?s + 1\<rparr>
      = self\<lparr>event_index := 1, cycle_size := of_int (k * m), cycle := cycle self + 1\<rparr>"
    using assms(2,3) by simp
  show ?thesis using 1 unfolding e by blast
qed

lemma full_cycle:
  assumes "c \<noteq> CyclicalScheduler" "cycle_size self = of_int k" "cycle_mult self = of_int m"
    "0 < k" "1 \<le> m" "event_index self = 1"
  shows "\<exists>w'. invoke (CyclicalScheduler_call (get_param c)) (nat k) self w
            = Done (self\<lparr>cycle_size := of_int (k * m), cycle := cycle self + 1\<rparr>, w')"
proof -
  let ?f = "CyclicalScheduler_call (get_param c)"
  from within_cycle [OF assms(1,2), of "nat k - 1" w] assms(4,6)
  obtain w1 where 1: "invoke ?f (nat k - 1) self w = Done (self\<lparr>event_index := k\<rparr>, w1)"
    by (auto simp: nat_diff_distrib')
  from cycle_turn [OF assms(1), of "self\<lparr>event_index := k\<rparr>" k m w1] assms(2-5)
  obtain w2 where 2: "?f (self\<lparr>event_index := k\<rparr>) w1
      = Done (self\<lparr>event_index := 1, cycle_size := of_int (k * m), cycle := cycle self + 1\<rparr>, w2)"
    by auto
  have e: "self\<lparr>event_index := 1, cycle_size := of_int (k * m), cycle := cycle self + 1\<rparr>
      = self\<lparr>cycle_size := of_int (k * m), cycle := cycle self + 1\<rparr>"
    using assms(6) by simp
  have "nat k = (nat k - 1) + 1" using assms(4) by simp
  then have "invoke ?f (nat k) self w
      = (case invoke ?f (nat k - 1) self w of Raise e x \<Rightarrow> Raise e x
         | Done (self', w') \<Rightarrow> invoke ?f 1 self' w')"
    using invoke_add [of ?f "nat k - 1" 1 self w] by simp
  then show ?thesis using 1 2 e by simp
qed

lemma completed_cycles:
  assumes "c \<noteq> CyclicalScheduler" "0 < K" "1 \<le> M"
  shows "cycle_size self = real K \<Longrightarrow> cycle_mult self = real M \<Longrightarrow> event_index self = 1
     \<Longrightarrow> \<exists>w'. invoke (CyclicalScheduler_call (get_param c)) (\<Sum>j<n. K * M ^ j) self w
            = Done (self\<lparr>cycle_size := real K * real M ^ n, cycle := cycle self + int n\<rparr>, w')"
proof (induction n arbitrary: w)
  case 0
  then show ?case by simp
next
  case (Suc n)
  let ?f = "CyclicalScheduler_call (get_param c)"
  let ?s = "self\<lparr>cycle_size := real K * real M ^ n, cycle := cycle self + int n\<rparr>"
  from Suc.IH [OF Suc.prems, of w]
  obtain w1 where 1: "invoke ?f (\<Sum>j<n. K * M ^ j) self w = Done (?s, w1)" by blast
  have sz: "cycle_size ?s = of_int (int (K * M ^ n))" by simp
  have m: "cycle_mult ?s = of_int (int M)" using Suc.prems(2) by simp
  have pos: "0 < int (K * M ^ n)" "1 \<le> int M" using assms(2,3) by simp_all
  have ix: "event_index ?s = 1" using Suc.prems(3) by simp
  from full_cycle [OF assms(1) sz m pos ix, of w1]
  obtain w2 where 2: "invoke ?f (K * M ^ n) ?s w1
      = Done (?s\<lparr>cycle_size := of_int (int (K * M ^ n) * int M), cycle := cycle ?s + 1\<rparr>, w2)"
    unfolding nat_int by blast
  have e: "?s\<lparr>cycle_size := of_int (int (K * M ^ n) * int M), cycle := cycle ?s + 1\<rparr>
      = self\<lparr>cycle_size := real K * real M ^ Suc n, cycle := cycle self + int (Suc n)\<rparr>"
    by (simp add: mult.assoc mult.commute)
  show ?case
    using invoke_add [of ?f "\<Sum>j<n. K * M ^ j" "K * M ^ n" self w] 1 2 e by simp
qed

lemma first_invocation:
  assumes "c \<noteq> CyclicalScheduler" "csize \<noteq> 0"
  shows "\<exists>w'. CyclicalScheduler_call (get_param c)
           (CyclicalScheduler_init opt name sv ev csize cmult hist) w
         = Done ((CyclicalScheduler_init opt name sv ev csize cmult hist)\<lparr>event_index := 1\<rparr>, w')"
proof -
  let ?init = "CyclicalScheduler_init opt name sv ev csize cmult hist"
  have b: "CyclicalScheduler_boundary ?init = Inr ?init"
    by (simp add: CyclicalScheduler_boundary_def init_fields)
  obtain v where "get_param c ?init = Inr v"
    using get_param_returns [OF assms(1), of ?init] assms(2) by (auto simp: init_fields)
  from CyclicalScheduler_call_Done [where gp = "get_param c" and w = w, OF b this]
  show ?thesis by (simp add: init_fields)
qed

lemma doubling_reaches_cycle:
  assumes "c \<noteq> CyclicalScheduler" "0 < K"
  shows "\<exists>self w'. invoke (CyclicalScheduler_call (get_param c)) (1 + K * (2 ^ n - 1))
           (CyclicalScheduler_init opt name sv ev (real K) 2 hist) w = Done (self, w')
         \<and> cycle self = int n \<and> cycle_size self = real K * 2 ^ n"
proof -
  let ?init = "CyclicalScheduler_init opt name sv ev (real K) 2 hist"
  let ?f = "CyclicalScheduler_call (get_param c)"
  from first_invocation [OF assms(1), of "real K" opt name sv ev 2 hist w] assms(2)
  obtain w1 where 1: "?f ?init w = Done (?init\<lparr>event_index := 1\<rparr>, w1)" by auto
  have s: "(\<Sum>j<n. K * 2 ^ j) = K * (2 ^ n - 1)"
    by (induction n) (simp_all add: algebra_simps)
  from completed_cycles [OF assms(1,2), of 2 "?init\<lparr>event_index := 1\<rparr>" n w1]
  obtain w2 where 2: "invoke ?f (K * (2 ^ n - 1)) (?init\<lparr>event_index := 1\<rparr>) w1
      = Done (?init\<lparr>event_index := 1, cycle_size := real K * 2 ^ n, cycle := int n\<rparr>, w2)"
    by (auto simp: s init_fields)
  have "invoke ?f (1 + K * (2 ^ n - 1)) ?init w
      = Done (?init\<lparr>event_index := 1, cycle_size := real K * 2 ^ n, cycle := int n\<rparr>, w2)"
    using invoke_add [of ?f 1 "K * (2 ^ n - 1)" ?init w] 1 2 by simp
  then show ?thesis by simp
qed


text \<open>
  C6. For a waveform scheduler freshly constructed with a cycle size \<open>s > 0\<close> and a
  multiplier of at least 1, every run of invocations returns, and in the state after it
  \<^verbatim>\<open>cycle_size\<close> is \<open>s * cycle_mult ^ cycle\<close>, where \<^verbatim>\<open>cycle\<close> counts the completed cycles;
  with the multiplier 2 this is \<open>s * 2 ^ cycle\<close>.  The cycle size at an earlier point of the
  run is never larger than at a later one.  With the multiplier 2 and a whole number
  \<open>s = K\<close>, the \<open>j\<close>-th cycle is completed by invocation \<open>1 + K * (2 ^ j - 1)\<close>, after
  which the cycle size is \<open>s * 2 ^ j\<close>: every number of completed cycles is reached.
\<close>

theorem cycle_size_growth:
  assumes "0 < csize" "1 \<le> cmult" "c \<noteq> CyclicalScheduler"
  shows "\<exists>self w'.
       invoke (CyclicalScheduler_call (get_param c)) n
         (CyclicalScheduler_init opt name sv ev csize cmult hist) w = Done (self, w')
     \<and> 0 \<le> cycle self
     \<and> cycle_size self = csize * cmult ^ nat (cycle self)
     \<and> (cmult = 2 \<longrightarrow> cycle_size self = csize * 2 ^ nat (cycle self))
     \<and> (\<forall>j\<le>n. \<exists>earlier w''.
           invoke (CyclicalScheduler_call (get_param c)) j
             (CyclicalScheduler_init opt name sv ev csize cmult hist) w = Done (earlier, w'')
           \<and> cycle earlier \<le> cycle self \<and> cycle_size earlier \<le> cycle_size self)
     \<and> (\<forall>K j. cmult = 2 \<and> csize = real K \<longrightarrow>
           (\<exists>later w''.
              invoke (CyclicalScheduler_call (get_param c)) (1 + K * (2 ^ j - 1))
                (CyclicalScheduler_init opt name sv ev csize cmult hist) w = Done (later, w'')
              \<and> cycle later = int j \<and> cycle_size later = csize * 2 ^ j))"
proof -
  let ?init = "CyclicalScheduler_init opt name sv ev csize cmult hist"
  let ?f = "CyclicalScheduler_call (get_param c)"
  have run: "\<exists>self' w'. invoke ?f j ?init w = Done (self', w')
        \<and> cycle_mult self' = cmult \<and> 0 \<le> cycle self'
        \<and> cycle_size self' = csize * cmult ^ nat (cycle self')" for j
    using cyclical_invoke_real [OF assms(3), of ?init j w] assms(1,2)
    by (simp add: init_fields)
  from run [of n] obtain self w' where r: "invoke ?f n ?init w = Done (self, w')"
    "0 \<le> cycle self" "cycle_size self = csize * cmult ^ nat (cycle self)" by blast
  have "\<exists>earlier w''. invoke ?f j ?init w = Done (earlier, w'')
           \<and> cycle earlier \<le> cycle self \<and> cycle_size earlier \<le> cycle_size self"
    if "j \<le> n" for j
  proof -
    from run [of j] obtain s1 w1 where s1: "invoke ?f j ?init w = Done (s1, w1)"
      "cycle_mult s1 = cmult" "cycle_size s1 = csize * cmult ^ nat (cycle s1)" by blast
    have pos: "0 < cycle_size s1" using s1(3) assms(1,2) by simp
    from cyclical_invoke_real [OF assms(3) pos, of "n - j" w1] s1(2) assms(2)
    obtain s2 w2 where s2: "invoke ?f (n - j) s1 w1 = Done (s2, w2)"
      "cycle s1 \<le> cycle s2"
      "cycle_size s2 = cycle_size s1 * cmult ^ nat (cycle s2 - cycle s1)" by auto
    have "invoke ?f n ?init w = Done (s2, w2)"
      using invoke_add [of ?f j "n - j" ?init w] that s1(1) s2(1) by simp
    then have eq: "s2 = self" using r(1) by simp
    have "1 \<le> cmult ^ nat (cycle s2 - cycle s1)" using assms(2) by simp
    then have "cycle_size s1 * 1 \<le> cycle_size s1 * cmult ^ nat (cycle s2 - cycle s1)"
      using pos by (intro mult_left_mono) simp_all
    then show ?thesis using s1(1) s2(2,3) eq by auto
  qed
  moreover have "\<exists>later w''. invoke ?f (1 + K * (2 ^ j - 1)) ?init w = Done (later, w'')
              \<and> cycle later = int j \<and> cycle_size later = csize * 2 ^ j"
    if "cmult = 2 \<and> csize = real K" for K j
  proof -
    have "0 < K" using that assms(1) by simp
    from doubling_reaches_cycle [OF assms(3) this, of j opt name sv ev hist w] that
    show ?thesis by simp
  qed
  ultimately show ?thesis using r by auto
qed



theorem cycle_size_growth_witness:
  "(0::real) < 2 \<and> (1::real) \<le> 2 \<and> LinearScheduler \<noteq> CyclicalScheduler
   \<and> cycle (after 2 doubling_cycle) = 0 \<and> cycle_size (after 2 doubling_cycle) = 2
   \<and> cycle (after 3 doubling_cycle) = 1 \<and> cycle_size (after 3 doubling_cycle) = 4
   \<and> cycle (after 7 doubling_cycle) = 2 \<and> cycle_size (after 7 doubling_cycle) = 8
   \<and> cycle (after 15 doubling_cycle) = 3 \<and> cycle_size (after 15 doubling_cycle) = 16
   \<and> cycle_size (after 15 doubling_cycle) = 2 * 2 ^ nat (cycle (after 15 doubling_cycle))
   \<and> cycle_size (after 7 doubling_cycle) \<le> cycle_size (after 15 doubling_cycle)"
proof -
  have ev: "cycle (after 2 doubling_cycle) = 0 \<and> cycle_size (after 2 doubling_cycle) = 2
   \<and> cycle (after 3 doubling_cycle) = 1 \<and> cycle_size (after 3 doubling_cycle) = 4
   \<and> cycle (after 7 doubling_cycle) = 2 \<and> cycle_size (after 7 doubling_cycle) = 8
   \<and> cycle (after 15 doubling_cycle) = 3 \<and> cycle_size (after 15 doubling_cycle) = 16"
    by (simp add: cyclical_run doubling_cycle_def)
  let ?f = "CyclicalScheduler_call (get_param LinearScheduler)"
  let ?init = "CyclicalScheduler_init 0 ''lr'' 0.1 0.01 2 2 False"
  from cycle_size_growth [of 2 2 LinearScheduler 15 0 "''lr''" "0.1" "0.01" False
        example_world]
  obtain self w' where r: "invoke ?f 15 ?init example_world = Done (self, w')"
    "cycle_size self = 2 * 2 ^ nat (cycle self)"
    "\<forall>j\<le>15. \<exists>earlier w''. invoke ?f j ?init example_world = Done (earlier, w'')
        \<and> cycle earlier \<le> cycle self \<and> cycle_size earlier \<le> cycle_size self"
    by auto
  have "(7::nat) \<le> 15" by simp
  from r(3) [rule_format, OF this]
  obtain earlier w'' where e: "invoke ?f 7 ?init example_world = Done (earlier, w'')"
    "cycle_size earlier \<le> cycle_size self" by blast
  have a: "after 15 doubling_cycle = self" "after 7 doubling_cycle = earlier"
    using r(1) e(1) by (simp_all add: after_def doubling_cycle_def)
  have th: "cycle_size (after 15 doubling_cycle) = 2 * 2 ^ nat (cycle (after 15 doubling_cycle))
      \<and> cycle_size (after 7 doubling_cycle) \<le> cycle_size (after 15 doubling_cycle)"
    unfolding a using r(2) e(2) by simp
  show ?thesis using ev th by simp
qed

subsection \<open>Cosine annealing\<close>









subsection \<open>Concatenation of two schedulers\<close>

lemma map_of_shared_kwds:
  "map_of (shared_kwds self kw)
     = (map_of kw)(''optimizer'' \<mapsto> PyObj (optimizer self),
                  ''param_name'' \<mapsto> PyStr (param_name self),
                  ''save_history'' \<mapsto> PyBool (save_history self))"
  by (simp add: shared_kwds_def update_conv')

lemma shared_kwds_cong:
  "optimizer s = optimizer t \<Longrightarrow> param_name s = param_name t
     \<Longrightarrow> save_history s = save_history t \<Longrightarrow> shared_kwds s kw = shared_kwds t kw"
  by (simp add: shared_kwds_def)

lemma py_index_nth:
  "i < length xs \<Longrightarrow> py_index xs (int i) = Inr (xs ! i)"
  by (simp add: py_index_def)

lemma invoke_Done_prefix:
  assumes "invoke f (a + b) self w = Done x"
  shows "\<exists>self' w'. invoke f a self w = Done (self', w') \<and> invoke f b self' w' = Done x"
  using assms by (auto simp: invoke_add split: outcome.splits)

lemma delegate_Done:
  "scheduler self = Some sub \<Longrightarrow> sub_call sub w = Done (sub', w')
     \<Longrightarrow> ConcatScheduler_delegate sub_call self w = Done (self\<lparr>scheduler := Some sub'\<rparr>, w')"
  by (simp add: ConcatScheduler_delegate_def)

lemma delegate_Raise:
  "scheduler self = Some sub \<Longrightarrow> sub_call sub w = Raise e (sub', w')
     \<Longrightarrow> ConcatScheduler_delegate sub_call self w
           = Raise e (self\<lparr>scheduler := Some sub'\<rparr>, w')"
  by (simp add: ConcatScheduler_delegate_def)

lemma concat_call_stay:
  "next_scheduler_switch self = Some n \<Longrightarrow> 0 < n
     \<Longrightarrow> ConcatScheduler_call sub_call self w
           = ConcatScheduler_delegate sub_call (self\<lparr>next_scheduler_switch := Some (n - 1)\<rparr>) w"
  by (simp add: ConcatScheduler_call_def Let_def)

lemma next_scheduler_Done:
  assumes "py_index (schedulers_list self) (schedulers_index self) = Inr (F, kw, d)"
    "F (shared_kwds self kw) = Inr s0"
  shows "ConcatScheduler_next_scheduler self
     = Done (self\<lparr>next_scheduler_switch := d, scheduler := Some s0,
                   schedulers_index := (schedulers_index self + 1)
                      mod int (length (schedulers_list self))\<rparr>)"
proof -
  have "schedulers_list self \<noteq> []"
    using assms(1) by (auto simp: py_index_def Let_def split: if_splits)
  moreover have "shared_kwds (self\<lparr>next_scheduler_switch := d\<rparr>) kw = shared_kwds self kw"
    by (simp add: shared_kwds_def)
  ultimately show ?thesis
    using assms by (simp add: ConcatScheduler_next_scheduler_def Let_def)
qed

lemma next_scheduler_Raise:
  assumes "py_index (schedulers_list self) (schedulers_index self) = Inr (F, kw, d)"
    "F (shared_kwds self kw) = Inl e"
  shows "ConcatScheduler_next_scheduler self = Raise e (self\<lparr>next_scheduler_switch := d\<rparr>)"
proof -
  have "shared_kwds (self\<lparr>next_scheduler_switch := d\<rparr>) kw = shared_kwds self kw"
    by (simp add: shared_kwds_def)
  then show ?thesis
    using assms by (simp add: ConcatScheduler_next_scheduler_def Let_def)
qed

lemma concat_call_switch:
  assumes "next_scheduler_switch self = Some n" "n \<le> 0"
    "py_index (schedulers_list self) (schedulers_index self) = Inr (F, kw, d)"
    "F (shared_kwds self kw) = Inr s0"
  shows "ConcatScheduler_call sub_call self w
     = ConcatScheduler_delegate sub_call
         (self\<lparr>next_scheduler_switch := d, scheduler := Some s0,
               schedulers_index := (schedulers_index self + 1)
                  mod int (length (schedulers_list self))\<rparr>) w"
proof -
  let ?s1 = "self\<lparr>next_scheduler_switch := Some (n - 1)\<rparr>"
  have k: "shared_kwds ?s1 kw = shared_kwds self kw" by (simp add: shared_kwds_def)
  have "ConcatScheduler_next_scheduler ?s1
     = Done (?s1\<lparr>next_scheduler_switch := d, scheduler := Some s0,
                   schedulers_index := (schedulers_index ?s1 + 1)
                      mod int (length (schedulers_list ?s1))\<rparr>)"
    by (rule next_scheduler_Done [of ?s1 F kw d s0]) (simp_all add: assms(3,4) k)
  then show ?thesis using assms(1,2) by (simp add: ConcatScheduler_call_def Let_def)
qed

lemma concat_run_stay:
  "scheduler self = Some a \<Longrightarrow> next_scheduler_switch self = Some n \<Longrightarrow> int k \<le> n
     \<Longrightarrow> invoke sub_call k a w = Done (a', w')
     \<Longrightarrow> invoke (ConcatScheduler_call sub_call) k self w
           = Done (self\<lparr>next_scheduler_switch := Some (n - int k), scheduler := Some a'\<rparr>, w')"
proof (induction k arbitrary: self a w n)
  case 0
  then show ?case by simp
next
  case (Suc k)
  from Suc.prems(4) obtain a1 w1 where 1: "sub_call a w = Done (a1, w1)"
    "invoke sub_call k a1 w1 = Done (a', w')"
    by (auto split: outcome.splits)
  let ?s1 = "self\<lparr>next_scheduler_switch := Some (n - 1), scheduler := Some a1\<rparr>"
  have c: "ConcatScheduler_call sub_call self w = Done (?s1, w1)"
    using Suc.prems(1,2,3) 1(1) by (simp add: concat_call_stay delegate_Done)
  have "invoke (ConcatScheduler_call sub_call) k ?s1 w1
      = Done (?s1\<lparr>next_scheduler_switch := Some (n - 1 - int k), scheduler := Some a'\<rparr>, w')"
    using Suc.prems(3) by (intro Suc.IH [OF _ _ _ 1(2)]) simp_all
  then show ?case using c by (simp add: algebra_simps)
qed


lemma concat_phase:
  assumes "next_scheduler_switch self = Some n" "n \<le> 0"
    "py_index (schedulers_list self) (schedulers_index self) = Inr (F, kw, Some (int d))"
    "F (shared_kwds self kw) = Inr s0" "k \<le> d"
    "invoke sub_call (Suc k) s0 w = Done (s', w')"
  shows "invoke (ConcatScheduler_call sub_call) (Suc k) self w
     = Done (self\<lparr>next_scheduler_switch := Some (int d - int k), scheduler := Some s',
                   schedulers_index := (schedulers_index self + 1)
                      mod int (length (schedulers_list self))\<rparr>, w')"
proof -
  from assms(6) obtain s1 w1 where 1: "sub_call s0 w = Done (s1, w1)"
    "invoke sub_call k s1 w1 = Done (s', w')"
    by (auto split: outcome.splits)
  let ?s2 = "self\<lparr>next_scheduler_switch := Some (int d), scheduler := Some s0,
               schedulers_index := (schedulers_index self + 1)
                  mod int (length (schedulers_list self))\<rparr>"
  have "ConcatScheduler_call sub_call self w = ConcatScheduler_delegate sub_call ?s2 w"
    by (rule concat_call_switch [OF assms(1-4)])
  also have "\<dots> = Done (?s2\<lparr>scheduler := Some s1\<rparr>, w1)"
    using 1(1) by (simp add: delegate_Done)
  finally have c: "ConcatScheduler_call sub_call self w = Done (?s2\<lparr>scheduler := Some s1\<rparr>, w1)" .
  have "invoke (ConcatScheduler_call sub_call) k (?s2\<lparr>scheduler := Some s1\<rparr>) w1
     = Done (?s2\<lparr>scheduler := Some s1\<rparr>
          \<lparr>next_scheduler_switch := Some (int d - int k), scheduler := Some s'\<rparr>, w')"
    using assms(5) by (intro concat_run_stay [OF _ _ _ 1(2)]) simp_all
  then show ?thesis using c by simp
qed

text \<open>
  C3. Take a \<^verbatim>\<open>ConcatScheduler\<close> over two entries \<open>A\<close> and \<open>B\<close> with durations \<open>d1\<close> and
  \<open>d2\<close>, in a state with sequence index 0 and countdown 0, as the constructor leaves it,
  and let \<open>a0\<close> and \<open>b0\<close> be the sub-schedulers the two factories build from the entries'
  keywords and the shared values.  Provided the sub-schedulers' own invocations return:
  invocations 0 to \<open>d1\<close> (the first \<open>k + 1\<close> invocations, \<open>k \<le> d1\<close>) leave the world as
  \<open>k + 1\<close> invocations of \<open>a0\<close> do, the first of them switching \<open>A\<close> in; invocations
  \<open>d1 + 1\<close> to \<open>d1 + d2 + 1\<close> continue from there as invocations of \<open>b0\<close> do; after
  \<open>d1 + d2 + 2\<close> invocations the index and the countdown are 0 again, so every further run
  is a run from such a state (the sequence loops); and invocations \<open>d1 + d2 + 2\<close> onwards
  are invocations of the newly built \<open>a0\<close>, not of the instance used before.
\<close>

theorem concat_two_entries:
  fixes self :: "'s concat_scheduler"
  assumes "schedulers_list self = [(A, kwA, Some (int d1)), (B, kwB, Some (int d2))]"
    and "schedulers_index self = 0" and "next_scheduler_switch self = Some 0"
    and "A (shared_kwds self kwA) = Inr a0" and "B (shared_kwds self kwB) = Inr b0"
    and "invoke sub_call (Suc d1) a0 w = Done (a1, w1)"
    and "invoke sub_call (Suc d2) b0 w1 = Done (b1, w2)"
  shows "(\<forall>k\<le>d1. \<exists>a' w'. invoke sub_call (Suc k) a0 w = Done (a', w')
            \<and> invoke (ConcatScheduler_call sub_call) (Suc k) self w
                = Done (self\<lparr>schedulers_index := 1,
                          next_scheduler_switch := Some (int d1 - int k),
                          scheduler := Some a'\<rparr>, w'))
     \<and> (\<forall>k\<le>d2. \<exists>b' w'. invoke sub_call (Suc k) b0 w1 = Done (b', w')
            \<and> invoke (ConcatScheduler_call sub_call) (Suc d1 + Suc k) self w
                = Done (self\<lparr>schedulers_index := 0,
                          next_scheduler_switch := Some (int d2 - int k),
                          scheduler := Some b'\<rparr>, w'))
     \<and> (\<forall>n. invoke (ConcatScheduler_call sub_call) (Suc d1 + Suc d2 + n) self w
            = invoke (ConcatScheduler_call sub_call) n (self\<lparr>scheduler := Some b1\<rparr>) w2)
     \<and> (\<forall>k\<le>d1. \<forall>a' w'. invoke sub_call (Suc k) a0 w2 = Done (a', w') \<longrightarrow>
            invoke (ConcatScheduler_call sub_call) (Suc d1 + Suc d2 + Suc k) self w
              = Done (self\<lparr>schedulers_index := 1,
                        next_scheduler_switch := Some (int d1 - int k),
                        scheduler := Some a'\<rparr>, w'))"
proof -
  let ?C = "ConcatScheduler_call sub_call"
  have ixA: "py_index (schedulers_list s) (schedulers_index s) = Inr (A, kwA, Some (int d1))"
    if "schedulers_list s = schedulers_list self" "schedulers_index s = 0"
    for s :: "'s concat_scheduler"
    using that assms(1) by (simp add: py_index_def)
  have ixB: "py_index (schedulers_list s) (schedulers_index s) = Inr (B, kwB, Some (int d2))"
    if "schedulers_list s = schedulers_list self" "schedulers_index s = 1"
    for s :: "'s concat_scheduler"
    using that assms(1) by (simp add: py_index_def)
  have phaseA: "invoke ?C (Suc k) s v
      = Done (s\<lparr>next_scheduler_switch := Some (int d1 - int k), scheduler := Some a',
                schedulers_index := 1\<rparr>, v')"
    if "schedulers_list s = schedulers_list self" "schedulers_index s = 0"
      "next_scheduler_switch s = Some 0" "optimizer s = optimizer self"
      "param_name s = param_name self" "save_history s = save_history self"
      "k \<le> d1" "invoke sub_call (Suc k) a0 v = Done (a', v')"
    for s :: "'s concat_scheduler" and k v a' v'
  proof -
    have "A (shared_kwds s kwA) = Inr a0"
      using assms(4) shared_kwds_cong [OF that(4,5,6)] by simp
    from concat_phase [OF that(3) _ ixA [OF that(1,2)] this that(7,8)]
    show ?thesis using that(1,2) assms(1) by simp
  qed
  have phaseB: "invoke ?C (Suc k) s v
      = Done (s\<lparr>next_scheduler_switch := Some (int d2 - int k), scheduler := Some b',
                schedulers_index := 0\<rparr>, v')"
    if "schedulers_list s = schedulers_list self" "schedulers_index s = 1"
      "next_scheduler_switch s = Some 0" "optimizer s = optimizer self"
      "param_name s = param_name self" "save_history s = save_history self"
      "k \<le> d2" "invoke sub_call (Suc k) b0 v = Done (b', v')"
    for s :: "'s concat_scheduler" and k v b' v'
  proof -
    have "B (shared_kwds s kwB) = Inr b0"
      using assms(5) shared_kwds_cong [OF that(4,5,6)] by simp
    from concat_phase [OF that(3) _ ixB [OF that(1,2)] this that(7,8)]
    show ?thesis using that(1,2) assms(1) by simp
  qed
  have prefA: "\<exists>a' w'. invoke sub_call (Suc k) a0 w = Done (a', w')" if "k \<le> d1" for k
    using invoke_Done_prefix [of sub_call "Suc k" "d1 - k" a0 w "(a1, w1)"] assms(6) that
    by auto
  have prefB: "\<exists>b' w'. invoke sub_call (Suc k) b0 w1 = Done (b', w')" if "k \<le> d2" for k
    using invoke_Done_prefix [of sub_call "Suc k" "d2 - k" b0 w1 "(b1, w2)"] assms(7) that
    by auto
  let ?sA = "self\<lparr>next_scheduler_switch := Some 0, scheduler := Some a1,
                   schedulers_index := 1\<rparr>"
  have endA: "invoke ?C (Suc d1) self w = Done (?sA, w1)"
    using phaseA [of self d1 w a1 w1] assms(2,3,6) by simp
  have 1: "\<exists>a' w'. invoke sub_call (Suc k) a0 w = Done (a', w')
            \<and> invoke ?C (Suc k) self w
                = Done (self\<lparr>schedulers_index := 1,
                          next_scheduler_switch := Some (int d1 - int k),
                          scheduler := Some a'\<rparr>, w')" if "k \<le> d1" for k
  proof -
    from prefA [OF that] obtain a' w' where a: "invoke sub_call (Suc k) a0 w = Done (a', w')"
      by blast
    from phaseA [of self k w a' w'] assms(2,3) that a
    show ?thesis by simp
  qed
  have runB: "invoke ?C (Suc d1 + Suc k) self w
                = Done (self\<lparr>schedulers_index := 0,
                          next_scheduler_switch := Some (int d2 - int k),
                          scheduler := Some b'\<rparr>, w')"
    if "k \<le> d2" "invoke sub_call (Suc k) b0 w1 = Done (b', w')" for k b' w'
  proof -
    have "invoke ?C (Suc d1 + Suc k) self w = invoke ?C (Suc k) ?sA w1"
      using invoke_add [of ?C "Suc d1" "Suc k" self w] endA by simp
    also have "\<dots> = Done (?sA\<lparr>next_scheduler_switch := Some (int d2 - int k),
        scheduler := Some b', schedulers_index := 0\<rparr>, w')"
      using that by (intro phaseB) simp_all
    finally show ?thesis by simp
  qed
  have 2: "\<exists>b' w'. invoke sub_call (Suc k) b0 w1 = Done (b', w')
            \<and> invoke ?C (Suc d1 + Suc k) self w
                = Done (self\<lparr>schedulers_index := 0,
                          next_scheduler_switch := Some (int d2 - int k),
                          scheduler := Some b'\<rparr>, w')" if "k \<le> d2" for k
    using prefB [OF that] runB [OF that] by blast
  have "self\<lparr>schedulers_index := 0, next_scheduler_switch := Some (int d2 - int d2),
      scheduler := Some b1\<rparr> = self\<lparr>scheduler := Some b1\<rparr>"
    using assms(2,3) by simp
  then have endB: "invoke ?C (Suc d1 + Suc d2) self w = Done (self\<lparr>scheduler := Some b1\<rparr>, w2)"
    using runB [of d2 b1 w2] assms(7) by simp
  have 3: "invoke ?C (Suc d1 + Suc d2 + n) self w
      = invoke ?C n (self\<lparr>scheduler := Some b1\<rparr>) w2" for n
    using invoke_add [of ?C "Suc d1 + Suc d2" n self w] endB by simp
  have 4: "invoke ?C (Suc d1 + Suc d2 + Suc k) self w
              = Done (self\<lparr>schedulers_index := 1,
                        next_scheduler_switch := Some (int d1 - int k),
                        scheduler := Some a'\<rparr>, w')"
    if "k \<le> d1" "invoke sub_call (Suc k) a0 w2 = Done (a', w')" for k a' w'
  proof -
    have "invoke ?C (Suc k) (self\<lparr>scheduler := Some b1\<rparr>) w2
      = Done (self\<lparr>scheduler := Some b1\<rparr>\<lparr>next_scheduler_switch := Some (int d1 - int k),
          scheduler := Some a', schedulers_index := 1\<rparr>, w')"
      using that assms(2,3) by (intro phaseA) simp_all
    then show ?thesis unfolding 3 by simp
  qed
  from 1 2 3 4 show ?thesis by blast
qed

lemma example_concat_fields:
  "optimizer example_concat = 0" "param_name example_concat = ''lr''"
  "save_history example_concat = False" "event_index example_concat = 0"
  "schedulers_list example_concat =
     [(CyclicalScheduler_new LinearScheduler, example_kwds_A, Some 1),
      (CyclicalScheduler_new CosineAnnealingScheduler, example_kwds_B, Some 0)]"
  "schedulers_index example_concat = 0" "next_scheduler_switch example_concat = Some 0"
  "scheduler example_concat = None"
  by (simp_all add: example_concat_def ConcatScheduler_init_def ParamScheduler_init_def
      param_scheduler.extend_def concat_scheduler.fields_def)

lemmas construct_eval =
  CyclicalScheduler_new_def ParamScheduler_new_def unexpected_keyword_def arg_obj_def
  arg_str_def arg_num_def arg_num_default_def arg_bool_default_def and_then_def
  map_of_shared_kwds

lemma example_construct:
  "CyclicalScheduler_new LinearScheduler (shared_kwds example_concat example_kwds_A)
     = Inr example_linear"
  "CyclicalScheduler_new CosineAnnealingScheduler (shared_kwds example_concat example_kwds_B)
     = Inr example_annealing"
  by (simp_all add: construct_eval example_concat_fields example_kwds_A_def example_kwds_B_def
      example_linear_def example_annealing_def example_cyclical_def shared_kwds_def)


lemmas obj_run =
  example_linear_def example_annealing_def example_cyclical_def example_world_def
  CyclicalScheduler_init_def ParamScheduler_init_def
  param_scheduler.extend_def cyclical_scheduler.fields_def
  CyclicalScheduler_call_def CyclicalScheduler_boundary_def ParamScheduler_call_def
  LinearScheduler_get_param_def CosineAnnealingScheduler_get_param_def
  py_mod_def py_truediv_def numeral_eq_Suc

theorem concat_two_entries_witness:
  "schedulers_list example_concat =
     [(CyclicalScheduler_new LinearScheduler, example_kwds_A, Some (int 1)),
      (CyclicalScheduler_new CosineAnnealingScheduler, example_kwds_B, Some (int 0))]
   \<and> schedulers_index example_concat = 0
   \<and> next_scheduler_switch example_concat = Some 0
   \<and> CyclicalScheduler_new LinearScheduler (shared_kwds example_concat example_kwds_A)
       = Inr example_linear
   \<and> CyclicalScheduler_new CosineAnnealingScheduler (shared_kwds example_concat example_kwds_B)
       = Inr example_annealing
   \<and> concat_lr 1 = [Some 0.1] \<and> concat_lr 2 = [Some 0.082]
   \<and> concat_lr 3 = [Some 0.01] \<and> concat_lr 4 = [Some 0.1]
   \<and> fst (outcome_state (invoke (ConcatScheduler_call call) 4 example_concat example_world))
       = example_concat\<lparr>schedulers_index := 1, next_scheduler_switch := Some 1,
           scheduler := Some (CyclicalObj LinearScheduler (example_cyclical\<lparr>event_index := 1\<rparr>))\<rparr>"
proof -
  let ?A = "CyclicalScheduler_new LinearScheduler"
  let ?B = "CyclicalScheduler_new CosineAnnealingScheduler"
  let ?lr = "\<lambda>w. map (\<lambda>pg. pg ''lr'') (param_groups w 0)"
  have l: "schedulers_list example_concat =
     [(?A, example_kwds_A, Some (int 1)), (?B, example_kwds_B, Some (int 0))]"
    by (simp add: example_concat_fields)
  obtain a1 w1 where a: "invoke call (Suc 1) example_linear example_world = Done (a1, w1)"
    "?lr w1 = [Some 0.082]"
    by (simp add: obj_run)
  obtain a1' w1' where a': "invoke call (Suc 0) example_linear example_world = Done (a1', w1')"
    "?lr w1' = [Some 0.1]"
    by (simp add: obj_run)
  obtain b1 w2 where b: "invoke call (Suc 0) example_annealing w1 = Done (b1, w2)"
    "?lr w2 = [Some 0.01]"
    using a(1) by (auto simp: obj_run)
  obtain a2 w3 where c: "invoke call (Suc 0) example_linear w2 = Done (a2, w3)"
    "?lr w3 = [Some 0.1]"
    "a2 = CyclicalObj LinearScheduler (example_cyclical\<lparr>event_index := 1\<rparr>)"
    using a(1) b(1) by (auto simp: obj_run)
  note t = concat_two_entries [OF l example_concat_fields(6,7) example_construct a(1) b(1)]
  have r1: "invoke (ConcatScheduler_call call) 1 example_concat example_world
      = Done (example_concat\<lparr>schedulers_index := 1, next_scheduler_switch := Some 1,
          scheduler := Some a1'\<rparr>, w1')"
    using t [THEN conjunct1, rule_format, of 0] a'(1) by simp
  have r2: "invoke (ConcatScheduler_call call) 2 example_concat example_world
      = Done (example_concat\<lparr>schedulers_index := 1, next_scheduler_switch := Some 0,
          scheduler := Some a1\<rparr>, w1)"
    using t [THEN conjunct1, rule_format, of 1] a(1) by (simp add: numeral_2_eq_2)
  have r3: "invoke (ConcatScheduler_call call) 3 example_concat example_world
      = Done (example_concat\<lparr>schedulers_index := 0, next_scheduler_switch := Some 0,
          scheduler := Some b1\<rparr>, w2)"
    using t [THEN conjunct2, THEN conjunct1, rule_format, of 0] b(1)
    by (simp add: numeral_3_eq_3)
  have r4: "invoke (ConcatScheduler_call call) 4 example_concat example_world
      = Done (example_concat\<lparr>schedulers_index := 1, next_scheduler_switch := Some 1,
          scheduler := Some a2\<rparr>, w3)"
    using t [THEN conjunct2, THEN conjunct2, THEN conjunct2, rule_format, of 0 a2 w3] c(1)
    by (simp add: numeral_eq_Suc)
  show ?thesis
    using l example_construct r1 r2 r3 r4 a(2) a'(2) b(2) c(2,3)
    by (simp add: concat_lr_def example_concat_fields)
qed

subsection \<open>The configuration shared with the sub-schedulers\<close>

lemma and_then_Inr:
  "and_then r f = Inr x \<longleftrightarrow> (\<exists>y. r = Inr y \<and> f y = Inr x)"
  by (cases r) (simp_all add: and_then_def)

lemma arg_obj_Inr: "arg_obj kw k = Inr r \<longleftrightarrow> map_of kw k = Some (PyObj r)"
  by (auto simp: arg_obj_def split: option.splits pyval.splits)

lemma arg_str_Inr: "arg_str kw k = Inr s \<longleftrightarrow> map_of kw k = Some (PyStr s)"
  by (auto simp: arg_str_def split: option.splits pyval.splits)

lemma arg_bool_default_Inr:
  "arg_bool_default kw k d = Inr b \<longleftrightarrow>
     (map_of kw k = None \<and> b = d \<or> map_of kw k = Some (PyBool b))"
  by (auto simp: arg_bool_default_def split: option.splits pyval.splits)

lemma base_truncate [simp]:
  "optimizer (param_scheduler.truncate self) = optimizer self"
  "param_name (param_scheduler.truncate self) = param_name self"
  "save_history (param_scheduler.truncate self) = save_history self"
  "event_index (param_scheduler.truncate self) = event_index self"
  by (simp_all add: param_scheduler.truncate_def)

lemma ParamScheduler_new_base:
  assumes "ParamScheduler_new kw = Inr s"
  shows "map_of kw ''optimizer'' = Some (PyObj (optimizer (base s)))
     \<and> map_of kw ''param_name'' = Some (PyStr (param_name (base s)))
     \<and> (map_of kw ''save_history'' = None \<and> \<not> save_history (base s)
        \<or> map_of kw ''save_history'' = Some (PyBool (save_history (base s))))
     \<and> event_index (base s) = 0"
  using assms
  by (auto simp: ParamScheduler_new_def and_then_Inr arg_obj_Inr arg_str_Inr
      arg_bool_default_Inr ParamScheduler_init_def split: if_splits)

lemma CyclicalScheduler_new_base:
  assumes "CyclicalScheduler_new c kw = Inr s"
  shows "map_of kw ''optimizer'' = Some (PyObj (optimizer (base s)))
     \<and> map_of kw ''param_name'' = Some (PyStr (param_name (base s)))
     \<and> (map_of kw ''save_history'' = None \<and> \<not> save_history (base s)
        \<or> map_of kw ''save_history'' = Some (PyBool (save_history (base s))))
     \<and> event_index (base s) = 0"
  using assms
  by (auto simp: CyclicalScheduler_new_def and_then_Inr arg_obj_Inr arg_str_Inr
      arg_bool_default_Inr init_fields split: if_splits)

lemma in_source_targets:
  assumes "in_source F" "F (shared_kwds self kw) = Inr s"
  shows "targets s self \<and> event_index (base s) = 0"
proof -
  have "map_of (shared_kwds self kw) ''optimizer'' = Some (PyObj (optimizer (base s)))
     \<and> map_of (shared_kwds self kw) ''param_name'' = Some (PyStr (param_name (base s)))
     \<and> (map_of (shared_kwds self kw) ''save_history'' = None \<and> \<not> save_history (base s)
        \<or> map_of (shared_kwds self kw) ''save_history''
            = Some (PyBool (save_history (base s))))
     \<and> event_index (base s) = 0"
    using assms ParamScheduler_new_base CyclicalScheduler_new_base
    unfolding in_source_def by blast
  then show ?thesis by (simp add: map_of_shared_kwds targets_def)
qed

lemma ParamScheduler_call_base:
  "optimizer (fst (outcome_state (ParamScheduler_call gp self w))) = optimizer self
   \<and> param_name (fst (outcome_state (ParamScheduler_call gp self w))) = param_name self
   \<and> save_history (fst (outcome_state (ParamScheduler_call gp self w))) = save_history self"
proof (cases "gp self")
  case (Inl e)
  then show ?thesis by (simp add: ParamScheduler_call_Inl)
next
  case (Inr v)
  then show ?thesis by (simp add: ParamScheduler_call_Inr)
qed

lemma CyclicalScheduler_call_base:
  "optimizer (fst (outcome_state (CyclicalScheduler_call gp self w))) = optimizer self
   \<and> param_name (fst (outcome_state (CyclicalScheduler_call gp self w))) = param_name self
   \<and> save_history (fst (outcome_state (CyclicalScheduler_call gp self w))) = save_history self"
proof (cases "CyclicalScheduler_boundary self")
  case (Inl e)
  then show ?thesis by (simp add: CyclicalScheduler_call_def)
next
  case (Inr s1)
  then have "optimizer s1 = optimizer self \<and> param_name s1 = param_name self
      \<and> save_history s1 = save_history self"
    by (auto simp: CyclicalScheduler_boundary_def split: if_splits sum.splits)
  then show ?thesis
    using Inr ParamScheduler_call_base [of gp s1 w] by (simp add: CyclicalScheduler_call_def)
qed

lemma in_class_state:
  "fst (outcome_state (in_class C r)) = C (fst (outcome_state r))"
  "snd (outcome_state (in_class C r)) = snd (outcome_state r)"
  "raised (in_class C r) = raised r"
  by (cases r; cases "outcome_state r"; simp)+

lemma call_targets:
  "targets (fst (outcome_state (call sub w))) self \<longleftrightarrow> targets sub self"
proof (cases sub)
  case (ParamSchedulerObj s)
  then show ?thesis
    using ParamScheduler_call_base [of ParamScheduler_get_param s w]
    by (simp add: targets_def in_class_state)
next
  case (CyclicalObj c s)
  then show ?thesis
    using CyclicalScheduler_call_base [of "get_param c" s w]
    by (simp add: targets_def in_class_state)
qed

lemma py_index_in_set: "py_index xs i = Inr x \<Longrightarrow> x \<in> set xs"
  by (auto simp: py_index_def Let_def split: if_splits)

lemma delegate_inv:
  assumes "concat_inv self0 self"
  shows "concat_inv self0 (fst (outcome_state (ConcatScheduler_delegate call self w)))"
proof (cases "scheduler self")
  case None
  then show ?thesis using assms by (simp add: ConcatScheduler_delegate_def)
next
  case (Some sub)
  then have t: "targets sub self0" using assms by (simp add: concat_inv_def)
  show ?thesis
  proof (cases "call sub w")
    case (Raise e x)
    obtain sub' w' where x: "x = (sub', w')" by (cases x)
    have "targets sub' self0" using call_targets [of sub w self0] t Raise x by simp
    then show ?thesis
      using assms Some Raise x by (simp add: ConcatScheduler_delegate_def concat_inv_def)
  next
    case (Done x)
    obtain sub' w' where x: "x = (sub', w')" by (cases x)
    have "targets sub' self0" using call_targets [of sub w self0] t Done x by simp
    then show ?thesis
      using assms Some Done x by (simp add: ConcatScheduler_delegate_def concat_inv_def)
  qed
qed

lemma next_scheduler_inv:
  assumes "concat_inv self0 self" "\<forall>(F, kw, d)\<in>set (schedulers_list self0). in_source F"
  shows "concat_inv self0 (outcome_state (ConcatScheduler_next_scheduler self))"
proof (cases "py_index (schedulers_list self) (schedulers_index self)")
  case (Inl e)
  then show ?thesis using assms(1) by (simp add: ConcatScheduler_next_scheduler_def)
next
  case (Inr entry)
  obtain F kw d where entry: "entry = (F, kw, d)" by (cases entry)
  have "(F, kw, d) \<in> set (schedulers_list self0)"
    using py_index_in_set [OF Inr] entry assms(1) by (simp add: concat_inv_def)
  then have src: "in_source F" using assms(2) by auto
  have k: "shared_kwds self kw = shared_kwds self0 kw"
    using assms(1) by (simp add: shared_kwds_def concat_inv_def)
  show ?thesis
  proof (cases "F (shared_kwds self kw)")
    case (Inl e)
    then show ?thesis
      using next_scheduler_Raise [of self F kw d e] Inr entry assms(1)
      by (simp add: concat_inv_def)
  next
    case (Inr s)
    then have "targets s self0" using in_source_targets [OF src, of self0 kw s] k by simp
    then show ?thesis
      using next_scheduler_Done [of self F kw d s] \<open>py_index _ _ = Inr entry\<close> entry Inr assms(1)
      by (simp add: concat_inv_def)
  qed
qed

lemma concat_call_inv:
  assumes "concat_inv self0 self" "\<forall>(F, kw, d)\<in>set (schedulers_list self0). in_source F"
  shows "concat_inv self0 (fst (outcome_state (ConcatScheduler_call call self w)))"
proof (cases "next_scheduler_switch self")
  case None
  then show ?thesis using delegate_inv [OF assms(1)] by (simp add: ConcatScheduler_call_def)
next
  case (Some n)
  let ?s1 = "self\<lparr>next_scheduler_switch := Some (n - 1)\<rparr>"
  have i1: "concat_inv self0 ?s1" using assms(1) by (simp add: concat_inv_def)
  show ?thesis
  proof (cases "n - 1 < 0")
    case False
    then show ?thesis
      using Some delegate_inv [OF i1] by (simp add: ConcatScheduler_call_def Let_def)
  next
    case True
    show ?thesis
    proof (cases "ConcatScheduler_next_scheduler ?s1")
      case (Raise e s2)
      then show ?thesis
        using Some True next_scheduler_inv [OF i1 assms(2)]
        by (simp add: ConcatScheduler_call_def Let_def)
    next
      case (Done s2)
      then have "concat_inv self0 s2" using next_scheduler_inv [OF i1 assms(2)] by simp
      then show ?thesis
        using Some True Done delegate_inv [of self0 s2 w]
        by (simp add: ConcatScheduler_call_def Let_def)
    qed
  qed
qed

lemma concat_invoke_inv:
  assumes "\<forall>(F, kw, d)\<in>set (schedulers_list self0). in_source F"
  shows "concat_inv self0 self
     \<Longrightarrow> concat_inv self0 (fst (outcome_state (invoke (ConcatScheduler_call call) n self w)))"
proof (induction n arbitrary: self w)
  case 0
  then show ?case by simp
next
  case (Suc n)
  show ?case
  proof (cases "ConcatScheduler_call call self w")
    case (Raise e x)
    then show ?thesis using concat_call_inv [OF Suc.prems assms, of w] by simp
  next
    case (Done x)
    obtain s1 w1 where x: "x = (s1, w1)" by (cases x)
    have "concat_inv self0 s1" using concat_call_inv [OF Suc.prems assms, of w] Done x by simp
    from Suc.IH [OF this, of w1] show ?thesis using Done x by simp
  qed
qed

text \<open>
  C10. When \<^verbatim>\<open>_next_scheduler\<close> finds the entry \<open>(scheduler_cls, scheduler_kwds, d)\<close>, it
  calls \<open>scheduler_cls\<close> with keywords that bind \<^verbatim>\<open>optimizer\<close>, \<^verbatim>\<open>param_name\<close> and
  \<^verbatim>\<open>save_history\<close> to the \<^verbatim>\<open>ConcatScheduler\<close>'s own values, whatever the entry's dictionary
  holds for these keys, and every other key as the entry has it; the exception of the
  factory is raised, or its result becomes the active sub-scheduler, which for the classes
  of the module has the \<^verbatim>\<open>ConcatScheduler\<close>'s optimizer, parameter name and history flag and
  starts at index 0.  \<^verbatim>\<open>_schedulers_list\<close>, and so the entry's dictionary, is the same
  afterwards.  Hence along every run from a state whose active sub-scheduler (if any) shares
  these values, as the constructed state does, the active sub-scheduler shares them and the
  entries are unchanged.
\<close>

theorem concat_shared_configuration:
  fixes self :: "obj concat_scheduler"
  assumes "py_index (schedulers_list self) (schedulers_index self)
             = Inr (scheduler_cls, scheduler_kwds, d)"
  shows "map_of (shared_kwds self scheduler_kwds) ''optimizer'' = Some (PyObj (optimizer self))
     \<and> map_of (shared_kwds self scheduler_kwds) ''param_name''
         = Some (PyStr (param_name self))
     \<and> map_of (shared_kwds self scheduler_kwds) ''save_history''
         = Some (PyBool (save_history self))
     \<and> (\<forall>k. k \<notin> {''optimizer'', ''param_name'', ''save_history''} \<longrightarrow>
           map_of (shared_kwds self scheduler_kwds) k = map_of scheduler_kwds k)
     \<and> (\<forall>e. scheduler_cls (shared_kwds self scheduler_kwds) = Inl e \<longrightarrow>
           ConcatScheduler_next_scheduler self
             = Raise e (self\<lparr>next_scheduler_switch := d\<rparr>))
     \<and> (\<forall>s. scheduler_cls (shared_kwds self scheduler_kwds) = Inr s \<longrightarrow>
           ConcatScheduler_next_scheduler self
             = Done (self\<lparr>next_scheduler_switch := d, scheduler := Some s,
                   schedulers_index := (schedulers_index self + 1)
                      mod int (length (schedulers_list self))\<rparr>)
           \<and> (in_source scheduler_cls \<longrightarrow> targets s self \<and> event_index (base s) = 0))
     \<and> schedulers_list (outcome_state (ConcatScheduler_next_scheduler self))
         = schedulers_list self
     \<and> ((\<forall>(F, kw, d)\<in>set (schedulers_list self). in_source F)
          \<and> (\<forall>sub. scheduler self = Some sub \<longrightarrow> targets sub self) \<longrightarrow>
         (\<forall>n w. concat_inv self
            (fst (outcome_state (invoke (ConcatScheduler_call call) n self w)))))"
proof -
  let ?kw = "shared_kwds self scheduler_kwds"
  have a: "map_of ?kw ''optimizer'' = Some (PyObj (optimizer self))"
    "map_of ?kw ''param_name'' = Some (PyStr (param_name self))"
    "map_of ?kw ''save_history'' = Some (PyBool (save_history self))"
    "\<forall>k. k \<notin> {''optimizer'', ''param_name'', ''save_history''} \<longrightarrow>
           map_of ?kw k = map_of scheduler_kwds k"
    by (simp_all add: map_of_shared_kwds)
  have b: "\<forall>e. scheduler_cls ?kw = Inl e \<longrightarrow>
      ConcatScheduler_next_scheduler self = Raise e (self\<lparr>next_scheduler_switch := d\<rparr>)"
    using next_scheduler_Raise [OF assms] by blast
  have c: "\<forall>s. scheduler_cls ?kw = Inr s \<longrightarrow>
           ConcatScheduler_next_scheduler self
             = Done (self\<lparr>next_scheduler_switch := d, scheduler := Some s,
                   schedulers_index := (schedulers_index self + 1)
                      mod int (length (schedulers_list self))\<rparr>)
           \<and> (in_source scheduler_cls \<longrightarrow> targets s self \<and> event_index (base s) = 0)"
    using next_scheduler_Done [OF assms] in_source_targets [of scheduler_cls self scheduler_kwds]
    by blast
  have l: "schedulers_list (outcome_state (ConcatScheduler_next_scheduler self))
         = schedulers_list self"
  proof (cases "scheduler_cls ?kw")
    case (Inl e)
    then show ?thesis using b by simp
  next
    case (Inr s)
    then show ?thesis using c by simp
  qed
  have r: "concat_inv self (fst (outcome_state (invoke (ConcatScheduler_call call) n self w)))"
    if "(\<forall>(F, kw, d)\<in>set (schedulers_list self). in_source F)
          \<and> (\<forall>sub. scheduler self = Some sub \<longrightarrow> targets sub self)" for n w
  proof -
    have "concat_inv self self" using that by (simp add: concat_inv_def)
    then show ?thesis using concat_invoke_inv [of self self n w] that by blast
  qed
  have r': "(\<forall>(F, kw, d)\<in>set (schedulers_list self). in_source F)
          \<and> (\<forall>sub. scheduler self = Some sub \<longrightarrow> targets sub self) \<longrightarrow>
         (\<forall>n w. concat_inv self
            (fst (outcome_state (invoke (ConcatScheduler_call call) n self w))))"
    using r by (intro impI allI)
  show ?thesis by (intro conjI a b c l r')
qed

theorem concat_shared_configuration_witness:
  "py_index (schedulers_list overriding_concat) (schedulers_index overriding_concat)
     = Inr (CyclicalScheduler_new LinearScheduler, example_kwds_override, Some 1)
   \<and> map_of example_kwds_override ''param_name'' = Some (PyStr ''momentum'')
   \<and> map_of (shared_kwds overriding_concat example_kwds_override) ''param_name''
       = Some (PyStr ''lr'')
   \<and> map_of (shared_kwds overriding_concat example_kwds_override) ''cycle_size''
       = Some (PyNum 10)
   \<and> CyclicalScheduler_new LinearScheduler (shared_kwds overriding_concat example_kwds_override)
       = Inr example_linear
   \<and> in_source (CyclicalScheduler_new LinearScheduler)
   \<and> targets example_linear overriding_concat
   \<and> param_name (base example_linear) = ''lr''
   \<and> ConcatScheduler_next_scheduler overriding_concat
       = Done (overriding_concat\<lparr>next_scheduler_switch := Some 1,
            scheduler := Some example_linear, schedulers_index := 0\<rparr>)
   \<and> scheduler (fst (outcome_state (invoke (ConcatScheduler_call call) 3 overriding_concat
        example_world)))
       = Some (CyclicalObj LinearScheduler (example_cyclical\<lparr>event_index := 1\<rparr>))
   \<and> concat_inv overriding_concat
        (fst (outcome_state (invoke (ConcatScheduler_call call) 3 overriding_concat
           example_world)))
   \<and> schedulers_list (fst (outcome_state (invoke (ConcatScheduler_call call) 3
        overriding_concat example_world)))
       = [(CyclicalScheduler_new LinearScheduler, example_kwds_override, Some 1)]"
proof -
  let ?C = "ConcatScheduler_call call"
  have f: "optimizer overriding_concat = 0" "param_name overriding_concat = ''lr''"
    "save_history overriding_concat = False"
    "schedulers_list overriding_concat =
       [(CyclicalScheduler_new LinearScheduler, example_kwds_override, Some 1)]"
    "schedulers_index overriding_concat = 0" "next_scheduler_switch overriding_concat = Some 0"
    "scheduler overriding_concat = None"
    by (simp_all add: overriding_concat_def ConcatScheduler_init_def ParamScheduler_init_def
        param_scheduler.extend_def concat_scheduler.fields_def)
  have i: "py_index (schedulers_list overriding_concat) (schedulers_index overriding_concat)
     = Inr (CyclicalScheduler_new LinearScheduler, example_kwds_override, Some 1)"
    by (simp add: f py_index_def)
  have n: "CyclicalScheduler_new LinearScheduler
      (shared_kwds overriding_concat example_kwds_override) = Inr example_linear"
    by (simp add: construct_eval f example_kwds_override_def example_linear_def
        example_cyclical_def shared_kwds_def)
  have src: "in_source (CyclicalScheduler_new LinearScheduler)"
    by (auto simp: in_source_def)
  have srcs: "\<forall>(F, kw, d)\<in>set (schedulers_list overriding_concat). in_source F"
    using src by (simp add: f)
  have m: "map_of example_kwds_override ''param_name'' = Some (PyStr ''momentum'')"
    "map_of example_kwds_override ''cycle_size'' = Some (PyNum 10)"
    by (simp_all add: example_kwds_override_def)
  obtain a1 w1 where a: "invoke call (Suc 1) example_linear example_world = Done (a1, w1)"
    by (simp add: obj_run)
  obtain w2 where b: "invoke call (Suc 0) example_linear w1
      = Done (CyclicalObj LinearScheduler (example_cyclical\<lparr>event_index := 1\<rparr>), w2)"
    by (simp add: obj_run)
  let ?s1 = "overriding_concat\<lparr>next_scheduler_switch := Some 0, scheduler := Some a1\<rparr>"
  have i': "py_index (schedulers_list overriding_concat) (schedulers_index overriding_concat)
     = Inr (CyclicalScheduler_new LinearScheduler, example_kwds_override, Some (int 1))"
    using i by simp
  have p1: "invoke ?C (Suc 1) overriding_concat example_world = Done (?s1, w1)"
    using concat_phase [OF f(6) _ i' n _ a] by (simp add: f)
  have i1: "py_index (schedulers_list ?s1) (schedulers_index ?s1)
     = Inr (CyclicalScheduler_new LinearScheduler, example_kwds_override, Some (int 1))"
    using i by simp
  have n1: "CyclicalScheduler_new LinearScheduler (shared_kwds ?s1 example_kwds_override)
      = Inr example_linear"
    using n by (simp add: shared_kwds_def)
  have p2: "invoke ?C (Suc 0) ?s1 w1
      = Done (?s1\<lparr>next_scheduler_switch := Some (int 1 - int 0),
          scheduler := Some (CyclicalObj LinearScheduler (example_cyclical\<lparr>event_index := 1\<rparr>)),
          schedulers_index := (schedulers_index ?s1 + 1)
             mod int (length (schedulers_list ?s1))\<rparr>, w2)"
  proof -
    have sw: "next_scheduler_switch ?s1 = Some 0" by simp
    have z: "(0::int) \<le> 0" "(0::nat) \<le> 1" by simp_all
    show ?thesis by (rule concat_phase [OF sw z(1) i1 n1 z(2) b])
  qed
  have "invoke ?C (Suc 1 + Suc 0) overriding_concat example_world = invoke ?C (Suc 0) ?s1 w1"
    unfolding invoke_add p1 by simp
  then have p3: "invoke ?C 3 overriding_concat example_world
      = Done (?s1\<lparr>next_scheduler_switch := Some (int 1 - int 0),
          scheduler := Some (CyclicalObj LinearScheduler (example_cyclical\<lparr>event_index := 1\<rparr>)),
          schedulers_index := (schedulers_index ?s1 + 1)
             mod int (length (schedulers_list ?s1))\<rparr>, w2)"
    unfolding p2 by (simp add: numeral_3_eq_3)
  have act: "scheduler (fst (outcome_state (invoke ?C 3 overriding_concat example_world)))
       = Some (CyclicalObj LinearScheduler (example_cyclical\<lparr>event_index := 1\<rparr>))"
    unfolding p3 by simp
  note t = concat_shared_configuration [OF i]
  have t1: "map_of (shared_kwds overriding_concat example_kwds_override) ''param_name''
       = Some (PyStr ''lr'')"
    using t by (simp add: f)
  have t2: "map_of (shared_kwds overriding_concat example_kwds_override) ''cycle_size''
       = Some (PyNum 10)"
    using t m(2) by simp
  have t3: "ConcatScheduler_next_scheduler overriding_concat
       = Done (overriding_concat\<lparr>next_scheduler_switch := Some 1,
            scheduler := Some example_linear, schedulers_index := 0\<rparr>)
     \<and> targets example_linear overriding_concat"
    using t n src by (simp add: f)
  have t4: "concat_inv overriding_concat
        (fst (outcome_state (invoke ?C 3 overriding_concat example_world)))"
    using t srcs by (simp add: f)
  have t5: "schedulers_list (fst (outcome_state (invoke ?C 3 overriding_concat example_world)))
       = [(CyclicalScheduler_new LinearScheduler, example_kwds_override, Some 1)]"
    using t4 by (simp add: concat_inv_def f)
  have t6: "param_name (base example_linear) = ''lr''"
    using t3 by (simp add: targets_def f)
  show ?thesis
    by (intro conjI i m(1) t1 t2 n src t3 [THEN conjunct1] t3 [THEN conjunct2] t6 act t4 t5)
qed

subsection \<open>Exceptions\<close>

lemma ParamScheduler_call_raises_iff:
  "(\<exists>x. ParamScheduler_call gp self w = Raise e x) \<longleftrightarrow> gp self = Inl e"
proof (cases "gp self")
  case (Inl e')
  then show ?thesis by (simp add: ParamScheduler_call_Inl)
next
  case (Inr v)
  then show ?thesis by (simp add: ParamScheduler_call_Inr)
qed

lemma boundary_index:
  "CyclicalScheduler_boundary self = Inr self'
     \<Longrightarrow> event_index self' = event_index self \<or> event_index self' = 0"
  by (auto simp: CyclicalScheduler_boundary_def split: if_splits sum.splits)

lemma CyclicalScheduler_call_raises_iff:
  assumes "CyclicalScheduler_boundary self = Inr self'"
  shows "(\<exists>x. CyclicalScheduler_call gp self w = Raise e x) \<longleftrightarrow> gp self' = Inl e"
  using assms ParamScheduler_call_raises_iff [of gp self' w e]
  by (simp add: CyclicalScheduler_call_def)

lemma CyclicalScheduler_call_Raise:
  assumes "CyclicalScheduler_call gp self w = Raise e (self', w')"
  shows "w' = w \<and> (event_index self' = event_index self \<or> event_index self' = 0)"
proof (cases "CyclicalScheduler_boundary self")
  case (Inl e')
  then show ?thesis using assms by (simp add: CyclicalScheduler_call_def)
next
  case (Inr s1)
  show ?thesis
  proof (cases "gp s1")
    case (Inl e')
    then show ?thesis
      using assms Inr boundary_index [OF Inr]
      by (auto simp: CyclicalScheduler_call_def ParamScheduler_call_Inl)
  next
    case Inr2: (Inr v)
    then show ?thesis
      using assms Inr by (simp add: CyclicalScheduler_call_def ParamScheduler_call_Inr)
  qed
qed

lemma call_Raise:
  assumes "call s w = Raise e (s', w')"
  shows "w' = w \<and> (event_index (base s') = event_index (base s) \<or> event_index (base s') = 0)"
proof (cases s)
  case (ParamSchedulerObj p)
  then show ?thesis
    using assms
    by (auto simp: ParamScheduler_call_Inl [of ParamScheduler_get_param p NotImplementedError]
        ParamScheduler_get_param_def)
next
  case (CyclicalObj c p)
  obtain x where x: "CyclicalScheduler_call (get_param c) p w = x" by simp
  show ?thesis
  proof (cases x)
    case (Raise e' y)
    obtain p' v where y: "y = (p', v)" by (cases y)
    from CyclicalScheduler_call_Raise [of "get_param c" p w e' p' v] x Raise y
    show ?thesis using assms CyclicalObj by auto
  next
    case (Done y)
    obtain p' v where y: "y = (p', v)" by (cases y)
    then show ?thesis using assms CyclicalObj x Done by simp
  qed
qed

lemma delegate_raises_iff:
  assumes "scheduler self = Some sub"
  shows "(\<exists>x. ConcatScheduler_delegate sub_call self w = Raise e x)
     \<longleftrightarrow> (\<exists>x. sub_call sub w = Raise e x)"
  using assms
  by (cases "sub_call sub w"; cases "outcome_state (sub_call sub w)")
    (auto simp: ConcatScheduler_delegate_def)

lemma concat_stay_raises_iff:
  assumes "scheduler self = Some sub"
    "next_scheduler_switch self = None \<or> (\<exists>n>0. next_scheduler_switch self = Some n)"
  shows "(\<exists>x. ConcatScheduler_call sub_call self w = Raise e x)
     \<longleftrightarrow> (\<exists>x. sub_call sub w = Raise e x)"
proof (cases "next_scheduler_switch self")
  case None
  then show ?thesis
    using delegate_raises_iff [OF assms(1)] by (simp add: ConcatScheduler_call_def)
next
  case (Some n)
  then have "0 < n" using assms(2) by auto
  then show ?thesis
    using Some delegate_raises_iff [of "self\<lparr>next_scheduler_switch := Some (n - 1)\<rparr>" sub]
      assms(1)
    by (simp add: concat_call_stay)
qed

lemma concat_switch_raises_iff:
  assumes "next_scheduler_switch self = Some n" "n \<le> 0"
    "py_index (schedulers_list self) (schedulers_index self) = Inr (F, kw, d)"
  shows "(\<exists>x. ConcatScheduler_call sub_call self w = Raise e x)
     \<longleftrightarrow> F (shared_kwds self kw) = Inl e
          \<or> (\<exists>s0 x. F (shared_kwds self kw) = Inr s0 \<and> sub_call s0 w = Raise e x)"
proof (cases "F (shared_kwds self kw)")
  case (Inl e')
  let ?s1 = "self\<lparr>next_scheduler_switch := Some (n - 1)\<rparr>"
  have "shared_kwds ?s1 kw = shared_kwds self kw" by (simp add: shared_kwds_def)
  then have "ConcatScheduler_next_scheduler ?s1 = Raise e' (?s1\<lparr>next_scheduler_switch := d\<rparr>)"
    using next_scheduler_Raise [of ?s1 F kw d e'] assms(3) Inl by simp
  then show ?thesis
    using assms(1,2) Inl by (auto simp: ConcatScheduler_call_def Let_def)
next
  case (Inr s0)
  let ?s2 = "self\<lparr>next_scheduler_switch := d, scheduler := Some s0,
               schedulers_index := (schedulers_index self + 1)
                  mod int (length (schedulers_list self))\<rparr>"
  have "ConcatScheduler_call sub_call self w = ConcatScheduler_delegate sub_call ?s2 w"
    by (rule concat_call_switch [OF assms Inr])
  then show ?thesis
    using Inr delegate_raises_iff [of ?s2 s0 sub_call w e] by simp
qed

lemma concat_factory_Raise:
  assumes "next_scheduler_switch self = Some n" "n \<le> 0"
    "py_index (schedulers_list self) (schedulers_index self) = Inr (F, kw, d)"
    "F (shared_kwds self kw) = Inl e"
  shows "ConcatScheduler_call sub_call self w = Raise e (self\<lparr>next_scheduler_switch := d\<rparr>, w)"
proof -
  let ?s1 = "self\<lparr>next_scheduler_switch := Some (n - 1)\<rparr>"
  have "shared_kwds ?s1 kw = shared_kwds self kw" by (simp add: shared_kwds_def)
  then have "ConcatScheduler_next_scheduler ?s1 = Raise e (?s1\<lparr>next_scheduler_switch := d\<rparr>)"
    using next_scheduler_Raise [of ?s1 F kw d e] assms(3,4) by simp
  then show ?thesis
    using assms(1,2) by (simp add: ConcatScheduler_call_def Let_def)
qed

lemma delegate_Raise_world:
  assumes "ConcatScheduler_delegate call self w = Raise e (self', w')"
  shows "w' = w \<and> event_index self' = event_index self"
proof (cases "scheduler self")
  case None
  then show ?thesis using assms by (auto simp: ConcatScheduler_delegate_def)
next
  case (Some sub)
  show ?thesis
  proof (cases "call sub w")
    case (Raise e' x)
    obtain sub' v where x: "x = (sub', v)" by (cases x)
    from call_Raise [of sub w e' sub' v] Raise x have "v = w" by simp
    then show ?thesis
      using assms Some Raise x by (auto simp: ConcatScheduler_delegate_def)
  next
    case (Done x)
    obtain sub' v where x: "x = (sub', v)" by (cases x)
    then show ?thesis using assms Some Done by (simp add: ConcatScheduler_delegate_def)
  qed
qed

lemma next_scheduler_index:
  "event_index (outcome_state (ConcatScheduler_next_scheduler self)) = event_index self"
  by (auto simp: ConcatScheduler_next_scheduler_def Let_def split: sum.splits prod.splits)

lemma concat_call_Raise_world:
  assumes "ConcatScheduler_call call self w = Raise e (self', w')"
  shows "w' = w \<and> event_index self' = event_index self"
proof (cases "next_scheduler_switch self")
  case None
  then show ?thesis
    using assms delegate_Raise_world [of self w e self' w']
    by (simp add: ConcatScheduler_call_def)
next
  case (Some n)
  let ?s1 = "self\<lparr>next_scheduler_switch := Some (n - 1)\<rparr>"
  show ?thesis
  proof (cases "n - 1 < 0")
    case False
    then show ?thesis
      using assms Some delegate_Raise_world [of ?s1 w e self' w']
      by (simp add: ConcatScheduler_call_def Let_def)
  next
    case True
    show ?thesis
    proof (cases "ConcatScheduler_next_scheduler ?s1")
      case (Raise e' s2)
      then show ?thesis
        using assms Some True next_scheduler_index [of ?s1]
        by (simp add: ConcatScheduler_call_def Let_def)
    next
      case (Done s2)
      then show ?thesis
        using assms Some True next_scheduler_index [of ?s1]
          delegate_Raise_world [of s2 w e self' w']
        by (simp add: ConcatScheduler_call_def Let_def)
    qed
  qed
qed

lemma concat_call_no_switch:
  "\<not> switch_due self
     \<Longrightarrow> ConcatScheduler_call sub_call self w
           = ConcatScheduler_delegate sub_call (decremented self) w"
  by (cases "next_scheduler_switch self")
    (simp_all add: ConcatScheduler_call_def switch_due_def decremented_def Let_def)

lemma concat_call_due:
  "switch_due self
     \<Longrightarrow> ConcatScheduler_call sub_call self w
           = (case ConcatScheduler_next_scheduler (decremented self) of
                Raise e self2 \<Rightarrow> Raise e (self2, w)
              | Done self2 \<Rightarrow> ConcatScheduler_delegate sub_call self2 w)"
  by (cases "next_scheduler_switch self")
    (simp_all add: ConcatScheduler_call_def switch_due_def decremented_def Let_def)

lemma decremented_fields:
  "optimizer (decremented self) = optimizer self"
  "param_name (decremented self) = param_name self"
  "save_history (decremented self) = save_history self"
  "event_index (decremented self) = event_index self"
  "schedulers_list (decremented self) = schedulers_list self"
  "schedulers_index (decremented self) = schedulers_index self"
  "scheduler (decremented self) = scheduler self"
  by (cases "next_scheduler_switch self"; simp add: decremented_def)+

lemma decremented_switch:
  "(decremented self)\<lparr>next_scheduler_switch := d\<rparr> = self\<lparr>next_scheduler_switch := d\<rparr>"
  by (cases "next_scheduler_switch self") (simp_all add: decremented_def)

lemma shared_kwds_decremented: "shared_kwds (decremented self) kw = shared_kwds self kw"
  by (simp add: shared_kwds_def decremented_fields)

lemma concat_no_active:
  assumes "\<not> switch_due self" "scheduler self = None"
  shows "ConcatScheduler_call sub_call self w = Raise AttributeError (decremented self, w)"
  using assms
  by (simp add: concat_call_no_switch ConcatScheduler_delegate_def decremented_fields)

lemma concat_active_raises_iff:
  assumes "\<not> switch_due self" "scheduler self = Some sub"
  shows "(\<exists>x. ConcatScheduler_call sub_call self w = Raise e x)
     \<longleftrightarrow> (\<exists>x. sub_call sub w = Raise e x)"
  using assms delegate_raises_iff [of "decremented self" sub sub_call w e]
  by (simp add: concat_call_no_switch decremented_fields)

lemma concat_active_Raise:
  assumes "\<not> switch_due self" "scheduler self = Some sub"
    "sub_call sub w = Raise e (sub', w')"
  shows "ConcatScheduler_call sub_call self w
     = Raise e ((decremented self)\<lparr>scheduler := Some sub'\<rparr>, w')"
  using assms
  by (simp add: concat_call_no_switch delegate_Raise decremented_fields)

lemma concat_lookup_Raise:
  assumes "switch_due self"
    "py_index (schedulers_list self) (schedulers_index self) = Inl e"
  shows "ConcatScheduler_call sub_call self w = Raise e (decremented self, w)"
  using assms
  by (simp add: concat_call_due ConcatScheduler_next_scheduler_def decremented_fields)

lemma next_scheduler_decremented_Done:
  assumes "py_index (schedulers_list self) (schedulers_index self) = Inr (F, kw, d)"
    "F (shared_kwds self kw) = Inr s0"
  shows "ConcatScheduler_next_scheduler (decremented self)
     = Done (self\<lparr>next_scheduler_switch := d, scheduler := Some s0,
                   schedulers_index := (schedulers_index self + 1)
                      mod int (length (schedulers_list self))\<rparr>)"
proof -
  have "ConcatScheduler_next_scheduler (decremented self)
     = Done ((decremented self)\<lparr>next_scheduler_switch := d, scheduler := Some s0,
                   schedulers_index := (schedulers_index (decremented self) + 1)
                      mod int (length (schedulers_list (decremented self)))\<rparr>)"
    by (rule next_scheduler_Done [of "decremented self" F kw d s0])
      (simp_all add: assms decremented_fields shared_kwds_decremented)
  then show ?thesis by (simp add: decremented_fields decremented_switch)
qed

lemma next_scheduler_decremented_Raise:
  assumes "py_index (schedulers_list self) (schedulers_index self) = Inr (F, kw, d)"
    "F (shared_kwds self kw) = Inl e"
  shows "ConcatScheduler_next_scheduler (decremented self)
     = Raise e (self\<lparr>next_scheduler_switch := d\<rparr>)"
proof -
  have "ConcatScheduler_next_scheduler (decremented self)
     = Raise e ((decremented self)\<lparr>next_scheduler_switch := d\<rparr>)"
    by (rule next_scheduler_Raise [of "decremented self" F kw d e])
      (simp_all add: assms decremented_fields shared_kwds_decremented)
  then show ?thesis by (simp add: decremented_switch)
qed

lemma concat_due_raises_iff:
  assumes "switch_due self"
    "py_index (schedulers_list self) (schedulers_index self) = Inr (F, kw, d)"
  shows "(\<exists>x. ConcatScheduler_call sub_call self w = Raise e x)
     \<longleftrightarrow> F (shared_kwds self kw) = Inl e
          \<or> (\<exists>s0 x. F (shared_kwds self kw) = Inr s0 \<and> sub_call s0 w = Raise e x)"
proof (cases "F (shared_kwds self kw)")
  case (Inl e')
  then show ?thesis
    using assms next_scheduler_decremented_Raise [OF assms(2) Inl]
    by (auto simp: concat_call_due)
next
  case (Inr s0)
  let ?s2 = "self\<lparr>next_scheduler_switch := d, scheduler := Some s0,
               schedulers_index := (schedulers_index self + 1)
                  mod int (length (schedulers_list self))\<rparr>"
  have "ConcatScheduler_call sub_call self w = ConcatScheduler_delegate sub_call ?s2 w"
    using assms(1) next_scheduler_decremented_Done [OF assms(2) Inr]
    by (simp add: concat_call_due)
  then show ?thesis
    using Inr delegate_raises_iff [of ?s2 s0 sub_call w e] by simp
qed

lemma concat_due_factory_Raise:
  assumes "switch_due self"
    "py_index (schedulers_list self) (schedulers_index self) = Inr (F, kw, d)"
    "F (shared_kwds self kw) = Inl e"
  shows "ConcatScheduler_call sub_call self w = Raise e (self\<lparr>next_scheduler_switch := d\<rparr>, w)"
  using assms(1) next_scheduler_decremented_Raise [OF assms(2,3)]
  by (simp add: concat_call_due)

lemma concat_due_built_Raise:
  assumes "switch_due self"
    "py_index (schedulers_list self) (schedulers_index self) = Inr (F, kw, d)"
    "F (shared_kwds self kw) = Inr s0" "sub_call s0 w = Raise e (sub', w')"
  shows "ConcatScheduler_call sub_call self w
     = Raise e (self\<lparr>next_scheduler_switch := d, scheduler := Some sub',
                   schedulers_index := (schedulers_index self + 1)
                      mod int (length (schedulers_list self))\<rparr>, w')"
  using assms(1,4) next_scheduler_decremented_Done [OF assms(2,3)]
  by (simp add: concat_call_due delegate_Raise)

lemma delegate_Raise_sub:
  assumes "ConcatScheduler_delegate call self w = Raise e (self', w')"
    "scheduler self' = Some sub'"
  shows "w' = w \<and> (\<exists>sub. scheduler self = Some sub
          \<and> (event_index (base sub') = event_index (base sub) \<or> event_index (base sub') = 0))"
proof (cases "scheduler self")
  case None
  then show ?thesis using assms by (auto simp: ConcatScheduler_delegate_def)
next
  case (Some sub)
  show ?thesis
  proof (cases "call sub w")
    case (Raise e' x)
    obtain s1 v where x: "x = (s1, v)" by (cases x)
    from call_Raise [of sub w e' s1 v] Raise x
    have "v = w" "event_index (base s1) = event_index (base sub) \<or> event_index (base s1) = 0"
      by simp_all
    then show ?thesis
      using assms Some Raise x by (auto simp: ConcatScheduler_delegate_def)
  next
    case (Done x)
    obtain s1 v where x: "x = (s1, v)" by (cases x)
    then show ?thesis using assms Some Done by (simp add: ConcatScheduler_delegate_def)
  qed
qed

lemma concat_call_Raise_sub:
  assumes "ConcatScheduler_call call self w = Raise e (self', w')"
    "scheduler self' = Some sub'"
  shows "\<exists>sub. (scheduler self = Some sub
            \<or> (\<exists>F kw d. (F, kw, d) \<in> set (schedulers_list self)
                  \<and> F (shared_kwds self kw) = Inr sub))
          \<and> (event_index (base sub') = event_index (base sub) \<or> event_index (base sub') = 0)"
proof (cases "switch_due self")
  case False
  from delegate_Raise_sub [of "decremented self" w e self' w' sub'] assms False
  show ?thesis by (auto simp: concat_call_no_switch decremented_fields)
next
  case True
  show ?thesis
  proof (cases "py_index (schedulers_list self) (schedulers_index self)")
    case (Inl e')
    then have "self' = decremented self"
      using assms(1) concat_lookup_Raise [OF True Inl, of call w] by simp
    then show ?thesis using assms(2) by (auto simp: decremented_fields)
  next
    case (Inr entry)
    obtain F kw d where entry: "entry = (F, kw, d)" by (cases entry)
    have ix: "py_index (schedulers_list self) (schedulers_index self) = Inr (F, kw, d)"
      using Inr entry by simp
    have mem: "(F, kw, d) \<in> set (schedulers_list self)" by (rule py_index_in_set [OF ix])
    show ?thesis
    proof (cases "F (shared_kwds self kw)")
      case (Inl e')
      then have "self' = self\<lparr>next_scheduler_switch := d\<rparr>"
        using assms(1) concat_due_factory_Raise [OF True ix Inl, of call w] by simp
      then show ?thesis using assms(2) by auto
    next
      case built: (Inr s0)
      let ?s2 = "self\<lparr>next_scheduler_switch := d, scheduler := Some s0,
               schedulers_index := (schedulers_index self + 1)
                  mod int (length (schedulers_list self))\<rparr>"
      have "ConcatScheduler_call call self w = ConcatScheduler_delegate call ?s2 w"
        using True next_scheduler_decremented_Done [OF ix built]
        by (simp add: concat_call_due)
      from delegate_Raise_sub [of ?s2 w e self' w' sub'] this assms
      have "event_index (base sub') = event_index (base s0) \<or> event_index (base sub') = 0"
        by simp
      then show ?thesis using mem built by blast
    qed
  qed
qed


lemma concat_init_fields:
  "optimizer (ConcatScheduler_init opt name entries hist) = opt"
  "param_name (ConcatScheduler_init opt name entries hist) = name"
  "save_history (ConcatScheduler_init opt name entries hist) = hist"
  "event_index (ConcatScheduler_init opt name entries hist) = 0"
  "schedulers_list (ConcatScheduler_init opt name entries hist) = entries"
  "schedulers_index (ConcatScheduler_init opt name entries hist) = 0"
  "next_scheduler_switch (ConcatScheduler_init opt name entries hist) = Some 0"
  "scheduler (ConcatScheduler_init opt name entries hist) = None"
  by (simp_all add: ConcatScheduler_init_def ParamScheduler_init_def
      param_scheduler.extend_def concat_scheduler.fields_def)

lemma abstract_obj_raises:
  "call abstract_obj example_world = Raise NotImplementedError (abstract_obj, example_world)"
  by (simp add: abstract_obj_def CyclicalScheduler_call_def CyclicalScheduler_boundary_def
      example_cyclical_fields ParamScheduler_call_def ParamScheduler_get_param_def)

lemma abstract_concat_built:
  "CyclicalScheduler_new CyclicalScheduler (shared_kwds abstract_concat example_kwds_A)
     = Inr abstract_obj"
  by (simp add: construct_eval shared_kwds_def abstract_concat_def concat_init_fields
      example_kwds_A_def abstract_obj_def example_cyclical_def)

lemma abstract_concat_due:
  "switch_due abstract_concat"
  "py_index (schedulers_list abstract_concat) (schedulers_index abstract_concat)
     = Inr (CyclicalScheduler_new CyclicalScheduler, example_kwds_A, Some 1)"
  "schedulers_index abstract_concat = 0" "length (schedulers_list abstract_concat) = 1"
  "scheduler abstract_concat = None" "next_scheduler_switch abstract_concat = Some 0"
  by (simp_all add: abstract_concat_def concat_init_fields py_index_def switch_due_def)

lemma failing_concat_due:
  "switch_due failing_concat"
  "py_index (schedulers_list failing_concat) (schedulers_index failing_concat)
     = Inr (CyclicalScheduler_new LinearScheduler, [(''start_value'', PyNum 0.1)], Some 3)"
  "scheduler failing_concat = None"
  by (simp_all add: failing_concat_def concat_init_fields py_index_def switch_due_def)

lemma failing_concat_factory:
  "CyclicalScheduler_new LinearScheduler
     (shared_kwds failing_concat [(''start_value'', PyNum 0.1)]) = Inl TypeError"
  by (simp add: construct_eval shared_kwds_def failing_concat_def concat_init_fields)

lemma two_cycle_fields:
  "event_index two_cycle = 0" "cycle_size two_cycle = 2" "cycle_mult two_cycle = 1"
  "cycle two_cycle = 0" "start_value two_cycle = 0.1" "end_value two_cycle = 0.01"
  by (simp_all add: two_cycle_def init_fields)

lemma failing_after_2: "failing_after 2 = two_cycle\<lparr>event_index := 2\<rparr>"
proof -
  have b0: "CyclicalScheduler_boundary two_cycle = Inr two_cycle"
    by (simp add: CyclicalScheduler_boundary_def two_cycle_fields)
  have g0: "failing_waveform two_cycle = Inr 0.1"
    by (simp add: failing_waveform_def LinearScheduler_get_param_def py_truediv_def
        two_cycle_fields)
  let ?s1 = "two_cycle\<lparr>event_index := 1\<rparr>"
  have b1: "CyclicalScheduler_boundary ?s1 = Inr ?s1"
    by (simp add: CyclicalScheduler_boundary_def py_mod_def two_cycle_fields)
  have g1': "failing_waveform ?s1 = Inr 0.01"
    by (simp add: failing_waveform_def LinearScheduler_get_param_def py_truediv_def
        two_cycle_fields)
  have c0: "\<exists>w1. CyclicalScheduler_call failing_waveform two_cycle example_world
      = Done (?s1, w1)"
    using ParamScheduler_call_Inr [where gp = failing_waveform and self = two_cycle
        and w = example_world, OF g0]
    by (simp add: CyclicalScheduler_call_def b0 two_cycle_fields)
  then obtain w1 where c0': "CyclicalScheduler_call failing_waveform two_cycle example_world
      = Done (?s1, w1)" ..
  have c1: "\<exists>w2. CyclicalScheduler_call failing_waveform ?s1 w1
      = Done (two_cycle\<lparr>event_index := 2\<rparr>, w2)"
    using ParamScheduler_call_Inr [where gp = failing_waveform and self = ?s1
        and w = w1, OF g1']
    by (simp add: CyclicalScheduler_call_def b1)
  then obtain w2 where c1': "CyclicalScheduler_call failing_waveform ?s1 w1
      = Done (two_cycle\<lparr>event_index := 2\<rparr>, w2)" ..
  have "invoke (CyclicalScheduler_call failing_waveform) 2 two_cycle example_world
      = Done (two_cycle\<lparr>event_index := 2\<rparr>, w2)"
    by (simp add: numeral_2_eq_2 c0' c1')
  then show ?thesis by (simp add: failing_after_def)
qed

lemma failing_after_2_boundary:
  "CyclicalScheduler_boundary (failing_after 2)
     = Inr ((failing_after 2)\<lparr>event_index := 0, cycle := 1\<rparr>)"
  by (simp add: failing_after_2 CyclicalScheduler_boundary_def py_mod_def two_cycle_fields)

lemma failing_after_2_waveform:
  "failing_waveform ((failing_after 2)\<lparr>event_index := 0, cycle := 1\<rparr>)
     = Inl NotImplementedError"
  by (simp add: failing_waveform_def)

text \<open>
  C8, as stated, fails where it says that the state of the schedule is unchanged when
  \<^verbatim>\<open>get_param\<close> raises, and where it says that \<^verbatim>\<open>__call__\<close> raises only if \<^verbatim>\<open>get_param\<close>
  does.  \<^verbatim>\<open>CyclicalScheduler.__call__\<close> resets the index and counts the cycle (lines 57-60)
  before \<^verbatim>\<open>get_param\<close> is called (line 17): a scheduler with cycle size 2 and multiplier 1
  whose waveform raises in the second cycle is left with index 0 and cycle 1.
  \<^verbatim>\<open>ConcatScheduler.__call__\<close> decrements the countdown and switches (lines 168-171) before
  the delegated call: when the \<^verbatim>\<open>get_param\<close> of the sub-scheduler it has just built raises,
  the new countdown and the new sub-scheduler stay.  And after a factory has raised in the
  first invocation there is no active sub-scheduler, so the second invocation raises
  \<^verbatim>\<open>AttributeError\<close> at line 173, without any \<^verbatim>\<open>get_param\<close> or factory being called.
\<close>

theorem state_after_raise_counterexample:
  "event_index (failing_after 2) = 2 \<and> cycle (failing_after 2) = 0
   \<and> cycle_size (failing_after 2) = 2 \<and> cycle_mult (failing_after 2) = 1
   \<and> failing_waveform ((failing_after 2)\<lparr>event_index := 0, cycle := 1\<rparr>)
       = Inl NotImplementedError
   \<and> CyclicalScheduler_call failing_waveform (failing_after 2) example_world
       = Raise NotImplementedError
           ((failing_after 2)\<lparr>event_index := 0, cycle := 1\<rparr>, example_world)
   \<and> (failing_after 2)\<lparr>event_index := 0, cycle := 1\<rparr> \<noteq> failing_after 2
   \<and> abstract_obj = CyclicalObj CyclicalScheduler example_cyclical
   \<and> get_param CyclicalScheduler example_cyclical = Inl NotImplementedError
   \<and> next_scheduler_switch abstract_concat = Some 0 \<and> scheduler abstract_concat = None
   \<and> ConcatScheduler_call call abstract_concat example_world
       = Raise NotImplementedError
           (abstract_concat\<lparr>next_scheduler_switch := Some 1, scheduler := Some abstract_obj,
               schedulers_index := 0\<rparr>, example_world)
   \<and> abstract_concat\<lparr>next_scheduler_switch := Some 1, scheduler := Some abstract_obj,
         schedulers_index := 0\<rparr> \<noteq> abstract_concat
   \<and> ConcatScheduler_call call failing_concat example_world
       = Raise TypeError (failing_concat\<lparr>next_scheduler_switch := Some 3\<rparr>, example_world)
   \<and> scheduler (failing_concat\<lparr>next_scheduler_switch := Some 3\<rparr>) = None
   \<and> ConcatScheduler_call call (failing_concat\<lparr>next_scheduler_switch := Some 3\<rparr>)
         example_world
       = Raise AttributeError (failing_concat\<lparr>next_scheduler_switch := Some 2\<rparr>, example_world)"
proof -
  have f: "event_index (failing_after 2) = 2" "cycle (failing_after 2) = 0"
    "cycle_size (failing_after 2) = 2" "cycle_mult (failing_after 2) = 1"
    by (simp_all add: failing_after_2 two_cycle_fields)
  have c: "CyclicalScheduler_call failing_waveform (failing_after 2) example_world
       = Raise NotImplementedError
           ((failing_after 2)\<lparr>event_index := 0, cycle := 1\<rparr>, example_world)"
    by (simp add: CyclicalScheduler_call_def failing_after_2_boundary
        ParamScheduler_call_Inl failing_after_2_waveform)
  have n: "(failing_after 2)\<lparr>event_index := 0, cycle := 1\<rparr> \<noteq> failing_after 2"
  proof
    assume "(failing_after 2)\<lparr>event_index := 0, cycle := 1\<rparr> = failing_after 2"
    then have "event_index ((failing_after 2)\<lparr>event_index := 0, cycle := 1\<rparr>)
        = event_index (failing_after 2)" by simp
    then show False by (simp add: f)
  qed
  have g: "get_param CyclicalScheduler example_cyclical = Inl NotImplementedError"
    by (simp add: ParamScheduler_get_param_def)
  have a: "ConcatScheduler_call call abstract_concat example_world
       = Raise NotImplementedError
           (abstract_concat\<lparr>next_scheduler_switch := Some 1, scheduler := Some abstract_obj,
               schedulers_index := 0\<rparr>, example_world)"
    using concat_due_built_Raise [where sub_call = call and w = example_world
        and self = abstract_concat and ?s0.0 = abstract_obj,
        OF abstract_concat_due(1,2) abstract_concat_built abstract_obj_raises]
    by (simp add: abstract_concat_due(3,4))
  have an: "abstract_concat\<lparr>next_scheduler_switch := Some 1, scheduler := Some abstract_obj,
         schedulers_index := 0\<rparr> \<noteq> abstract_concat"
  proof
    assume "abstract_concat\<lparr>next_scheduler_switch := Some 1, scheduler := Some abstract_obj,
         schedulers_index := 0\<rparr> = abstract_concat"
    then have "scheduler (abstract_concat\<lparr>next_scheduler_switch := Some 1,
        scheduler := Some abstract_obj, schedulers_index := 0\<rparr>) = scheduler abstract_concat"
      by simp
    then show False by (simp add: abstract_concat_due)
  qed
  have t: "ConcatScheduler_call call failing_concat example_world
       = Raise TypeError (failing_concat\<lparr>next_scheduler_switch := Some 3\<rparr>, example_world)"
    by (rule concat_due_factory_Raise [OF failing_concat_due(1,2) failing_concat_factory])
  have s: "scheduler (failing_concat\<lparr>next_scheduler_switch := Some 3\<rparr>) = None"
    by (simp add: failing_concat_due)
  have "\<not> switch_due (failing_concat\<lparr>next_scheduler_switch := Some 3\<rparr>)"
    by (simp add: switch_due_def)
  from concat_no_active [OF this s, of call example_world]
  have u: "ConcatScheduler_call call (failing_concat\<lparr>next_scheduler_switch := Some 3\<rparr>)
         example_world
       = Raise AttributeError (failing_concat\<lparr>next_scheduler_switch := Some 2\<rparr>, example_world)"
    by (simp add: decremented_def)
  show ?thesis
    by (intro conjI f failing_after_2_waveform c n abstract_obj_def g abstract_concat_due(6,5) a an t s u)
qed

text \<open>
  C8, amended: no \<^verbatim>\<open>__call__\<close> catches an exception.  The base \<^verbatim>\<open>__call__\<close> raises \<open>e\<close> if and
  only if \<^verbatim>\<open>get_param\<close> raises \<open>e\<close>, and then scheduler and world are as before.  A
  \<^verbatim>\<open>CyclicalScheduler\<close> whose boundary check raises is left as before; one whose boundary
  check passed raises \<open>e\<close> if and only if \<^verbatim>\<open>get_param\<close> raises \<open>e\<close> in the state the check
  left, and then it is left in that state, the index as before or reset to 0.  Whenever an
  object of the module raises, the world is as before (no parameter group written, no
  history appended) and the index is not incremented.  A \<^verbatim>\<open>ConcatScheduler\<close> for which no
  switch is due raises \<^verbatim>\<open>AttributeError\<close> when it has no active sub-scheduler, and otherwise
  raises \<open>e\<close> if and only if its active sub-scheduler does, left with the decremented
  countdown and the sub-scheduler as the failed call left it.  One for which a switch is
  due raises the exception of the lookup of its entry, or else raises \<open>e\<close> if and only if
  the factory raises \<open>e\<close> or the sub-scheduler it built does; the factory's exception leaves
  it with the entry's duration as only change, the sub-scheduler's exception leaves it
  switched.  When a \<^verbatim>\<open>ConcatScheduler\<close> over objects of the module raises, the world is as
  before, and the index of the sub-scheduler it is left with, if any, is the index of the
  sub-scheduler it had or of one built from an entry, or 0.
\<close>

theorem exceptions_propagate:
  fixes self :: "'a param_scheduler_scheme" and cself :: "'b cyclical_scheduler_scheme"
    and cc :: "'s concat_scheduler" and oc :: "obj concat_scheduler"
  shows "((\<exists>x. ParamScheduler_call gp self w = Raise e x) \<longleftrightarrow> gp self = Inl e)
     \<and> (gp self = Inl e \<longrightarrow> ParamScheduler_call gp self w = Raise e (self, w))
     \<and> (CyclicalScheduler_boundary cself = Inl e \<longrightarrow>
          CyclicalScheduler_call cgp cself w = Raise e (cself, w))
     \<and> (\<forall>cself'. CyclicalScheduler_boundary cself = Inr cself' \<longrightarrow>
          ((\<exists>x. CyclicalScheduler_call cgp cself w = Raise e x) \<longleftrightarrow> cgp cself' = Inl e)
          \<and> (cgp cself' = Inl e \<longrightarrow>
               CyclicalScheduler_call cgp cself w = Raise e (cself', w)
               \<and> (event_index cself' = event_index cself \<or> event_index cself' = 0)))
     \<and> (\<forall>s' w'. call s w = Raise e (s', w') \<longrightarrow>
          w' = w
          \<and> (event_index (base s') = event_index (base s) \<or> event_index (base s') = 0))
     \<and> (\<not> switch_due cc \<and> scheduler cc = None \<longrightarrow>
          ConcatScheduler_call sub_call cc w = Raise AttributeError (decremented cc, w))
     \<and> (\<forall>sub. \<not> switch_due cc \<and> scheduler cc = Some sub \<longrightarrow>
          ((\<exists>x. ConcatScheduler_call sub_call cc w = Raise e x)
             \<longleftrightarrow> (\<exists>x. sub_call sub w = Raise e x))
          \<and> (\<forall>sub' w'. sub_call sub w = Raise e (sub', w') \<longrightarrow>
                ConcatScheduler_call sub_call cc w
                  = Raise e ((decremented cc)\<lparr>scheduler := Some sub'\<rparr>, w')))
     \<and> (switch_due cc \<and> py_index (schedulers_list cc) (schedulers_index cc) = Inl e \<longrightarrow>
          ConcatScheduler_call sub_call cc w = Raise e (decremented cc, w))
     \<and> (\<forall>F kw d. switch_due cc
            \<and> py_index (schedulers_list cc) (schedulers_index cc) = Inr (F, kw, d)
          \<longrightarrow> ((\<exists>x. ConcatScheduler_call sub_call cc w = Raise e x)
                \<longleftrightarrow> F (shared_kwds cc kw) = Inl e
                     \<or> (\<exists>s0 x. F (shared_kwds cc kw) = Inr s0 \<and> sub_call s0 w = Raise e x))
              \<and> (F (shared_kwds cc kw) = Inl e \<longrightarrow>
                   ConcatScheduler_call sub_call cc w
                     = Raise e (cc\<lparr>next_scheduler_switch := d\<rparr>, w))
              \<and> (\<forall>s0 sub' w'. F (shared_kwds cc kw) = Inr s0
                     \<and> sub_call s0 w = Raise e (sub', w') \<longrightarrow>
                   ConcatScheduler_call sub_call cc w
                     = Raise e (cc\<lparr>next_scheduler_switch := d, scheduler := Some sub',
                          schedulers_index := (schedulers_index cc + 1)
                             mod int (length (schedulers_list cc))\<rparr>, w')))
     \<and> (\<forall>oc' w'. ConcatScheduler_call call oc w = Raise e (oc', w') \<longrightarrow>
          w' = w
          \<and> (\<forall>sub'. scheduler oc' = Some sub' \<longrightarrow>
                (\<exists>sub. (scheduler oc = Some sub
                         \<or> (\<exists>F kw d. (F, kw, d) \<in> set (schedulers_list oc)
                               \<and> F (shared_kwds oc kw) = Inr sub))
                      \<and> (event_index (base sub') = event_index (base sub)
                           \<or> event_index (base sub') = 0))))"
proof (intro conjI)
  show "(\<exists>x. ParamScheduler_call gp self w = Raise e x) \<longleftrightarrow> gp self = Inl e"
    by (rule ParamScheduler_call_raises_iff)
  show "gp self = Inl e \<longrightarrow> ParamScheduler_call gp self w = Raise e (self, w)"
    by (simp add: ParamScheduler_call_Inl)
  show "CyclicalScheduler_boundary cself = Inl e \<longrightarrow>
          CyclicalScheduler_call cgp cself w = Raise e (cself, w)"
    by (simp add: CyclicalScheduler_call_def)
  show "\<forall>cself'. CyclicalScheduler_boundary cself = Inr cself' \<longrightarrow>
          ((\<exists>x. CyclicalScheduler_call cgp cself w = Raise e x) \<longleftrightarrow> cgp cself' = Inl e)
          \<and> (cgp cself' = Inl e \<longrightarrow>
               CyclicalScheduler_call cgp cself w = Raise e (cself', w)
               \<and> (event_index cself' = event_index cself \<or> event_index cself' = 0))"
  proof (intro allI impI conjI)
    fix cself' assume b: "CyclicalScheduler_boundary cself = Inr cself'"
    show "(\<exists>x. CyclicalScheduler_call cgp cself w = Raise e x) \<longleftrightarrow> cgp cself' = Inl e"
      by (rule CyclicalScheduler_call_raises_iff [OF b])
    assume "cgp cself' = Inl e"
    then show "CyclicalScheduler_call cgp cself w = Raise e (cself', w)"
      using b by (simp add: CyclicalScheduler_call_def ParamScheduler_call_Inl)
    show "event_index cself' = event_index cself \<or> event_index cself' = 0"
      by (rule boundary_index [OF b])
  qed
  show "\<forall>s' w'. call s w = Raise e (s', w') \<longrightarrow>
          w' = w
          \<and> (event_index (base s') = event_index (base s) \<or> event_index (base s') = 0)"
    using call_Raise by blast
  show "\<not> switch_due cc \<and> scheduler cc = None \<longrightarrow>
          ConcatScheduler_call sub_call cc w = Raise AttributeError (decremented cc, w)"
    using concat_no_active [of cc sub_call w] by simp
  show "\<forall>sub. \<not> switch_due cc \<and> scheduler cc = Some sub \<longrightarrow>
          ((\<exists>x. ConcatScheduler_call sub_call cc w = Raise e x)
             \<longleftrightarrow> (\<exists>x. sub_call sub w = Raise e x))
          \<and> (\<forall>sub' w'. sub_call sub w = Raise e (sub', w') \<longrightarrow>
                ConcatScheduler_call sub_call cc w
                  = Raise e ((decremented cc)\<lparr>scheduler := Some sub'\<rparr>, w'))"
  proof (intro allI impI conjI)
    fix sub assume "\<not> switch_due cc \<and> scheduler cc = Some sub"
    then have h: "\<not> switch_due cc" "scheduler cc = Some sub" by simp_all
    show "(\<exists>x. ConcatScheduler_call sub_call cc w = Raise e x)
             \<longleftrightarrow> (\<exists>x. sub_call sub w = Raise e x)"
      by (rule concat_active_raises_iff [OF h])
    fix sub' w' assume "sub_call sub w = Raise e (sub', w')"
    then show "ConcatScheduler_call sub_call cc w
        = Raise e ((decremented cc)\<lparr>scheduler := Some sub'\<rparr>, w')"
      by (rule concat_active_Raise [where sub_call = sub_call and w = w, OF h])
  qed
  show "switch_due cc \<and> py_index (schedulers_list cc) (schedulers_index cc) = Inl e \<longrightarrow>
          ConcatScheduler_call sub_call cc w = Raise e (decremented cc, w)"
    using concat_lookup_Raise [of cc e sub_call w] by simp
  show "\<forall>F kw d. switch_due cc
            \<and> py_index (schedulers_list cc) (schedulers_index cc) = Inr (F, kw, d)
          \<longrightarrow> ((\<exists>x. ConcatScheduler_call sub_call cc w = Raise e x)
                \<longleftrightarrow> F (shared_kwds cc kw) = Inl e
                     \<or> (\<exists>s0 x. F (shared_kwds cc kw) = Inr s0 \<and> sub_call s0 w = Raise e x))
              \<and> (F (shared_kwds cc kw) = Inl e \<longrightarrow>
                   ConcatScheduler_call sub_call cc w
                     = Raise e (cc\<lparr>next_scheduler_switch := d\<rparr>, w))
              \<and> (\<forall>s0 sub' w'. F (shared_kwds cc kw) = Inr s0
                     \<and> sub_call s0 w = Raise e (sub', w') \<longrightarrow>
                   ConcatScheduler_call sub_call cc w
                     = Raise e (cc\<lparr>next_scheduler_switch := d, scheduler := Some sub',
                          schedulers_index := (schedulers_index cc + 1)
                             mod int (length (schedulers_list cc))\<rparr>, w'))"
  proof (intro allI impI conjI)
    fix F kw d
    assume "switch_due cc
            \<and> py_index (schedulers_list cc) (schedulers_index cc) = Inr (F, kw, d)"
    then have h: "switch_due cc"
      "py_index (schedulers_list cc) (schedulers_index cc) = Inr (F, kw, d)" by simp_all
    show "(\<exists>x. ConcatScheduler_call sub_call cc w = Raise e x)
                \<longleftrightarrow> F (shared_kwds cc kw) = Inl e
                     \<or> (\<exists>s0 x. F (shared_kwds cc kw) = Inr s0 \<and> sub_call s0 w = Raise e x)"
      by (rule concat_due_raises_iff [OF h])
    {
      assume "F (shared_kwds cc kw) = Inl e"
      then show "ConcatScheduler_call sub_call cc w
          = Raise e (cc\<lparr>next_scheduler_switch := d\<rparr>, w)"
        by (rule concat_due_factory_Raise [OF h])
    }
    fix s0 sub' w'
    assume "F (shared_kwds cc kw) = Inr s0 \<and> sub_call s0 w = Raise e (sub', w')"
    then have b: "F (shared_kwds cc kw) = Inr s0" "sub_call s0 w = Raise e (sub', w')"
      by simp_all
    show "ConcatScheduler_call sub_call cc w
        = Raise e (cc\<lparr>next_scheduler_switch := d, scheduler := Some sub',
             schedulers_index := (schedulers_index cc + 1)
                mod int (length (schedulers_list cc))\<rparr>, w')"
      by (rule concat_due_built_Raise [where sub_call = sub_call and w = w and ?s0.0 = s0,
            OF h b])
  qed
  show "\<forall>oc' w'. ConcatScheduler_call call oc w = Raise e (oc', w') \<longrightarrow>
          w' = w
          \<and> (\<forall>sub'. scheduler oc' = Some sub' \<longrightarrow>
                (\<exists>sub. (scheduler oc = Some sub
                         \<or> (\<exists>F kw d. (F, kw, d) \<in> set (schedulers_list oc)
                               \<and> F (shared_kwds oc kw) = Inr sub))
                      \<and> (event_index (base sub') = event_index (base sub)
                           \<or> event_index (base sub') = 0)))"
  proof (intro allI impI conjI)
    fix oc' w' assume r: "ConcatScheduler_call call oc w = Raise e (oc', w')"
    from concat_call_Raise_world [OF r] show "w' = w" by simp
    fix sub' assume "scheduler oc' = Some sub'"
    from concat_call_Raise_sub [OF r this]
    show "\<exists>sub. (scheduler oc = Some sub
                         \<or> (\<exists>F kw d. (F, kw, d) \<in> set (schedulers_list oc)
                               \<and> F (shared_kwds oc kw) = Inr sub))
                      \<and> (event_index (base sub') = event_index (base sub)
                           \<or> event_index (base sub') = 0)" .
  qed
qed

theorem exceptions_propagate_witness:
  "ParamScheduler_get_param example_cyclical = Inl NotImplementedError
   \<and> ParamScheduler_call ParamScheduler_get_param example_cyclical example_world
       = Raise NotImplementedError (example_cyclical, example_world)
   \<and> CyclicalScheduler_boundary (zero_size_cycle\<lparr>event_index := 1\<rparr>) = Inl ZeroDivisionError
   \<and> CyclicalScheduler_call LinearScheduler_get_param (zero_size_cycle\<lparr>event_index := 1\<rparr>)
         example_world
       = Raise ZeroDivisionError (zero_size_cycle\<lparr>event_index := 1\<rparr>, example_world)
   \<and> event_index (after 10 zero_mult_cycle) = 10
   \<and> CyclicalScheduler_boundary (after 10 zero_mult_cycle)
       = Inr (zero_mult_cycle\<lparr>cycle_size := 0, cycle := 1\<rparr>)
   \<and> LinearScheduler_get_param (zero_mult_cycle\<lparr>cycle_size := 0, cycle := 1\<rparr>)
       = Inl ZeroDivisionError
   \<and> CyclicalScheduler_call LinearScheduler_get_param (after 10 zero_mult_cycle) example_world
       = Raise ZeroDivisionError (zero_mult_cycle\<lparr>cycle_size := 0, cycle := 1\<rparr>, example_world)
   \<and> raised (call (CyclicalObj CyclicalScheduler (failing_after 2)) example_world)
       = Some NotImplementedError
   \<and> snd (outcome_state (call (CyclicalObj CyclicalScheduler (failing_after 2)) example_world))
       = example_world
   \<and> \<not> switch_due (failing_concat\<lparr>next_scheduler_switch := Some 3\<rparr>)
   \<and> scheduler (failing_concat\<lparr>next_scheduler_switch := Some 3\<rparr>) = None
   \<and> ConcatScheduler_call call (failing_concat\<lparr>next_scheduler_switch := Some 3\<rparr>)
         example_world
       = Raise AttributeError (failing_concat\<lparr>next_scheduler_switch := Some 2\<rparr>, example_world)
   \<and> \<not> switch_due
          (abstract_concat\<lparr>next_scheduler_switch := Some 2, scheduler := Some abstract_obj\<rparr>)
   \<and> call abstract_obj example_world = Raise NotImplementedError (abstract_obj, example_world)
   \<and> ConcatScheduler_call call
        (abstract_concat\<lparr>next_scheduler_switch := Some 2, scheduler := Some abstract_obj\<rparr>)
        example_world
       = Raise NotImplementedError
           (abstract_concat\<lparr>next_scheduler_switch := Some 1, scheduler := Some abstract_obj\<rparr>,
            example_world)
   \<and> switch_due empty_concat
   \<and> py_index (schedulers_list empty_concat) (schedulers_index empty_concat) = Inl IndexError
   \<and> ConcatScheduler_call call empty_concat example_world
       = Raise IndexError (empty_concat\<lparr>next_scheduler_switch := Some (- 1)\<rparr>, example_world)
   \<and> switch_due failing_concat
   \<and> CyclicalScheduler_new LinearScheduler
        (shared_kwds failing_concat [(''start_value'', PyNum 0.1)]) = Inl TypeError
   \<and> ConcatScheduler_call call failing_concat example_world
       = Raise TypeError (failing_concat\<lparr>next_scheduler_switch := Some 3\<rparr>, example_world)
   \<and> switch_due abstract_concat
   \<and> CyclicalScheduler_new CyclicalScheduler (shared_kwds abstract_concat example_kwds_A)
       = Inr abstract_obj
   \<and> ConcatScheduler_call call abstract_concat example_world
       = Raise NotImplementedError
           (abstract_concat\<lparr>next_scheduler_switch := Some 1, scheduler := Some abstract_obj,
               schedulers_index := 0\<rparr>, example_world)
   \<and> (\<exists>sub. (scheduler abstract_concat = Some sub
               \<or> (\<exists>F kw d. (F, kw, d) \<in> set (schedulers_list abstract_concat)
                     \<and> F (shared_kwds abstract_concat kw) = Inr sub))
            \<and> (event_index (base abstract_obj) = event_index (base sub)
                 \<or> event_index (base abstract_obj) = 0))"
proof -
  note t = exceptions_propagate
  have g: "ParamScheduler_get_param example_cyclical = Inl NotImplementedError"
    by (simp add: ParamScheduler_get_param_def)
  have 1: "ParamScheduler_call ParamScheduler_get_param example_cyclical example_world
       = Raise NotImplementedError (example_cyclical, example_world)"
    using t [of ParamScheduler_get_param example_cyclical example_world NotImplementedError,
        THEN conjunct2, THEN conjunct1] g by simp
  have zb: "CyclicalScheduler_boundary (zero_size_cycle\<lparr>event_index := 1\<rparr>)
      = Inl ZeroDivisionError"
    by (simp add: CyclicalScheduler_boundary_def py_mod_def zero_size_cycle_def init_fields)
  have 2: "CyclicalScheduler_call LinearScheduler_get_param
         (zero_size_cycle\<lparr>event_index := 1\<rparr>) example_world
       = Raise ZeroDivisionError (zero_size_cycle\<lparr>event_index := 1\<rparr>, example_world)"
    using t [where cself = "zero_size_cycle\<lparr>event_index := 1\<rparr>"
        and cgp = LinearScheduler_get_param and w = example_world and e = ZeroDivisionError,
        THEN conjunct2, THEN conjunct2, THEN conjunct1] zb
    by simp
  have a10: "after 10 zero_mult_cycle = zero_mult_cycle\<lparr>event_index := 10\<rparr>"
    by (simp add: cyclical_run zero_mult_cycle_def)
  have z: "event_index zero_mult_cycle = 0" "cycle_size zero_mult_cycle = 10"
    "cycle_mult zero_mult_cycle = 0" "cycle zero_mult_cycle = 0"
    by (simp_all add: zero_mult_cycle_def init_fields)
  have i10: "event_index (after 10 zero_mult_cycle) = 10" unfolding a10 by simp
  have b: "CyclicalScheduler_boundary (after 10 zero_mult_cycle)
       = Inr (zero_mult_cycle\<lparr>cycle_size := 0, cycle := 1\<rparr>)"
    unfolding a10 by (simp add: CyclicalScheduler_boundary_def py_mod_def z)
  have gz: "LinearScheduler_get_param (zero_mult_cycle\<lparr>cycle_size := 0, cycle := 1\<rparr>)
       = Inl ZeroDivisionError"
    by (simp add: LinearScheduler_get_param_def py_truediv_def)
  have 3: "CyclicalScheduler_call LinearScheduler_get_param (after 10 zero_mult_cycle)
       example_world
       = Raise ZeroDivisionError (zero_mult_cycle\<lparr>cycle_size := 0, cycle := 1\<rparr>, example_world)"
    using t [where cself = "after 10 zero_mult_cycle" and cgp = LinearScheduler_get_param
        and w = example_world and e = ZeroDivisionError,
        THEN conjunct2, THEN conjunct2, THEN conjunct2, THEN conjunct1, rule_format, OF b] gz
    by simp
  let ?X = "CyclicalObj CyclicalScheduler (failing_after 2)"
  have xr: "raised (call ?X example_world) = Some NotImplementedError"
    by (simp add: CyclicalScheduler_call_def failing_after_2_boundary ParamScheduler_call_Inl
        ParamScheduler_get_param_def)
  then obtain x where x: "call ?X example_world = Raise NotImplementedError x"
    by (cases "call ?X example_world") simp_all
  obtain s' w' where xp: "x = (s', w')" by (cases x)
  have "w' = example_world"
    using t [where s = ?X and w = example_world and e = NotImplementedError,
        THEN conjunct2, THEN conjunct2, THEN conjunct2, THEN conjunct2, THEN conjunct1,
        rule_format, of s' w'] x xp
    by simp
  then have 4: "snd (outcome_state (call ?X example_world)) = example_world"
    using x xp by simp
  let ?left = "failing_concat\<lparr>next_scheduler_switch := Some 3\<rparr>"
  have ld: "\<not> switch_due ?left" by (simp add: switch_due_def)
  have ls: "scheduler ?left = None" by (simp add: failing_concat_due)
  have 5: "ConcatScheduler_call call ?left example_world
       = Raise AttributeError (failing_concat\<lparr>next_scheduler_switch := Some 2\<rparr>, example_world)"
    using t [where cc = ?left and sub_call = call and w = example_world,
        THEN conjunct2, THEN conjunct2, THEN conjunct2, THEN conjunct2, THEN conjunct2,
        THEN conjunct1] ld ls
    by (simp add: decremented_def)
  let ?stay = "abstract_concat\<lparr>next_scheduler_switch := Some 2, scheduler := Some abstract_obj\<rparr>"
  have sd: "\<not> switch_due ?stay" by (simp add: switch_due_def)
  have 6: "ConcatScheduler_call call ?stay example_world
       = Raise NotImplementedError
           (abstract_concat\<lparr>next_scheduler_switch := Some 1, scheduler := Some abstract_obj\<rparr>,
            example_world)"
    using t [where cc = ?stay and sub_call = call and w = example_world
        and e = NotImplementedError,
        THEN conjunct2, THEN conjunct2, THEN conjunct2, THEN conjunct2, THEN conjunct2,
        THEN conjunct2, THEN conjunct1, rule_format, of abstract_obj,
        THEN conjunct2, rule_format, of abstract_obj example_world] sd abstract_obj_raises
    by (simp add: decremented_def)
  have ed: "switch_due empty_concat"
    by (simp add: switch_due_def empty_concat_def concat_init_fields)
  have ei: "py_index (schedulers_list empty_concat) (schedulers_index empty_concat)
      = Inl IndexError"
    by (simp add: py_index_def empty_concat_def concat_init_fields)
  have 7: "ConcatScheduler_call call empty_concat example_world
       = Raise IndexError (empty_concat\<lparr>next_scheduler_switch := Some (- 1)\<rparr>, example_world)"
    using t [where cc = empty_concat and sub_call = call and w = example_world
        and e = IndexError,
        THEN conjunct2, THEN conjunct2, THEN conjunct2, THEN conjunct2, THEN conjunct2,
        THEN conjunct2, THEN conjunct2, THEN conjunct1] ed ei
    by (simp add: decremented_def empty_concat_def concat_init_fields)
  have fi: "switch_due failing_concat
      \<and> py_index (schedulers_list failing_concat) (schedulers_index failing_concat)
          = Inr (CyclicalScheduler_new LinearScheduler, [(''start_value'', PyNum 0.1)], Some 3)"
    by (intro conjI failing_concat_due(1) failing_concat_due(2))
  have 8: "ConcatScheduler_call call failing_concat example_world
       = Raise TypeError (failing_concat\<lparr>next_scheduler_switch := Some 3\<rparr>, example_world)"
    using t [where cc = failing_concat and sub_call = call and w = example_world
        and e = TypeError,
        THEN conjunct2, THEN conjunct2, THEN conjunct2, THEN conjunct2, THEN conjunct2,
        THEN conjunct2, THEN conjunct2, THEN conjunct2, THEN conjunct1, rule_format, OF fi]
      failing_concat_factory
    by simp
  have ai: "switch_due abstract_concat
      \<and> py_index (schedulers_list abstract_concat) (schedulers_index abstract_concat)
          = Inr (CyclicalScheduler_new CyclicalScheduler, example_kwds_A, Some 1)"
    by (intro conjI abstract_concat_due(1) abstract_concat_due(2))
  have 9: "ConcatScheduler_call call abstract_concat example_world
       = Raise NotImplementedError
           (abstract_concat\<lparr>next_scheduler_switch := Some 1, scheduler := Some abstract_obj,
               schedulers_index := 0\<rparr>, example_world)"
    using t [where cc = abstract_concat and sub_call = call and w = example_world
        and e = NotImplementedError,
        THEN conjunct2, THEN conjunct2, THEN conjunct2, THEN conjunct2, THEN conjunct2,
        THEN conjunct2, THEN conjunct2, THEN conjunct2, THEN conjunct1, rule_format, OF ai,
        THEN conjunct2, THEN conjunct2, rule_format,
        of abstract_obj abstract_obj example_world]
      abstract_concat_built abstract_obj_raises
    by (simp add: abstract_concat_due)
  have 10: "\<exists>sub. (scheduler abstract_concat = Some sub
               \<or> (\<exists>F kw d. (F, kw, d) \<in> set (schedulers_list abstract_concat)
                     \<and> F (shared_kwds abstract_concat kw) = Inr sub))
            \<and> (event_index (base abstract_obj) = event_index (base sub)
                 \<or> event_index (base abstract_obj) = 0)"
    using t [where oc = abstract_concat and w = example_world and e = NotImplementedError,
        THEN conjunct2, THEN conjunct2, THEN conjunct2, THEN conjunct2, THEN conjunct2,
        THEN conjunct2, THEN conjunct2, THEN conjunct2, THEN conjunct2, rule_format,
        OF 9, THEN conjunct2, rule_format, of abstract_obj]
    by simp
  show ?thesis
    by (intro conjI g 1 zb 2 i10 b gz 3 xr 4 ld ls 5 sd abstract_obj_raises 6 ed ei 7
        failing_concat_due(1) failing_concat_factory 8 abstract_concat_due(1)
        abstract_concat_built 9 10)
qed

subsection \<open>The value sequence depends on the schedule only\<close>

lemma ParamScheduler_call_indep:
  "raised (ParamScheduler_call gp self w1) = raised (ParamScheduler_call gp self w2)
   \<and> fst (outcome_state (ParamScheduler_call gp self w1))
       = fst (outcome_state (ParamScheduler_call gp self w2))"
  by (cases "gp self") (simp_all add: ParamScheduler_call_Inl ParamScheduler_call_Inr)

lemma ParamScheduler_call_written:
  assumes "ParamScheduler_call gp self w = Done (self', w')"
  shows "\<exists>v. gp self = Inr v
     \<and> (\<forall>pg\<in>set (param_groups w' (optimizer self)). pg (param_name self) = Some v)"
proof (cases "gp self")
  case (Inl e)
  then show ?thesis using assms by (simp add: ParamScheduler_call_Inl)
next
  case (Inr v)
  then show ?thesis using assms by (auto simp: ParamScheduler_call_Inr)
qed

lemma call_indep:
  "raised (call s w1) = raised (call s w2)
   \<and> fst (outcome_state (call s w1)) = fst (outcome_state (call s w2))"
proof (cases s)
  case (ParamSchedulerObj p)
  then show ?thesis
    using ParamScheduler_call_indep [of ParamScheduler_get_param p w1 w2]
    by (simp add: in_class_state)
next
  case (CyclicalObj c p)
  show ?thesis
  proof (cases "CyclicalScheduler_boundary p")
    case (Inl e)
    then show ?thesis using CyclicalObj by (simp add: CyclicalScheduler_call_def)
  next
    case (Inr p')
    then show ?thesis
      using CyclicalObj ParamScheduler_call_indep [of "get_param c" p' w1 w2]
      by (simp add: CyclicalScheduler_call_def in_class_state)
  qed
qed

lemma call_written:
  assumes "call s w1 = Done (s1, w1')" "call s w2 = Done (s2, w2')"
  shows "\<exists>v. (\<forall>pg\<in>set (param_groups w1' (optimizer (base s))).
                 pg (param_name (base s)) = Some v)
           \<and> (\<forall>pg\<in>set (param_groups w2' (optimizer (base s))).
                 pg (param_name (base s)) = Some v)"
proof (cases s)
  case (ParamSchedulerObj p)
  then show ?thesis
    using assms(1)
    by (simp add: ParamScheduler_call_Inl [of ParamScheduler_get_param p NotImplementedError]
        ParamScheduler_get_param_def)
next
  case (CyclicalObj c p)
  show ?thesis
  proof (cases "CyclicalScheduler_boundary p")
    case (Inl e)
    then show ?thesis using CyclicalObj assms(1) by (simp add: CyclicalScheduler_call_def)
  next
    case (Inr p')
    have f: "optimizer p' = optimizer p" "param_name p' = param_name p"
      using Inr by (auto simp: CyclicalScheduler_boundary_def split: if_splits sum.splits)
    obtain q1 where 1: "ParamScheduler_call (get_param c) p' w1 = Done (q1, w1')"
      using assms(1) CyclicalObj Inr
      by (cases "ParamScheduler_call (get_param c) p' w1";
          cases "outcome_state (ParamScheduler_call (get_param c) p' w1)")
        (auto simp: CyclicalScheduler_call_def)
    obtain q2 where 2: "ParamScheduler_call (get_param c) p' w2 = Done (q2, w2')"
      using assms(2) CyclicalObj Inr
      by (cases "ParamScheduler_call (get_param c) p' w2";
          cases "outcome_state (ParamScheduler_call (get_param c) p' w2)")
        (auto simp: CyclicalScheduler_call_def)
    from ParamScheduler_call_written [OF 1] ParamScheduler_call_written [OF 2]
    show ?thesis using f CyclicalObj by auto
  qed
qed

lemma call_base:
  "optimizer (base (fst (outcome_state (call s w)))) = optimizer (base s)
   \<and> param_name (base (fst (outcome_state (call s w)))) = param_name (base s)"
  using call_targets [of s w "base s"] by (simp add: targets_def)

lemma invoke_one: "invoke f (Suc 0) self w = f self w"
  by (cases "f self w"; cases "outcome_state (f self w)") simp_all

lemma invoke_snoc:
  "invoke f (Suc n) self w =
     (case invoke f n self w of
        Raise e x \<Rightarrow> Raise e x
      | Done (self', w') \<Rightarrow> f self' w')"
proof -
  have "invoke f (Suc n) self w = invoke f (n + Suc 0) self w" by simp
  then show ?thesis by (simp only: invoke_add invoke_one)
qed

lemma invoke_indep:
  assumes step: "\<And>s w1 w2. raised (f s w1) = raised (f s w2)
       \<and> fst (outcome_state (f s w1)) = fst (outcome_state (f s w2))"
  shows "raised (invoke f n s w1) = raised (invoke f n s w2)
   \<and> fst (outcome_state (invoke f n s w1)) = fst (outcome_state (invoke f n s w2))"
proof (induction n arbitrary: s w1 w2)
  case 0
  then show ?case by simp
next
  case (Suc n)
  show ?case
  proof (cases "f s w1")
    case (Raise e x)
    then obtain y where "f s w2 = Raise e y" "fst y = fst x"
      using step [of s w1 w2] by (cases "f s w2") auto
    then show ?thesis using Raise by simp
  next
    case (Done x)
    then obtain y where y: "f s w2 = Done y" "fst y = fst x"
      using step [of s w1 w2] by (cases "f s w2") auto
    obtain s1 v1 where x: "x = (s1, v1)" by (cases x)
    obtain v2 where y': "y = (s1, v2)" using y(2) x by (cases y) simp
    show ?thesis using Done y(1) x y' Suc.IH [of s1 v1 v2] by simp
  qed
qed

lemma invoke_call_base:
  "optimizer (base (fst (outcome_state (invoke call n s w)))) = optimizer (base s)
   \<and> param_name (base (fst (outcome_state (invoke call n s w)))) = param_name (base s)"
proof (induction n arbitrary: s w)
  case 0
  then show ?case by simp
next
  case (Suc n)
  show ?case
  proof (cases "call s w")
    case (Raise e x)
    then show ?thesis using call_base [of s w] by simp
  next
    case (Done x)
    obtain s1 w1 where x: "x = (s1, w1)" by (cases x)
    then show ?thesis using Done call_base [of s w] Suc.IH [of s1 w1] by simp
  qed
qed

lemma invoke_inv:
  assumes "\<And>s w. I s \<Longrightarrow> I (fst (outcome_state (f s w)))"
  shows "I s \<Longrightarrow> I (fst (outcome_state (invoke f n s w)))"
proof (induction n arbitrary: s w)
  case 0
  then show ?case by simp
next
  case (Suc n)
  show ?case
  proof (cases "f s w")
    case (Raise e x)
    then show ?thesis using assms [OF Suc.prems, of w] by simp
  next
    case (Done x)
    obtain s1 w1 where x: "x = (s1, w1)" by (cases x)
    have "I s1" using assms [OF Suc.prems, of w] Done x by simp
    from Suc.IH [OF this, of w1] show ?thesis using Done x by simp
  qed
qed

lemma invoke_written:
  assumes indep: "\<And>s w1 w2. raised (f s w1) = raised (f s w2)
       \<and> fst (outcome_state (f s w1)) = fst (outcome_state (f s w2))"
    and inv: "\<And>s w. I s \<Longrightarrow> I (fst (outcome_state (f s w)))"
    and written: "\<And>s w1 w2 s1 w1' s2 w2'. I s \<Longrightarrow> f s w1 = Done (s1, w1')
       \<Longrightarrow> f s w2 = Done (s2, w2') \<Longrightarrow> \<exists>v. P v w1' \<and> P v w2'"
    and "I s" "raised (invoke f (Suc m) s w1) = None"
  shows "\<exists>v. P v (snd (outcome_state (invoke f (Suc m) s w1)))
           \<and> P v (snd (outcome_state (invoke f (Suc m) s w2)))"
proof -
  have r2: "raised (invoke f (Suc m) s w2) = None"
    using invoke_indep [of f "Suc m" s w1 w2] indep assms(5) by simp
  obtain sm v1 where m1: "invoke f m s w1 = Done (sm, v1)"
    using assms(5) unfolding invoke_snoc
    by (cases "invoke f m s w1"; cases "outcome_state (invoke f m s w1)") auto
  obtain sm' v2 where m2: "invoke f m s w2 = Done (sm', v2)"
    using r2 unfolding invoke_snoc
    by (cases "invoke f m s w2"; cases "outcome_state (invoke f m s w2)") auto
  have "sm' = sm" using invoke_indep [of f m s w1 w2] indep m1 m2 by simp
  then have m2: "invoke f m s w2 = Done (sm, v2)" using m2 by simp
  have I: "I sm" using invoke_inv [of I f s m w1] inv assms(4) m1 by simp
  obtain x1 where c1: "f sm v1 = Done x1"
    using assms(5) m1 unfolding invoke_snoc by (cases "f sm v1") auto
  obtain x2 where c2: "f sm v2 = Done x2"
    using r2 m2 unfolding invoke_snoc by (cases "f sm v2") auto
  obtain s1 w1' where x1: "x1 = (s1, w1')" by (cases x1)
  obtain s2 w2' where x2: "x2 = (s2, w2')" by (cases x2)
  from written [OF I, of v1 s1 w1' v2 s2 w2'] c1 c2 x1 x2
  obtain v where "P v w1'" "P v w2'" by auto
  moreover have "snd (outcome_state (invoke f (Suc m) s w1)) = w1'"
    unfolding invoke_snoc using m1 c1 x1 by simp
  moreover have "snd (outcome_state (invoke f (Suc m) s w2)) = w2'"
    unfolding invoke_snoc using m2 c2 x2 by simp
  ultimately show ?thesis by auto
qed

lemma same_outcome:
  assumes "raised r1 = raised r2" "fst (outcome_state r1) = fst (outcome_state r2)"
  shows "(\<exists>e s v1 v2. r1 = Raise e (s, v1) \<and> r2 = Raise e (s, v2))
       \<or> (\<exists>s v1 v2. r1 = Done (s, v1) \<and> r2 = Done (s, v2))"
proof (cases r1)
  case (Raise e x)
  then obtain y where y: "r2 = Raise e y" using assms(1) by (cases r2) auto
  then have "fst y = fst x" using assms(2) Raise by simp
  then show ?thesis using Raise y by (cases x; cases y) simp
next
  case (Done x)
  then obtain y where y: "r2 = Done y" using assms(1) by (cases r2) auto
  then have "fst y = fst x" using assms(2) Done by simp
  then show ?thesis using Done y by (cases x; cases y) simp
qed

lemma delegate_indep:
  "raised (ConcatScheduler_delegate call self w1) = raised (ConcatScheduler_delegate call self w2)
   \<and> fst (outcome_state (ConcatScheduler_delegate call self w1))
       = fst (outcome_state (ConcatScheduler_delegate call self w2))"
proof (cases "scheduler self")
  case None
  then show ?thesis by (simp add: ConcatScheduler_delegate_def)
next
  case (Some sub)
  from same_outcome [of "call sub w1" "call sub w2"] call_indep [of sub w1 w2]
  consider e s v1 v2 where "call sub w1 = Raise e (s, v1)" "call sub w2 = Raise e (s, v2)"
    | s v1 v2 where "call sub w1 = Done (s, v1)" "call sub w2 = Done (s, v2)"
    by blast
  then show ?thesis
  proof cases
    case 1
    then show ?thesis using Some by (simp add: ConcatScheduler_delegate_def)
  next
    case 2
    then show ?thesis using Some by (simp add: ConcatScheduler_delegate_def)
  qed
qed

lemma concat_call_pre:
  "\<exists>r. \<forall>w. ConcatScheduler_call sub_call self w =
     (case r of Raise e s \<Rightarrow> Raise e (s, w) | Done s \<Rightarrow> ConcatScheduler_delegate sub_call s w)"
proof (cases "next_scheduler_switch self")
  case None
  then have "\<forall>w. ConcatScheduler_call sub_call self w =
     (case Done self of Raise e s \<Rightarrow> Raise e (s, w)
      | Done s \<Rightarrow> ConcatScheduler_delegate sub_call s w)"
    by (simp add: ConcatScheduler_call_def)
  then show ?thesis by blast
next
  case (Some n)
  let ?s1 = "self\<lparr>next_scheduler_switch := Some (n - 1)\<rparr>"
  have "\<forall>w. ConcatScheduler_call sub_call self w =
     (case (if n - 1 < 0 then ConcatScheduler_next_scheduler ?s1 else Done ?s1) of
        Raise e s \<Rightarrow> Raise e (s, w)
      | Done s \<Rightarrow> ConcatScheduler_delegate sub_call s w)"
    using Some by (simp add: ConcatScheduler_call_def Let_def)
  then show ?thesis by blast
qed

lemma concat_call_indep:
  "raised (ConcatScheduler_call call self w1) = raised (ConcatScheduler_call call self w2)
   \<and> fst (outcome_state (ConcatScheduler_call call self w1))
       = fst (outcome_state (ConcatScheduler_call call self w2))"
proof -
  from concat_call_pre [of call self] obtain r where
    r: "\<And>w. ConcatScheduler_call call self w =
     (case r of Raise e s \<Rightarrow> Raise e (s, w) | Done s \<Rightarrow> ConcatScheduler_delegate call s w)"
    by blast
  show ?thesis
  proof (cases r)
    case (Raise e s)
    then show ?thesis using r by simp
  next
    case (Done s)
    then show ?thesis using r delegate_indep [of s w1 w2] by simp
  qed
qed

lemma delegate_written:
  assumes "concat_inv self0 self"
    "ConcatScheduler_delegate call self w1 = Done (s1, w1')"
    "ConcatScheduler_delegate call self w2 = Done (s2, w2')"
  shows "\<exists>v. holds_value (optimizer self0) (param_name self0) v w1'
           \<and> holds_value (optimizer self0) (param_name self0) v w2'"
proof (cases "scheduler self")
  case None
  then show ?thesis using assms(2) by (simp add: ConcatScheduler_delegate_def)
next
  case (Some sub)
  then have t: "targets sub self0" using assms(1) by (simp add: concat_inv_def)
  obtain sub1 where 1: "call sub w1 = Done (sub1, w1')"
    using assms(2) Some
    by (cases "call sub w1"; cases "outcome_state (call sub w1)")
      (auto simp: ConcatScheduler_delegate_def)
  obtain sub2 where 2: "call sub w2 = Done (sub2, w2')"
    using assms(3) Some
    by (cases "call sub w2"; cases "outcome_state (call sub w2)")
      (auto simp: ConcatScheduler_delegate_def)
  from call_written [OF 1 2] t show ?thesis
    by (simp add: holds_value_def targets_def)
qed

lemma concat_call_written:
  assumes "concat_inv self0 self" "\<forall>(F, kw, d)\<in>set (schedulers_list self0). in_source F"
    "ConcatScheduler_call call self w1 = Done (s1, w1')"
    "ConcatScheduler_call call self w2 = Done (s2, w2')"
  shows "\<exists>v. holds_value (optimizer self0) (param_name self0) v w1'
           \<and> holds_value (optimizer self0) (param_name self0) v w2'"
proof (cases "next_scheduler_switch self")
  case None
  then show ?thesis
    using assms(3,4) delegate_written [OF assms(1), of w1 s1 w1' w2 s2 w2']
    by (simp add: ConcatScheduler_call_def)
next
  case (Some n)
  let ?s1 = "self\<lparr>next_scheduler_switch := Some (n - 1)\<rparr>"
  have i1: "concat_inv self0 ?s1" using assms(1) by (simp add: concat_inv_def)
  show ?thesis
  proof (cases "n - 1 < 0")
    case False
    then show ?thesis
      using Some assms(3,4) delegate_written [OF i1, of w1 s1 w1' w2 s2 w2']
      by (simp add: ConcatScheduler_call_def Let_def)
  next
    case True
    show ?thesis
    proof (cases "ConcatScheduler_next_scheduler ?s1")
      case (Raise e x)
      then show ?thesis using Some True assms(3) by (simp add: ConcatScheduler_call_def Let_def)
    next
      case (Done x)
      then have "concat_inv self0 x" using next_scheduler_inv [OF i1 assms(2)] by simp
      from delegate_written [OF this, of w1 s1 w1' w2 s2 w2']
      show ?thesis using Some True Done assms(3,4) by (simp add: ConcatScheduler_call_def Let_def)
    qed
  qed
qed

text \<open>
  C9. The model is a function of the scheduler and the world, so two schedulers
  constructed alike are equal and behave alike; what remains to show is that nothing of
  the world (the optimizer's groups and their values, the engine's history) enters the
  values.  For every object of the module and every \<^verbatim>\<open>ConcatScheduler\<close> over such objects,
  in any two worlds: \<open>n\<close> invocations raise the same exception or none, leave the same
  scheduler state, and, when they return and \<open>n > 0\<close>, have written one and the same value
  into the parameter groups of the scheduler's optimizer in both worlds (for the
  \<^verbatim>\<open>ConcatScheduler\<close>, whose entries name classes of the module and whose active
  sub-scheduler, if any, shares its optimizer and parameter name).
\<close>

theorem value_sequence_deterministic:
  fixes s :: obj and cc :: "obj concat_scheduler"
  shows "raised (invoke call n s w1) = raised (invoke call n s w2)
     \<and> fst (outcome_state (invoke call n s w1)) = fst (outcome_state (invoke call n s w2))
     \<and> (0 < n \<and> raised (invoke call n s w1) = None \<longrightarrow>
          (\<exists>v. holds_value (optimizer (base s)) (param_name (base s)) v
                 (snd (outcome_state (invoke call n s w1)))
              \<and> holds_value (optimizer (base s)) (param_name (base s)) v
                 (snd (outcome_state (invoke call n s w2)))))
     \<and> raised (invoke (ConcatScheduler_call call) n cc w1)
         = raised (invoke (ConcatScheduler_call call) n cc w2)
     \<and> fst (outcome_state (invoke (ConcatScheduler_call call) n cc w1))
         = fst (outcome_state (invoke (ConcatScheduler_call call) n cc w2))
     \<and> ((\<forall>(F, kw, d)\<in>set (schedulers_list cc). in_source F)
          \<and> (\<forall>sub. scheduler cc = Some sub \<longrightarrow> targets sub cc)
          \<and> 0 < n \<and> raised (invoke (ConcatScheduler_call call) n cc w1) = None \<longrightarrow>
          (\<exists>v. holds_value (optimizer cc) (param_name cc) v
                 (snd (outcome_state (invoke (ConcatScheduler_call call) n cc w1)))
              \<and> holds_value (optimizer cc) (param_name cc) v
                 (snd (outcome_state (invoke (ConcatScheduler_call call) n cc w2)))))"
proof (intro conjI impI)
  show "raised (invoke call n s w1) = raised (invoke call n s w2)"
    and "fst (outcome_state (invoke call n s w1)) = fst (outcome_state (invoke call n s w2))"
    using invoke_indep [of call n s w1 w2] call_indep by simp_all
  show "raised (invoke (ConcatScheduler_call call) n cc w1)
         = raised (invoke (ConcatScheduler_call call) n cc w2)"
    and "fst (outcome_state (invoke (ConcatScheduler_call call) n cc w1))
         = fst (outcome_state (invoke (ConcatScheduler_call call) n cc w2))"
    using invoke_indep [of "ConcatScheduler_call call" n cc w1 w2] concat_call_indep
    by simp_all
next
  assume h: "0 < n \<and> raised (invoke call n s w1) = None"
  then obtain m where n: "n = Suc m" by (cases n) auto
  let ?I = "\<lambda>x. optimizer (base x) = optimizer (base s) \<and> param_name (base x) = param_name (base s)"
  have "\<exists>v. holds_value (optimizer (base s)) (param_name (base s)) v
                 (snd (outcome_state (invoke call (Suc m) s w1)))
           \<and> holds_value (optimizer (base s)) (param_name (base s)) v
                 (snd (outcome_state (invoke call (Suc m) s w2)))"
  proof (rule invoke_written [where I = ?I])
    show "raised (call x v1) = raised (call x v2)
       \<and> fst (outcome_state (call x v1)) = fst (outcome_state (call x v2))" for x v1 v2
      by (rule call_indep)
    show "?I (fst (outcome_state (call x v)))" if "?I x" for x v
      using that call_base [of x v] by simp
    show "\<exists>v. holds_value (optimizer (base s)) (param_name (base s)) v v1'
           \<and> holds_value (optimizer (base s)) (param_name (base s)) v v2'"
      if "?I x" "call x v1 = Done (x1, v1')" "call x v2 = Done (x2, v2')"
      for x v1 v2 x1 v1' x2 v2'
      using call_written [OF that(2,3)] that(1) by (simp add: holds_value_def)
    show "?I s" by simp
    show "raised (invoke call (Suc m) s w1) = None" using h n by simp
  qed
  then show "\<exists>v. holds_value (optimizer (base s)) (param_name (base s)) v
                 (snd (outcome_state (invoke call n s w1)))
              \<and> holds_value (optimizer (base s)) (param_name (base s)) v
                 (snd (outcome_state (invoke call n s w2)))"
    using n by simp
next
  assume h: "(\<forall>(F, kw, d)\<in>set (schedulers_list cc). in_source F)
          \<and> (\<forall>sub. scheduler cc = Some sub \<longrightarrow> targets sub cc)
          \<and> 0 < n \<and> raised (invoke (ConcatScheduler_call call) n cc w1) = None"
  then obtain m where n: "n = Suc m" by (cases n) auto
  have src: "\<forall>(F, kw, d)\<in>set (schedulers_list cc). in_source F" using h by simp
  have "\<exists>v. holds_value (optimizer cc) (param_name cc) v
                 (snd (outcome_state (invoke (ConcatScheduler_call call) (Suc m) cc w1)))
           \<and> holds_value (optimizer cc) (param_name cc) v
                 (snd (outcome_state (invoke (ConcatScheduler_call call) (Suc m) cc w2)))"
  proof (rule invoke_written [where I = "concat_inv cc"])
    show "raised (ConcatScheduler_call call x v1) = raised (ConcatScheduler_call call x v2)
       \<and> fst (outcome_state (ConcatScheduler_call call x v1))
           = fst (outcome_state (ConcatScheduler_call call x v2))" for x v1 v2
      by (rule concat_call_indep)
    show "concat_inv cc (fst (outcome_state (ConcatScheduler_call call x v)))"
      if "concat_inv cc x" for x v
      by (rule concat_call_inv [OF that src])
    show "\<exists>v. holds_value (optimizer cc) (param_name cc) v v1'
           \<and> holds_value (optimizer cc) (param_name cc) v v2'"
      if "concat_inv cc x" "ConcatScheduler_call call x v1 = Done (x1, v1')"
        "ConcatScheduler_call call x v2 = Done (x2, v2')"
      for x v1 v2 x1 v1' x2 v2'
      by (rule concat_call_written [OF that(1) src that(2,3)])
    show "concat_inv cc cc" using h by (simp add: concat_inv_def)
    show "raised (invoke (ConcatScheduler_call call) (Suc m) cc w1) = None" using h n by simp
  qed
  then show "\<exists>v. holds_value (optimizer cc) (param_name cc) v
                 (snd (outcome_state (invoke (ConcatScheduler_call call) n cc w1)))
              \<and> holds_value (optimizer cc) (param_name cc) v
                 (snd (outcome_state (invoke (ConcatScheduler_call call) n cc w2)))"
    using n by simp
qed

theorem value_sequence_deterministic_witness:
  "raised (invoke call 6 example_linear example_world) = None
   \<and> param_groups (snd (outcome_state (invoke call 6 example_linear example_world))) 0
       = [ [''lr'' \<mapsto> 0.01] ]
   \<and> raised (invoke call 6 example_linear other_world) = None
   \<and> fst (outcome_state (invoke call 6 example_linear other_world))
       = CyclicalObj LinearScheduler (example_cyclical\<lparr>event_index := 6\<rparr>)
   \<and> holds_value 0 ''lr'' 0.01 (snd (outcome_state (invoke call 6 example_linear other_world)))
   \<and> in_source (CyclicalScheduler_new LinearScheduler)
   \<and> in_source (CyclicalScheduler_new CosineAnnealingScheduler)
   \<and> scheduler example_concat = None
   \<and> raised (invoke (ConcatScheduler_call call) 1 example_concat example_world) = None
   \<and> raised (invoke (ConcatScheduler_call call) 1 example_concat other_world) = None
   \<and> holds_value 0 ''lr'' 0.1
        (snd (outcome_state (invoke (ConcatScheduler_call call) 1 example_concat other_world)))"
proof -
  let ?C = "ConcatScheduler_call call"
  note t = value_sequence_deterministic [of 6 example_linear example_world other_world]
  obtain w where e: "invoke call 6 example_linear example_world
      = Done (CyclicalObj LinearScheduler (example_cyclical\<lparr>event_index := 6\<rparr>), w)"
    "param_groups w 0 = [ [''lr'' \<mapsto> 0.01] ]"
    by (simp add: obj_run)
  have b: "optimizer (base example_linear) = 0" "param_name (base example_linear) = ''lr''"
    by (simp_all add: example_linear_def example_cyclical_fields)
  have 1: "raised (invoke call 6 example_linear example_world) = None" using e(1) by simp
  have 2: "param_groups (snd (outcome_state (invoke call 6 example_linear example_world))) 0
       = [ [''lr'' \<mapsto> 0.01] ]" using e by simp
  have 3: "raised (invoke call 6 example_linear other_world) = None"
    using t 1 by simp
  have 4: "fst (outcome_state (invoke call 6 example_linear other_world))
       = CyclicalObj LinearScheduler (example_cyclical\<lparr>event_index := 6\<rparr>)"
    using t e(1) by simp
  from t 1 obtain v where v: "holds_value 0 ''lr'' v w"
    "holds_value 0 ''lr'' v (snd (outcome_state (invoke call 6 example_linear other_world)))"
    using e(1) b by auto
  have "v = 0.01" using v(1) e(2) by (simp add: holds_value_def)
  then have 5: "holds_value 0 ''lr'' 0.01
      (snd (outcome_state (invoke call 6 example_linear other_world)))"
    using v(2) by (simp only:)
  have srcA: "in_source (CyclicalScheduler_new LinearScheduler)"
    and srcB: "in_source (CyclicalScheduler_new CosineAnnealingScheduler)"
    by (auto simp: in_source_def)
  have src: "\<forall>(F, kw, d)\<in>set (schedulers_list example_concat). in_source F"
    using srcA srcB by (simp add: example_concat_fields)
  obtain a' w' where a: "invoke call (Suc 0) example_linear example_world = Done (a', w')"
    "param_groups w' 0 = [ [''lr'' \<mapsto> 0.1] ]"
    by (simp add: obj_run)
  have ix: "py_index (schedulers_list example_concat) (schedulers_index example_concat)
      = Inr (CyclicalScheduler_new LinearScheduler, example_kwds_A, Some (int 1))"
    by (simp add: example_concat_fields py_index_def)
  have z: "(0::int) \<le> 0" "(0::nat) \<le> 1" by simp_all
  have c: "invoke ?C 1 example_concat example_world
      = Done (example_concat\<lparr>next_scheduler_switch := Some (int 1 - int 0),
          scheduler := Some a',
          schedulers_index := (schedulers_index example_concat + 1)
             mod int (length (schedulers_list example_concat))\<rparr>, w')"
    using concat_phase [OF example_concat_fields(7) z(1) ix example_construct(1) z(2) a(1)]
    by simp
  note u = value_sequence_deterministic [where n = 1 and cc = example_concat
      and ?w1.0 = example_world and ?w2.0 = other_world]
  have 6: "raised (invoke ?C 1 example_concat example_world) = None" using c by simp
  have 7: "raised (invoke ?C 1 example_concat other_world) = None"
    using u 6 by simp
  from u src 6 obtain v' where v': "holds_value 0 ''lr'' v' w'"
    "holds_value 0 ''lr'' v' (snd (outcome_state (invoke ?C 1 example_concat other_world)))"
    using c by (auto simp: example_concat_fields)
  have "v' = 0.1" using v'(1) a(2) by (simp add: holds_value_def)
  then have 8: "holds_value 0 ''lr'' 0.1
      (snd (outcome_state (invoke ?C 1 example_concat other_world)))"
    using v'(2) by (simp only:)
  show ?thesis by (intro conjI 1 2 3 4 5 srcA srcB example_concat_fields(8) 6 7 8)
qed

end
